(* ===== verification/Prelude.thy ===== *)
theory Prelude
  imports Main "HOL-Library.Word"
begin

text \<open>
  Shared vocabulary of the development: the machine types of the Go code, the outcome of a
  Go computation (a value, a run-time panic, or fuel exhausted before an answer), the flat
  order that makes "more fuel never changes an answer" a monotonicity statement, and byte
  buffers (\<open>splice\<close> is Go's \<open>copy(buf[i:], src)\<close> and the effect of a positioned write).
\<close>

section \<open>Types\<close>

type_synonym byte = "8 word"
type_synonym u8 = "8 word"
type_synonym u16 = "16 word"
type_synonym u32 = "32 word"
type_synonym u64 = "64 word"
type_synonym bytes = "byte list"

named_theorems go_simps "how outcomes are sequenced and inspected"
named_theorems buf_simps "lengths and contents of byte buffers"

section \<open>Outcomes of Go code\<close>

text \<open>
  The code never recovers from a panic, so a panic is final and carries no state.
  \<open>NoFuel\<close> is the value of a loop that was not given enough iterations to finish.
\<close>

datatype panic =
    NilDeref
  | IndexRange
  | SliceBounds
  | DivideByZero
  | TypeAssertion
  | WildPointer
  | Bug string

datatype 'a go = Ret 'a | Panic panic | NoFuel

primrec gbind :: "'a go \<Rightarrow> ('a \<Rightarrow> 'b go) \<Rightarrow> 'b go" where
  "gbind (Ret x) f = f x"
| "gbind (Panic p) f = Panic p"
| "gbind NoFuel f = NoFuel"

definition gguard :: "bool \<Rightarrow> panic \<Rightarrow> unit go" where
  "gguard b p = (if b then Ret () else Panic p)"

definition deref :: "'a option \<Rightarrow> 'a go" where
  "deref p = (case p of None \<Rightarrow> Panic NilDeref | Some a \<Rightarrow> Ret a)"

definition returns :: "'a go \<Rightarrow> bool" where
  "returns m = (case m of Ret _ \<Rightarrow> True | _ \<Rightarrow> False)"

declare gbind.simps [go_simps]

lemma gguard_True [simp, go_simps]: "gguard True p = Ret ()"
  and gguard_False [simp, go_simps]: "gguard False p = Panic p"
  by (simp_all add: gguard_def)

lemma deref_Some [simp, go_simps]: "deref (Some a) = Ret a"
  and deref_None [simp, go_simps]: "deref None = Panic NilDeref"
  by (simp_all add: deref_def)

lemma returns_simps [simp, go_simps]:
  "returns (Ret x)" "\<not> returns (Panic p)" "\<not> returns NoFuel"
  by (simp_all add: returns_def)

lemma gbind_assoc [simp]: "gbind (gbind m f) g = gbind m (\<lambda>x. gbind (f x) g)"
  by (cases m) simp_all

lemma gbind_eq_Ret:
  "gbind m f = Ret y \<longleftrightarrow> (\<exists>x. m = Ret x \<and> f x = Ret y)"
  by (cases m) auto

lemma gbind_RetE:
  assumes "gbind m f = Ret y"
  obtains x where "m = Ret x" and "f x = Ret y"
  using assms by (auto simp: gbind_eq_Ret)

lemma not_returns_gbind: "\<not> returns m \<Longrightarrow> \<not> returns (gbind m f)"
  by (cases m) simp_all

lemma gguard_eq_Ret [simp]: "gguard b p = Ret u \<longleftrightarrow> b"
  by (cases b) simp_all

lemma deref_eq_Ret [simp]: "deref p = Ret a \<longleftrightarrow> p = Some a"
  by (cases p) auto

subsection \<open>The flat order: fuel only adds answers\<close>

instantiation go :: (type) order_bot
begin

definition bot_go :: "'a go" where
  "bot_go = NoFuel"

definition less_eq_go :: "'a go \<Rightarrow> 'a go \<Rightarrow> bool" where
  "less_eq_go m n \<longleftrightarrow> m = NoFuel \<or> m = n"

definition less_go :: "'a go \<Rightarrow> 'a go \<Rightarrow> bool" where
  "less_go m n \<longleftrightarrow> m = NoFuel \<and> n \<noteq> NoFuel"

instance
  by standard (auto simp: bot_go_def less_eq_go_def less_go_def)

end

lemma NoFuel_le [simp]: "NoFuel \<le> m"
  by (simp add: less_eq_go_def)

lemma Ret_le_iff [simp]: "Ret x \<le> m \<longleftrightarrow> m = Ret x"
  by (auto simp: less_eq_go_def)

lemma Panic_le_iff [simp]: "Panic x \<le> m \<longleftrightarrow> m = Panic x"
  by (auto simp: less_eq_go_def)

lemma gbind_mono:
  assumes "m \<le> n" and "\<And>x. f x \<le> g x"
  shows "gbind m f \<le> gbind n g"
proof (cases m)
  case (Ret x)
  with assms(1) have "n = Ret x" by simp
  with Ret assms(2) show ?thesis by simp
qed (use assms in \<open>auto simp: less_eq_go_def\<close>)

lemma fuel_mono_Suc:
  fixes f :: "nat \<Rightarrow> 'a go"
  assumes "\<And>k. f k \<le> f (Suc k)" and "m \<le> n"
  shows "f m \<le> f n"
  using assms by (rule lift_Suc_mono_le)

section \<open>Numbers and lists\<close>

lemma le_round_up_nat:
  assumes "0 < a"
  shows "x \<le> (x + (a - 1)) div a * (a :: nat)"
proof -
  have "(x + (a - 1)) div a * a + (x + (a - 1)) mod a = x + (a - 1)" by simp
  moreover have "(x + (a - 1)) mod a \<le> a - 1" using assms by (simp add: less_Suc_eq_le [symmetric])
  ultimately show ?thesis by linarith
qed

lemma find_SomeD: "find P xs = Some x \<Longrightarrow> P x \<and> x \<in> set xs"
  by (induction xs) (auto split: if_splits)

section \<open>Machine words\<close>

lemma unat_u64_of_u32: "unat (ucast (x :: u32) :: u64) = unat x"
  using unsigned_less [of x, where ?'a = nat] by (simp add: unsigned_ucast_eq take_bit_nat_eq_self)

lemma uint_u64_of_u32: "uint (ucast (x :: u32) :: u64) = uint x"
  using unsigned_less [of x, where ?'a = int] by (simp add: unsigned_ucast_eq take_bit_int_eq_self)

lemma unat_of_nat_small: "n < 2 ^ LENGTH('a) \<Longrightarrow> unat (of_nat n :: 'a::len word) = n"
  by (simp add: unsigned_of_nat take_bit_nat_eq_self)

lemma unat_add_exact:
  "unat (x :: 'a::len word) + unat y < 2 ^ LENGTH('a) \<Longrightarrow> unat (x + y) = unat x + unat y"
  by (rule unat_add_lem [THEN iffD1])

section \<open>Byte buffers\<close>

definition splice :: "'a list \<Rightarrow> nat \<Rightarrow> 'a list \<Rightarrow> 'a list" where
  "splice xs i ys = take i xs @ ys @ drop (i + length ys) xs"

definition cut :: "nat \<Rightarrow> nat \<Rightarrow> 'a list \<Rightarrow> 'a list" where
  "cut i n xs = take n (drop i xs)"

lemma length_splice [simp, buf_simps]:
  "i + length ys \<le> length xs \<Longrightarrow> length (splice xs i ys) = length xs"
  by (simp add: splice_def)

lemma length_cut [simp, buf_simps]:
  "i + n \<le> length xs \<Longrightarrow> length (cut i n xs) = n"
  by (simp add: cut_def)

lemma splice_Nil [simp]: "splice xs i [] = xs"
  by (simp add: splice_def)

lemma splice_0_full [simp]: "length ys = length xs \<Longrightarrow> splice xs 0 ys = ys"
  by (simp add: splice_def)

lemma cut_splice_same [simp, buf_simps]:
  "i \<le> length xs \<Longrightarrow> length ys = n \<Longrightarrow> cut i n (splice xs i ys) = ys"
  by (simp add: cut_def splice_def)

lemma cut_splice_before:
  "i + n \<le> j \<Longrightarrow> j \<le> length xs \<Longrightarrow> cut i n (splice xs j ys) = cut i n xs"
  by (simp add: cut_def splice_def drop_take)

lemma cut_splice_after:
  assumes "j + length ys \<le> i" "j + length ys \<le> length xs"
  shows "cut i n (splice xs j ys) = cut i n xs"
  using assms by (simp add: cut_def splice_def)

lemma nth_splice:
  assumes "i + length ys \<le> length xs" "k < length xs"
  shows "splice xs i ys ! k = (if i \<le> k \<and> k < i + length ys then ys ! (k - i) else xs ! k)"
  using assms by (auto simp: splice_def nth_append min_def)

lemma cut_append_left: "i + n \<le> length xs \<Longrightarrow> cut i n (xs @ ys) = cut i n xs"
  by (simp add: cut_def)

lemma cut_append_right: "cut (length xs + i) n (xs @ ys) = cut i n ys"
  by (simp add: cut_def)

lemma splice_append_right: "splice (xs @ ys) (length xs + i) zs = xs @ splice ys i zs"
  by (simp add: splice_def)

lemma splice_append_left: "i + length zs \<le> length xs \<Longrightarrow> splice (xs @ ys) i zs = splice xs i zs @ ys"
  by (simp add: splice_def)

lemma cut_0_all [simp]: "length xs \<le> n \<Longrightarrow> cut 0 n xs = xs"
  by (simp add: cut_def)

lemma cut_cut:
  "cut i n (cut j m xs) = cut (j + i) (min n (m - i)) xs"
  by (simp add: cut_def drop_take add.commute)

lemma splice_append_cuts:
  assumes "i + length ys \<le> length xs"
  shows "splice (splice xs i ys) (i + length ys) zs = splice xs i (ys @ zs)"
  using assms by (cases ys) (auto simp: splice_def min_def add.commute add.left_commute)

end
