(* ===== verification/Constants.thy ===== *)
theory Constants
  imports Prelude
begin

text \<open>
  The constants of \<open>pkg/types/constants.go\<close>, \<open>pkg/types/buffer.go\<close> and
  \<open>pkg/errors/error.go\<close> that the modelled code uses.  All unfold by simplification.
  Errors are Go \<open>int\<close>s (here \<open>int\<close>); functions return them negated.
\<close>

section \<open>Block and superblock constants\<close>

definition EROFS_MAX_BLOCK_SIZE :: u32 where [simp]: "EROFS_MAX_BLOCK_SIZE = 4096"
definition EROFS_MIN_BLOCK_SIZE :: u32 where [simp]: "EROFS_MIN_BLOCK_SIZE = 512"
definition PATH_MAX :: u32 where [simp]: "PATH_MAX = 4096"
definition EROFS_ISLOBITS :: u32 where [simp]: "EROFS_ISLOBITS = 5"
definition NULL_ADDR :: u32 where [simp]: "NULL_ADDR = 0xFFFFFFFF"
definition NULL_ADDR_UL :: u64 where [simp]: "NULL_ADDR_UL = 0xFFFFFFFFFFFFFFFF"
definition EROFS_SUPER_MAGIC_V1 :: u32 where [simp]: "EROFS_SUPER_MAGIC_V1 = 0xE0F5E1E2"
definition EROFS_SUPER_OFFSET :: u32 where [simp]: "EROFS_SUPER_OFFSET = 1024"

text \<open>\<open>unsafe.Sizeof(SuperBlock{})\<close>: every field of the struct is naturally aligned, so its
  size is the sum of the field sizes, 128 (see \<open>length_write_superblock\<close> in theory
  \<open>Superblock\<close>).\<close>

definition EROFS_SUPER_END :: u32 where [simp]: "EROFS_SUPER_END = 1152"
definition EROFS_SB_EXTSLOT_SIZE :: u32 where [simp]: "EROFS_SB_EXTSLOT_SIZE = 16"

section \<open>Feature flags\<close>

definition EROFS_FEATURE_COMPAT_SB_CHKSUM :: u32 where [simp]: "EROFS_FEATURE_COMPAT_SB_CHKSUM = 0x1"
definition EROFS_FEATURE_COMPAT_MTIME :: u32 where [simp]: "EROFS_FEATURE_COMPAT_MTIME = 0x2"
definition EROFS_FEATURE_COMPAT_XATTR_FILTER :: u32 where [simp]: "EROFS_FEATURE_COMPAT_XATTR_FILTER = 0x4"
definition EROFS_FEATURE_INCOMPAT_ZERO_PADDING :: u32 where [simp]: "EROFS_FEATURE_INCOMPAT_ZERO_PADDING = 0x1"
definition EROFS_FEATURE_INCOMPAT_COMPR_CFGS :: u32 where [simp]: "EROFS_FEATURE_INCOMPAT_COMPR_CFGS = 0x2"
definition EROFS_FEATURE_INCOMPAT_BIG_PCLUSTER :: u32 where [simp]: "EROFS_FEATURE_INCOMPAT_BIG_PCLUSTER = 0x2"
definition EROFS_FEATURE_INCOMPAT_CHUNKED_FILE :: u32 where [simp]: "EROFS_FEATURE_INCOMPAT_CHUNKED_FILE = 0x4"
definition EROFS_FEATURE_INCOMPAT_DEVICE_TABLE :: u32 where [simp]: "EROFS_FEATURE_INCOMPAT_DEVICE_TABLE = 0x8"
definition EROFS_FEATURE_INCOMPAT_COMPR_HEAD2 :: u32 where [simp]: "EROFS_FEATURE_INCOMPAT_COMPR_HEAD2 = 0x8"
definition EROFS_FEATURE_INCOMPAT_ZTAILPACKING :: u32 where [simp]: "EROFS_FEATURE_INCOMPAT_ZTAILPACKING = 0x10"
definition EROFS_FEATURE_INCOMPAT_FRAGMENTS :: u32 where [simp]: "EROFS_FEATURE_INCOMPAT_FRAGMENTS = 0x20"
definition EROFS_FEATURE_INCOMPAT_DEDUPE :: u32 where [simp]: "EROFS_FEATURE_INCOMPAT_DEDUPE = 0x20"
definition EROFS_FEATURE_INCOMPAT_XATTR_PREFIXES :: u32 where [simp]: "EROFS_FEATURE_INCOMPAT_XATTR_PREFIXES = 0x40"

section \<open>Inodes, buffers, compression\<close>

definition EROFS_INODE_FLAT_PLAIN :: u8 where [simp]: "EROFS_INODE_FLAT_PLAIN = 0"
definition EROFS_INODE_COMPRESSED_FULL :: u8 where [simp]: "EROFS_INODE_COMPRESSED_FULL = 1"
definition EROFS_INODE_FLAT_INLINE :: u8 where [simp]: "EROFS_INODE_FLAT_INLINE = 2"
definition EROFS_INODE_COMPRESSED_COMPACT :: u8 where [simp]: "EROFS_INODE_COMPRESSED_COMPACT = 3"
definition NR_INODE_HASHTABLE :: u64 where [simp]: "NR_INODE_HASHTABLE = 16384"

definition DATA :: int where [simp]: "DATA = 0"
definition META :: int where [simp]: "META = 1"
definition INODE :: int where [simp]: "INODE = 2"
definition DIRA :: int where [simp]: "DIRA = 3"
definition XATTR :: int where [simp]: "XATTR = 4"
definition DEVT :: int where [simp]: "DEVT = 5"
definition EROFS_DEVT_SLOT_SIZE :: int where [simp]: "EROFS_DEVT_SLOT_SIZE = 64 + 4 + 4 + 56"

definition CRC32C_POLY_LE :: u32 where [simp]: "CRC32C_POLY_LE = 0x82F63B78"
definition EROFS_MAX_COMPR_CFGS :: u32 where [simp]: "EROFS_MAX_COMPR_CFGS = 64"
definition Z_EROFS_PCLUSTER_MAX_SIZE :: u32 where [simp]: "Z_EROFS_PCLUSTER_MAX_SIZE = 1024 * 1024"
definition Z_EROFS_COMPRESSION_LZ4 :: nat where [simp]: "Z_EROFS_COMPRESSION_LZ4 = 0"
definition Z_EROFS_COMPRESSION_LZMA :: nat where [simp]: "Z_EROFS_COMPRESSION_LZMA = 1"
definition Z_EROFS_COMPRESSION_DEFLATE :: nat where [simp]: "Z_EROFS_COMPRESSION_DEFLATE = 2"
definition Z_EROFS_COMPRESSION_ZSTD :: nat where [simp]: "Z_EROFS_COMPRESSION_ZSTD = 3"
definition Z_EROFS_COMPRESSION_MAX :: nat where [simp]: "Z_EROFS_COMPRESSION_MAX = 4"
definition LZ4_DISTANCE_MAX :: u16 where [simp]: "LZ4_DISTANCE_MAX = 65535"

definition GRND_INSECURE :: nat where [simp]: "GRND_INSECURE = 4"

text \<open>\<open>iota\<close> counts from the start of its constant group, so these are not the 0, 1, 2, 3 of their comments.\<close>

definition TIMESTAMP_UNSPECIFIED :: u8 where [simp]: "TIMESTAMP_UNSPECIFIED = 5"
definition TIMESTAMP_NONE :: u8 where [simp]: "TIMESTAMP_NONE = 6"
definition TIMESTAMP_FIXED :: u8 where [simp]: "TIMESTAMP_FIXED = 7"
definition TIMESTAMP_CLAMPING :: u8 where [simp]: "TIMESTAMP_CLAMPING = 8"
definition FRAGDEDUPE_FULL :: u8 where [simp]: "FRAGDEDUPE_FULL = 9"
definition FRAGDEDUPE_INODE :: u8 where [simp]: "FRAGDEDUPE_INODE = 10"
definition FRAGDEDUPE_OFF :: u8 where [simp]: "FRAGDEDUPE_OFF = 11"
definition FORCE_INODE_COMPACT :: int where [simp]: "FORCE_INODE_COMPACT = 1"
definition FORCE_INODE_EXTENDED :: int where [simp]: "FORCE_INODE_EXTENDED = 2"
definition EROFS_PACKED_NID_UNALLOCATED :: u64 where [simp]: "EROFS_PACKED_NID_UNALLOCATED = 0"
definition EROFS_ERR :: int where [simp]: "EROFS_ERR = 0"
definition EROFS_WARN :: int where [simp]: "EROFS_WARN = 2"
definition EROFS_INFO :: int where [simp]: "EROFS_INFO = 3"
definition EROFS_DBG :: int where [simp]: "EROFS_DBG = 7"

section \<open>Inodes and fragments\<close>

definition EROFS_INODE_DATA_SOURCE_DISKBUF :: u8 where [simp]: "EROFS_INODE_DATA_SOURCE_DISKBUF = 2"
definition Z_EROFS_ADVISE_COMPACTED_2B :: u16 where [simp]: "Z_EROFS_ADVISE_COMPACTED_2B = 0x1"
definition Z_EROFS_ADVISE_BIG_PCLUSTER_1 :: u16 where [simp]: "Z_EROFS_ADVISE_BIG_PCLUSTER_1 = 0x2"
definition Z_EROFS_ADVISE_BIG_PCLUSTER_2 :: u16 where [simp]: "Z_EROFS_ADVISE_BIG_PCLUSTER_2 = 0x4"
definition Z_EROFS_ADVISE_INTERLACED_PCLUSTER :: u16 where [simp]: "Z_EROFS_ADVISE_INTERLACED_PCLUSTER = 0x10"
definition EROFS_PACKED_INODE :: string where [simp]: "EROFS_PACKED_INODE = ''packed_file''"
definition EROFSISLOTBITS :: nat where [simp]: "EROFSISLOTBITS = 5"
definition EROFS_FRAGMENT_INMEM_SZ_MAX :: u64 where [simp]: "EROFS_FRAGMENT_INMEM_SZ_MAX = 262144"
definition EROFS_TOF_HASHLEN :: u64 where [simp]: "EROFS_TOF_HASHLEN = 16"
definition FRAGMENT_HASHSIZE :: u64 where [simp]: "FRAGMENT_HASHSIZE = 65536"
definition S_IFMT :: u16 where [simp]: "S_IFMT = 0xF000"
definition S_IFDIR :: u16 where [simp]: "S_IFDIR = 0x4000"
definition S_IFCHR :: u16 where [simp]: "S_IFCHR = 0x2000"
definition S_IFBLK :: u16 where [simp]: "S_IFBLK = 0x6000"
definition S_IFREG :: u16 where [simp]: "S_IFREG = 0x8000"
definition S_IFIFO :: u16 where [simp]: "S_IFIFO = 0x1000"
definition S_IFLNK :: u16 where [simp]: "S_IFLNK = 0xA000"
definition S_IFSOCK :: u16 where [simp]: "S_IFSOCK = 0xC000"

text \<open>\<open>FRAGMENT_HASH\<close>: the slot of a checksum in the table of fragments.\<close>

definition FRAGMENT_HASH :: "u64 \<Rightarrow> u64" where
  "FRAGMENT_HASH c = and c (FRAGMENT_HASHSIZE - 1)"

section \<open>Error numbers\<close>

definition ENOENT :: int where [simp]: "ENOENT = 2"
definition EINTR :: int where [simp]: "EINTR = 4"
definition EIO :: int where [simp]: "EIO = 5"
definition ENOMEM :: int where [simp]: "ENOMEM = 12"
definition EBADF :: int where [simp]: "EBADF = 9"
definition EFAULT :: int where [simp]: "EFAULT = 14"
definition EBUSY :: int where [simp]: "EBUSY = 16"
definition EINVAL :: int where [simp]: "EINVAL = 22"
definition ENOSPC :: int where [simp]: "ENOSPC = 28"
definition ENOSYS :: int where [simp]: "ENOSYS = 38"
definition EOPNOTSUPP :: int where [simp]: "EOPNOTSUPP = 95"

end
