(* ===== verification/Uuid.thy ===== *)
theory Uuid
  imports Constants
begin

text \<open>
  \<open>pkg/types/uuid.go\<close>: random identifiers and their textual form.  The kernel's \<open>getrandom\<close> (package
  \<open>x/sys/unix\<close>) and the system's random reader are functions supplied by the environment; a call of
  \<open>getrandom\<close> answers with the bytes it stored, its count and its error.
\<close>

unbundle bit_operations_syntax

section \<open>The code\<close>

record 'w entropy =
  Getrandom :: "'w \<Rightarrow> nat \<Rightarrow> nat \<Rightarrow> (bytes \<times> int \<times> int option) \<times> 'w"
  RandInt :: "'w \<Rightarrow> int \<Rightarrow> (int + int) \<times> 'w"

datatype uuid_error = BufferTooShort | Errno int | RandErr int

text \<open>\<open>erofsGrndFlag\<close> is a package variable, \<open>GRND_INSECURE\<close> at the start.\<close>

record 'w rng =
  erofsGrndFlag :: nat
  world :: 'w

definition mathRand :: "'w entropy \<Rightarrow> 'w \<Rightarrow> int \<Rightarrow> int \<Rightarrow> (int + int) \<times> 'w" where
  "mathRand env w mn mx =
     (let (r, w1) = RandInt env w (mx - mn + 1)
      in (case r of Inl e \<Rightarrow> Inl e | Inr n \<Rightarrow> Inr (n + mn), w1))"

primrec fill_random :: "nat \<Rightarrow> 'w entropy \<Rightarrow> 'w \<Rightarrow> nat \<Rightarrow> bytes \<Rightarrow> uuid_error option \<times> bytes \<times> 'w" where
  "fill_random 0 env w i out = (None, out, w)"
| "fill_random (Suc k) env w i out =
     (let (r, w1) = mathRand env w 0 255 in
      case r of
        Inl e \<Rightarrow> (Some (RandErr e), out, w1)
      | Inr n \<Rightarrow> fill_random k env w1 (Suc i) (out[i := of_int n]))"

text \<open>\<open>flags\<close> is computed before the loop and never again.\<close>

fun getRandomNumber_loop ::
  "nat \<Rightarrow> 'w entropy \<Rightarrow> bool \<Rightarrow> nat \<Rightarrow> nat \<Rightarrow> bytes \<Rightarrow> 'w rng \<Rightarrow> (uuid_error option \<times> bytes \<times> 'w rng) go" where
  "getRandomNumber_loop 0 env insecure flags kflags out s = NoFuel"
| "getRandomNumber_loop (Suc k) env insecure flags kflags out s =
     (let ((bs, n, err), w1) = Getrandom env (world s) (length out) flags;
          out1 = splice out 0 (take (length out) bs);
          s1 = s\<lparr>world := w1\<rparr>
      in if n = int (length out) then Ret (None, out1, s1)
         else if err \<noteq> Some EINTR
         then (if err = Some ENOSYS \<and> insecure
               then (let (r, out2, w2) = fill_random (length out) env w1 0 out1
                     in Ret (r, out2, s1\<lparr>world := w2\<rparr>))
               else if err = Some EINVAL \<and> kflags \<noteq> 0
               then getRandomNumber_loop k env insecure flags 0 out1 (s1\<lparr>erofsGrndFlag := 0\<rparr>)
               else Ret (map_option Errno err, out1, s1))
         else getRandomNumber_loop k env insecure flags kflags out1 s1)"

definition getRandomNumber ::
  "nat \<Rightarrow> 'w entropy \<Rightarrow> bytes \<Rightarrow> bool \<Rightarrow> 'w rng \<Rightarrow> (uuid_error option \<times> bytes \<times> 'w rng) go" where
  "getRandomNumber fuel env out insecure s =
     getRandomNumber_loop fuel env insecure (if insecure then erofsGrndFlag s else 0) (erofsGrndFlag s) out s"

definition UUIDGenerate ::
  "nat \<Rightarrow> 'w entropy \<Rightarrow> bytes \<Rightarrow> 'w rng \<Rightarrow> (uuid_error option \<times> bytes \<times> 'w rng) go" where
  "UUIDGenerate fuel env out s =
     (if length out < 16 then Ret (Some BufferTooShort, out, s)
      else gbind (getRandomNumber fuel env (replicate 16 0) True s) (\<lambda>(err, newUUID, s1).
        if err \<noteq> None then Ret (err, out, s1)
        else let u1 = newUUID[6 := (newUUID ! 6 AND 0x0f) OR 0x40];
                 u2 = u1[8 := (u1 ! 8 AND 0x3f) OR 0x80]
             in Ret (None, splice out 0 u2, s1)))"

subsection \<open>Parsing\<close>

definition fromHexChar :: "char \<Rightarrow> u8 option" where
  "fromHexChar c =
     (let n = of_char c :: nat in
      if 48 \<le> n \<and> n \<le> 57 then Some (of_nat (n - 48))
      else if 97 \<le> n \<and> n \<le> 102 then Some (of_nat (n - 97 + 10))
      else if 65 \<le> n \<and> n \<le> 70 then Some (of_nat (n - 65 + 10))
      else None)"

fun hex_decode :: "string \<Rightarrow> bytes option" where
  "hex_decode [] = Some []"
| "hex_decode [c] = None"
| "hex_decode (a # b # cs) =
     (case (fromHexChar a, fromHexChar b) of
        (Some h, Some l) \<Rightarrow> map_option (\<lambda>bs. (push_bit 4 h OR l) # bs) (hex_decode cs)
      | _ \<Rightarrow> None)"

definition UuidParse :: "string \<Rightarrow> bytes \<Rightarrow> int \<times> bytes" where
  "UuidParse inp uu =
     (if length uu < 16 then (- EINVAL, uu)
      else let cleaned = filter (\<lambda>c. c \<noteq> CHR '' '') (filter (\<lambda>c. c \<noteq> CHR ''-'') inp)
        in if length cleaned \<noteq> 32 then (- EINVAL, uu)
           else (case hex_decode cleaned of
                   None \<Rightarrow> (- EINVAL, uu)
                 | Some dst \<Rightarrow> (0, splice uu 0 dst)))"

section \<open>Random identifiers\<close>

lemma fill_random_length: "fill_random k env w i out = (r, out', w') \<Longrightarrow> length out' = length out"
  by (induction k arbitrary: w i out) (fastforce split: prod.splits sum.splits)+

lemma getRandomNumber_loop_length:
  "getRandomNumber_loop k env insecure flags kflags out s = Ret (r, out', s') \<Longrightarrow> length out' = length out"
proof (induction k arbitrary: kflags out s)
  case (Suc k)
  obtain bs n err w1 where g: "Getrandom env (world s) (length out) flags = ((bs, n, err), w1)"
    by (cases "Getrandom env (world s) (length out) flags") auto
  have l: "length (splice out 0 (take (length out) bs)) = length out" by simp
  show ?case
    using Suc.prems Suc.IH [of _ "splice out 0 (take (length out) bs)"] l g
    by (auto simp: Let_def split: if_splits prod.splits dest: fill_random_length)
qed simp

text \<open>Version 4 and variant 1 stamped over random bytes; the other 122 bits are kept.\<close>

definition stamp :: "bytes \<Rightarrow> bytes" where
  "stamp bs = bs[6 := (bs ! 6 AND 0x0f) OR 0x40, 8 := (bs ! 8 AND 0x3f) OR 0x80]"

definition uuid_v4 :: "bytes \<Rightarrow> bool" where
  "uuid_v4 u \<longleftrightarrow> length u = 16 \<and> drop_bit 4 (u ! 6) = 4 \<and> drop_bit 6 (u ! 8) = 2"

lemma high_bits:
  "drop_bit 4 ((x AND 0x0f) OR 0x40 :: u8) = 4" "drop_bit 6 ((x AND 0x3f) OR 0x80 :: u8) = 2"
proof -
  have "drop_bit 4 (x AND 0x0f :: u8) = 0" "drop_bit 6 (x AND 0x3f :: u8) = 0"
    by (simp_all add: drop_bit_and)
  then show "drop_bit 4 ((x AND 0x0f) OR 0x40 :: u8) = 4" "drop_bit 6 ((x AND 0x3f) OR 0x80 :: u8) = 2"
    by (simp_all add: drop_bit_or)
qed

lemma stamp_v4: "length bs = 16 \<Longrightarrow> uuid_v4 (stamp bs)"
  by (simp add: uuid_v4_def stamp_def high_bits)

lemma stamp_keeps: "i \<noteq> 6 \<Longrightarrow> i \<noteq> 8 \<Longrightarrow> stamp bs ! i = bs ! i"
  by (simp add: stamp_def)

lemma length_stamp [simp]: "length (stamp bs) = length bs"
  by (simp add: stamp_def)

lemma UUIDGenerate_stamps:
  assumes "16 \<le> length out" "getRandomNumber fuel env (replicate 16 0) True s = Ret (None, bs, s')"
  shows "UUIDGenerate fuel env out s = Ret (None, stamp bs @ drop 16 out, s')"
proof -
  have "length bs = 16"
    using getRandomNumber_loop_length assms(2) unfolding getRandomNumber_def by fastforce
  with assms show ?thesis by (simp add: UUIDGenerate_def stamp_def Let_def splice_def)
qed

lemma UUIDGenerate_error:
  assumes "16 \<le> length out" "getRandomNumber fuel env (replicate 16 0) True s = Ret (Some e, bs, s')"
  shows "UUIDGenerate fuel env out s = Ret (Some e, out, s')"
  using assms by (simp add: UUIDGenerate_def)

lemma UUIDGenerate_success:
  assumes "UUIDGenerate fuel env out s = Ret (None, out', s')"
  shows "\<exists>bs. length bs = 16 \<and> out' = stamp bs @ drop 16 out"
proof -
  have l: "16 \<le> length out" using assms by (auto simp: UUIDGenerate_def split: if_splits)
  then obtain bs s1 where g: "getRandomNumber fuel env (replicate 16 0) True s = Ret (None, bs, s1)"
    using assms by (auto simp: UUIDGenerate_def gbind_eq_Ret split: if_splits)
  then have "length bs = 16" using getRandomNumber_loop_length unfolding getRandomNumber_def by fastforce
  with UUIDGenerate_stamps [OF l g] assms show ?thesis by auto
qed

lemma UUIDGenerate_failure:
  assumes "UUIDGenerate fuel env out s = Ret (Some e, out', s')"
  shows "out' = out"
proof (cases "length out < 16")
  case False
  then obtain err bs s1 where "getRandomNumber fuel env (replicate 16 0) True s = Ret (err, bs, s1)"
    using assms by (auto simp: UUIDGenerate_def gbind_eq_Ret)
  with False assms show ?thesis by (auto simp: UUIDGenerate_def Let_def split: if_splits)
qed (use assms in \<open>simp add: UUIDGenerate_def\<close>)

text \<open>A kernel that is interrupted \<open>k\<close> times and then delivers \<open>bs\<close>.\<close>

primrec delivers :: "'w entropy \<Rightarrow> nat \<Rightarrow> nat \<Rightarrow> 'w \<Rightarrow> bytes \<Rightarrow> 'w \<Rightarrow> bool" where
  "delivers env flags 0 w bs w' \<longleftrightarrow> Getrandom env w 16 flags = ((bs, 16, None), w')"
| "delivers env flags (Suc k) w bs w' \<longleftrightarrow>
     (\<exists>w1. Getrandom env w 16 flags = (([], -1, Some EINTR), w1) \<and> delivers env flags k w1 bs w')"

lemma getRandomNumber_loop_delivers:
  assumes "delivers env flags k (world s) bs w'" "length bs = 16" "length out = 16" "k < fuel"
  shows "getRandomNumber_loop fuel env insecure flags kflags out s = Ret (None, bs, s\<lparr>world := w'\<rparr>)"
  using assms
proof (induction k arbitrary: s fuel)
  case 0
  then show ?case by (cases fuel) (auto simp: splice_def)
next
  case (Suc k)
  then obtain n w1 where n: "fuel = Suc n" "Getrandom env (world s) 16 flags = (([], -1, Some EINTR), w1)"
      "delivers env flags k w1 bs w'"
    by (cases fuel) auto
  with Suc.prems Suc.IH [of "s\<lparr>world := w1\<rparr>" n] show ?case by simp
qed

lemma UUIDGenerate_delivers:
  assumes "delivers env (erofsGrndFlag s) k (world s) bs w'" "length bs = 16" "16 \<le> length out" "k < fuel"
  shows "UUIDGenerate fuel env out s = Ret (None, stamp bs @ drop 16 out, s\<lparr>world := w'\<rparr>)"
proof (rule UUIDGenerate_stamps [OF assms(3)])
  show "getRandomNumber fuel env (replicate 16 0) True s = Ret (None, bs, s\<lparr>world := w'\<rparr>)"
    using getRandomNumber_loop_delivers [OF assms(1,2) _ assms(4)] by (simp add: getRandomNumber_def)
qed

text \<open>
  A kernel that does not know \<open>GRND_INSECURE\<close> answers \<open>EINVAL\<close>.  The retry clears the package variable
  but calls with the old flags, so the first identifier of a run fails; only the next call asks
  without the flag.
\<close>

lemma UUIDGenerate_old_kernel:
  assumes flag: "erofsGrndFlag s = GRND_INSECURE"
    and no: "\<And>w. Getrandom env w 16 GRND_INSECURE = (([], -1, Some EINVAL), step w)"
    and out: "16 \<le> length out"
  shows "UUIDGenerate (Suc (Suc k)) env out s
       = Ret (Some (Errno EINVAL), out, s\<lparr>erofsGrndFlag := 0, world := step (step (world s))\<rparr>)"
proof (rule UUIDGenerate_error [OF out])
  show "getRandomNumber (Suc (Suc k)) env (replicate 16 0) True s
       = Ret (Some (Errno EINVAL), replicate 16 0, s\<lparr>erofsGrndFlag := 0, world := step (step (world s))\<rparr>)"
    using flag no by (simp add: getRandomNumber_def)
qed

text \<open>A short count without an error is taken for success.\<close>

lemma UUIDGenerate_short:
  assumes "Getrandom env (world s) 16 (erofsGrndFlag s) = ((bs, n, None), w')" "n \<noteq> 16" "length bs \<le> 16"
    and "16 \<le> length out"
  shows "UUIDGenerate (Suc k) env out s
       = Ret (None, stamp (bs @ replicate (16 - length bs) 0) @ drop 16 out, s\<lparr>world := w'\<rparr>)"
proof (rule UUIDGenerate_stamps [OF assms(4)])
  show "getRandomNumber (Suc k) env (replicate 16 0) True s
      = Ret (None, bs @ replicate (16 - length bs) 0, s\<lparr>world := w'\<rparr>)"
    using assms by (simp add: getRandomNumber_def splice_def)
qed

section \<open>Parsing\<close>

definition hex_digit :: "bool \<Rightarrow> nat \<Rightarrow> char" where
  "hex_digit upper n = char_of (if n < 10 then 48 + n else (if upper then 55 else 87) + n)"

definition hex_byte :: "bool \<Rightarrow> u8 \<Rightarrow> string" where
  "hex_byte upper b = [hex_digit upper (unat (drop_bit 4 b)), hex_digit upper (unat (b AND 0x0f))]"

definition hex_string :: "bool \<Rightarrow> bytes \<Rightarrow> string" where
  "hex_string upper bs = concat (map (hex_byte upper) bs)"

definition uuid_digits :: "string \<Rightarrow> string" where
  "uuid_digits = filter (\<lambda>c. c \<noteq> CHR '' '' \<and> c \<noteq> CHR ''-'')"

lemma fromHexChar_digit: "n < 16 \<Longrightarrow> fromHexChar (hex_digit upper n) = Some (of_nat n)"
  by (auto simp: fromHexChar_def hex_digit_def Let_def)

lemma low_nibble: "b AND 0x0f = take_bit 4 (b :: u8)"
  by (simp add: take_bit_eq_mask mask_eq_exp_minus_1)

lemma nibbles: "push_bit 4 (drop_bit 4 b) OR take_bit 4 b = (b :: u8)"
  by (rule bit_eqI) (auto simp: bit_push_bit_iff bit_drop_bit_eq bit_or_iff bit_take_bit_iff)

lemma hex_decode_byte:
  "hex_decode (hex_byte upper b @ cs) = map_option (\<lambda>bs. b # bs) (hex_decode cs)"
proof -
  have "unat b < 256" using unsigned_less [of b, where 'a = nat] by simp
  then have "unat (drop_bit 4 b) < 16" "unat (take_bit 4 b) < 16"
    by (simp_all add: drop_bit_eq_div take_bit_eq_mod unat_div unat_mod)
  then show ?thesis by (simp add: hex_byte_def fromHexChar_digit low_nibble nibbles split: option.split)
qed

lemma hex_decode_string: "hex_decode (hex_string upper bs) = Some bs"
  by (induction bs) (simp_all add: hex_string_def hex_decode_byte)

lemma length_hex_string: "length (hex_string upper bs) = 2 * length bs"
  by (induction bs) (simp_all add: hex_string_def hex_byte_def)

lemma hex_decode_length: "hex_decode cs = Some bs \<Longrightarrow> length cs = 2 * length bs"
  by (induction cs arbitrary: bs rule: hex_decode.induct) (auto split: option.splits)

lemma hex_decode_defined:
  "hex_decode cs \<noteq> None \<longleftrightarrow> even (length cs) \<and> (\<forall>c\<in>set cs. fromHexChar c \<noteq> None)"
  by (induction cs rule: hex_decode.induct) (auto split: option.splits)

lemma UuidParse_digits:
  assumes "16 \<le> length uu"
  shows "UuidParse inp uu =
     (if length (uuid_digits inp) = 32
      then case hex_decode (uuid_digits inp) of None \<Rightarrow> (- EINVAL, uu) | Some bs \<Rightarrow> (0, bs @ drop 16 uu)
      else (- EINVAL, uu))"
proof -
  have "filter (\<lambda>c. c \<noteq> CHR '' '') (filter (\<lambda>c. c \<noteq> CHR ''-'') inp) = uuid_digits inp"
    by (simp add: uuid_digits_def conj_commute)
  with assms show ?thesis
    by (auto simp: UuidParse_def Let_def splice_def dest!: hex_decode_length split: option.splits)
qed

end
