(* ===== verification/SbInfo.thy ===== *)
theory SbInfo
  imports Constants
begin

unbundle bit_operations_syntax

text \<open>
  \<open>SuperBlkInfo\<close> (\<open>pkg/types/superblkinfo.go\<close>), the block arithmetic of
  \<open>pkg/types/utils.go\<close> and \<open>pkg/types/helper.go\<close>, and the in-memory feature bits
  (\<open>pkg/types/macros.go\<close> and the string-keyed \<open>HasFeature\<close>/\<open>SetFeature\<close>/\<open>ClearFeature\<close>).
  The pointers of the Go struct to the device, the buffer manager and the packed inode are
  separate components of the model's state; its scalar fields are the record below.
\<close>

section \<open>The superblock information\<close>

record sbinfo =
  Lz4_MaxDistance :: u16
  Lz4_MaxPclusterBlks :: u16
  TotalBlocks :: u64
  PrimaryDeviceBlocks :: u64
  si_MetaBlkAddr :: u32
  si_XattrBlkAddr :: u32
  si_FeatureCompat :: u32
  si_FeatureIncompat :: u32
  ISlotBits :: u8
  si_BlkSzBits :: u8
  SbSize :: u32
  si_BuildTimeNsec :: u32
  si_BuildTime :: u64
  si_RootNid :: u32
  si_Inos :: u64
  si_UUID :: bytes
  si_VolumeName :: bytes
  si_Checksum :: u32
  AvailableComprAlgs :: u16
  si_ExtraDevices :: u16
  si_DevtSlotOff :: u16
  DeviceIdMask :: u16
  si_PackedNid :: u64
  si_XattrPrefixStart :: u32
  si_XattrPrefixCount :: u8
  DevBlkSz :: int
  Devsz :: u64
  DevT :: u64
  NBlobs :: u32
  BlobFd :: "u32 list"
  SavedByDeduplication :: u64
  UseQpl :: bool

text \<open>The zero value of the Go variable \<open>GSbi\<close>.\<close>

definition zero_sbinfo :: sbinfo where
  "zero_sbinfo = \<lparr>
     Lz4_MaxDistance = 0, Lz4_MaxPclusterBlks = 0, TotalBlocks = 0, PrimaryDeviceBlocks = 0,
     si_MetaBlkAddr = 0, si_XattrBlkAddr = 0, si_FeatureCompat = 0, si_FeatureIncompat = 0,
     ISlotBits = 0, si_BlkSzBits = 0, SbSize = 0, si_BuildTimeNsec = 0, si_BuildTime = 0,
     si_RootNid = 0, si_Inos = 0, si_UUID = replicate 16 0, si_VolumeName = replicate 16 0,
     si_Checksum = 0, AvailableComprAlgs = 0, si_ExtraDevices = 0, si_DevtSlotOff = 0,
     DeviceIdMask = 0, si_PackedNid = 0, si_XattrPrefixStart = 0, si_XattrPrefixCount = 0,
     DevBlkSz = 0, Devsz = 0, DevT = 0, NBlobs = 0, BlobFd = replicate 256 0,
     SavedByDeduplication = 0, UseQpl = False\<rparr>"

section \<open>Block arithmetic\<close>

text \<open>Go's \<open>%\<close> truncates towards zero.\<close>

definition go_rem :: "int \<Rightarrow> int \<Rightarrow> int" where
  "go_rem x y = sgn x * (\<bar>x\<bar> mod \<bar>y\<bar>)"

definition RoundMask :: "u32 \<Rightarrow> u32 \<Rightarrow> u32" where
  "RoundMask x y = y - 1"

definition Round_Up :: "u32 \<Rightarrow> u32 \<Rightarrow> u32" where
  "Round_Up x y = ((x - 1) OR RoundMask x y) + 1"

definition RoundUp :: "u64 \<Rightarrow> u64 \<Rightarrow> u64" where
  "RoundUp x y = (if y = 0 then x else ((x + (y - 1)) div y) * y)"

definition RoundDown :: "int \<Rightarrow> int \<Rightarrow> int go" where
  "RoundDown x y = (if y = 0 then Panic DivideByZero else Ret (x - go_rem x y))"

definition Cmpsgn :: "u64 \<Rightarrow> u64 \<Rightarrow> int" where
  "Cmpsgn a b = (if a < b then -1 else if a > b then 1 else 0)"

definition Round_Down :: "u32 \<Rightarrow> u32 \<Rightarrow> u32" where
  "Round_Down x y = x AND NOT (RoundMask x y)"

definition ErofsBlkSiz :: "sbinfo \<Rightarrow> u32" where
  "ErofsBlkSiz sbi = push_bit (unat (si_BlkSzBits sbi)) 1"

definition ErofsBlockSize :: "sbinfo \<Rightarrow> u64" where
  "ErofsBlockSize sbi = push_bit (unat (si_BlkSzBits sbi)) 1"

definition BlkRoundUp :: "sbinfo \<Rightarrow> u64 \<Rightarrow> u64" where
  "BlkRoundUp sbi off = drop_bit (unat (si_BlkSzBits sbi)) (RoundUp off (ucast (ErofsBlkSiz sbi)))"

definition ErofsBlknr :: "sbinfo \<Rightarrow> u64 \<Rightarrow> u64" where
  "ErofsBlknr sbi addr = drop_bit (unat (si_BlkSzBits sbi)) addr"

definition ErofsPos :: "sbinfo \<Rightarrow> u64 \<Rightarrow> u64" where
  "ErofsPos sbi nr = push_bit (unat (si_BlkSzBits sbi)) nr"

text \<open>\<open>roundDown\<close> of \<open>pkg/util/diskbuf.go\<close>.\<close>

definition roundDown :: "u64 \<Rightarrow> u64 \<Rightarrow> u64 go" where
  "roundDown x y = (if y = 0 then Panic DivideByZero else Ret ((x div y) * y))"

section \<open>Feature bits\<close>

datatype flag_word = Compat | Incompat

definition read_flags :: "flag_word \<Rightarrow> sbinfo \<Rightarrow> u32" where
  "read_flags w sbi = (case w of Compat \<Rightarrow> si_FeatureCompat sbi | Incompat \<Rightarrow> si_FeatureIncompat sbi)"

definition write_flags :: "flag_word \<Rightarrow> u32 \<Rightarrow> sbinfo \<Rightarrow> sbinfo" where
  "write_flags w v sbi =
     (case w of Compat \<Rightarrow> sbi\<lparr>si_FeatureCompat := v\<rparr> | Incompat \<Rightarrow> sbi\<lparr>si_FeatureIncompat := v\<rparr>)"

text \<open>The three macro shapes of \<open>macros.go\<close>, at a flag word and a mask.\<close>

definition sb_has :: "flag_word \<Rightarrow> u32 \<Rightarrow> sbinfo \<Rightarrow> bool" where
  "sb_has w m sbi \<longleftrightarrow> read_flags w sbi AND m \<noteq> 0"

definition sb_set :: "flag_word \<Rightarrow> u32 \<Rightarrow> sbinfo \<Rightarrow> sbinfo" where
  "sb_set w m sbi = write_flags w (read_flags w sbi OR m) sbi"

definition sb_clear :: "flag_word \<Rightarrow> u32 \<Rightarrow> sbinfo \<Rightarrow> sbinfo" where
  "sb_clear w m sbi = write_flags w (read_flags w sbi AND NOT m) sbi"

definition ErofsSbHasLz40Padding :: "sbinfo \<Rightarrow> bool" where
  "ErofsSbHasLz40Padding = sb_has Incompat EROFS_FEATURE_INCOMPAT_ZERO_PADDING"
definition ErofsSbSetLz40Padding :: "sbinfo \<Rightarrow> sbinfo" where
  "ErofsSbSetLz40Padding = sb_set Incompat EROFS_FEATURE_INCOMPAT_ZERO_PADDING"
definition ErofsSbClearLz40Padding :: "sbinfo \<Rightarrow> sbinfo" where
  "ErofsSbClearLz40Padding = sb_clear Incompat EROFS_FEATURE_INCOMPAT_ZERO_PADDING"
definition ErofsSbHasComprCfgs :: "sbinfo \<Rightarrow> bool" where
  "ErofsSbHasComprCfgs = sb_has Incompat EROFS_FEATURE_INCOMPAT_COMPR_CFGS"
definition ErofsSbSetComprCfgs :: "sbinfo \<Rightarrow> sbinfo" where
  "ErofsSbSetComprCfgs = sb_set Incompat EROFS_FEATURE_INCOMPAT_COMPR_CFGS"
definition ErofsSbClearComprCfgs :: "sbinfo \<Rightarrow> sbinfo" where
  "ErofsSbClearComprCfgs = sb_clear Incompat EROFS_FEATURE_INCOMPAT_COMPR_CFGS"
definition ErofsSbHasBigPcluster :: "sbinfo \<Rightarrow> bool" where
  "ErofsSbHasBigPcluster = sb_has Incompat EROFS_FEATURE_INCOMPAT_BIG_PCLUSTER"
definition ErofsSbSetBigPcluster :: "sbinfo \<Rightarrow> sbinfo" where
  "ErofsSbSetBigPcluster = sb_set Incompat EROFS_FEATURE_INCOMPAT_BIG_PCLUSTER"
definition ErofsSbClearBigPcluster :: "sbinfo \<Rightarrow> sbinfo" where
  "ErofsSbClearBigPcluster = sb_clear Incompat EROFS_FEATURE_INCOMPAT_BIG_PCLUSTER"
definition ErofsSbHasChunkedFile :: "sbinfo \<Rightarrow> bool" where
  "ErofsSbHasChunkedFile = sb_has Incompat EROFS_FEATURE_INCOMPAT_CHUNKED_FILE"
definition ErofsSbSetChunkedFile :: "sbinfo \<Rightarrow> sbinfo" where
  "ErofsSbSetChunkedFile = sb_set Incompat EROFS_FEATURE_INCOMPAT_CHUNKED_FILE"
definition ErofsSbClearChunkedFile :: "sbinfo \<Rightarrow> sbinfo" where
  "ErofsSbClearChunkedFile = sb_clear Incompat EROFS_FEATURE_INCOMPAT_CHUNKED_FILE"
definition ErofsSbHasDeviceTable :: "sbinfo \<Rightarrow> bool" where
  "ErofsSbHasDeviceTable = sb_has Incompat EROFS_FEATURE_INCOMPAT_DEVICE_TABLE"
definition ErofsSbSetDeviceTable :: "sbinfo \<Rightarrow> sbinfo" where
  "ErofsSbSetDeviceTable = sb_set Incompat EROFS_FEATURE_INCOMPAT_DEVICE_TABLE"
definition ErofsSbClearDeviceTable :: "sbinfo \<Rightarrow> sbinfo" where
  "ErofsSbClearDeviceTable = sb_clear Incompat EROFS_FEATURE_INCOMPAT_DEVICE_TABLE"
definition ErofsSbHasZtailpacking :: "sbinfo \<Rightarrow> bool" where
  "ErofsSbHasZtailpacking = sb_has Incompat EROFS_FEATURE_INCOMPAT_ZTAILPACKING"
definition ErofsSbSetZtailpacking :: "sbinfo \<Rightarrow> sbinfo" where
  "ErofsSbSetZtailpacking = sb_set Incompat EROFS_FEATURE_INCOMPAT_ZTAILPACKING"
definition ErofsSbClearZtailpacking :: "sbinfo \<Rightarrow> sbinfo" where
  "ErofsSbClearZtailpacking = sb_clear Incompat EROFS_FEATURE_INCOMPAT_ZTAILPACKING"
definition ErofsSbHasFragments :: "sbinfo \<Rightarrow> bool" where
  "ErofsSbHasFragments = sb_has Incompat EROFS_FEATURE_INCOMPAT_FRAGMENTS"
definition ErofsSbSetFragments :: "sbinfo \<Rightarrow> sbinfo" where
  "ErofsSbSetFragments = sb_set Incompat EROFS_FEATURE_INCOMPAT_FRAGMENTS"
definition ErofsSbClearFragments :: "sbinfo \<Rightarrow> sbinfo" where
  "ErofsSbClearFragments = sb_clear Incompat EROFS_FEATURE_INCOMPAT_FRAGMENTS"
definition ErofsSbHasDedupe :: "sbinfo \<Rightarrow> bool" where
  "ErofsSbHasDedupe = sb_has Incompat EROFS_FEATURE_INCOMPAT_DEDUPE"
definition ErofsSbSetDedupe :: "sbinfo \<Rightarrow> sbinfo" where
  "ErofsSbSetDedupe = sb_set Incompat EROFS_FEATURE_INCOMPAT_DEDUPE"
definition ErofsSbClearDedupe :: "sbinfo \<Rightarrow> sbinfo" where
  "ErofsSbClearDedupe = sb_clear Incompat EROFS_FEATURE_INCOMPAT_DEDUPE"
definition ErofsSbHasXattrPrefixes :: "sbinfo \<Rightarrow> bool" where
  "ErofsSbHasXattrPrefixes = sb_has Incompat EROFS_FEATURE_INCOMPAT_XATTR_PREFIXES"
definition ErofsSbSetXattrPrefixes :: "sbinfo \<Rightarrow> sbinfo" where
  "ErofsSbSetXattrPrefixes = sb_set Incompat EROFS_FEATURE_INCOMPAT_XATTR_PREFIXES"
definition ErofsSbClearXattrPrefixes :: "sbinfo \<Rightarrow> sbinfo" where
  "ErofsSbClearXattrPrefixes = sb_clear Incompat EROFS_FEATURE_INCOMPAT_XATTR_PREFIXES"
definition ErofsSbHasSbChksum :: "sbinfo \<Rightarrow> bool" where
  "ErofsSbHasSbChksum = sb_has Compat EROFS_FEATURE_COMPAT_SB_CHKSUM"
definition ErofsSbSetSbChksum :: "sbinfo \<Rightarrow> sbinfo" where
  "ErofsSbSetSbChksum = sb_set Compat EROFS_FEATURE_COMPAT_SB_CHKSUM"
definition ErofsSbClearSbChksum :: "sbinfo \<Rightarrow> sbinfo" where
  "ErofsSbClearSbChksum = sb_clear Compat EROFS_FEATURE_COMPAT_SB_CHKSUM"
definition ErofsSbHasXattrFilter :: "sbinfo \<Rightarrow> bool" where
  "ErofsSbHasXattrFilter = sb_has Compat EROFS_FEATURE_COMPAT_XATTR_FILTER"
definition ErofsSbSetXattrFilter :: "sbinfo \<Rightarrow> sbinfo" where
  "ErofsSbSetXattrFilter = sb_set Compat EROFS_FEATURE_COMPAT_XATTR_FILTER"
definition ErofsSbClearXattrFilter :: "sbinfo \<Rightarrow> sbinfo" where
  "ErofsSbClearXattrFilter = sb_clear Compat EROFS_FEATURE_COMPAT_XATTR_FILTER"

text \<open>
  The string-keyed interface of \<open>superblkinfo.go\<close>.  The Go functions are three \<open>switch\<close>
  statements, written out here case by case.
\<close>

definition HasFeature :: "sbinfo \<Rightarrow> string \<Rightarrow> bool" where
  "HasFeature sbi feature =
     (if feature = ''lz4_0padding'' then si_FeatureIncompat sbi AND EROFS_FEATURE_INCOMPAT_ZERO_PADDING \<noteq> 0
      else if feature = ''compr_cfgs'' then si_FeatureIncompat sbi AND EROFS_FEATURE_INCOMPAT_COMPR_CFGS \<noteq> 0
      else if feature = ''big_pcluster'' then si_FeatureIncompat sbi AND EROFS_FEATURE_INCOMPAT_BIG_PCLUSTER \<noteq> 0
      else if feature = ''chunked_file'' then si_FeatureIncompat sbi AND EROFS_FEATURE_INCOMPAT_CHUNKED_FILE \<noteq> 0
      else if feature = ''device_table'' then si_FeatureIncompat sbi AND EROFS_FEATURE_INCOMPAT_DEVICE_TABLE \<noteq> 0
      else if feature = ''ztailpacking'' then si_FeatureIncompat sbi AND EROFS_FEATURE_INCOMPAT_ZTAILPACKING \<noteq> 0
      else if feature = ''fragments'' then si_FeatureIncompat sbi AND EROFS_FEATURE_INCOMPAT_FRAGMENTS \<noteq> 0
      else if feature = ''dedupe'' then si_FeatureIncompat sbi AND EROFS_FEATURE_INCOMPAT_DEDUPE \<noteq> 0
      else if feature = ''xattr_prefixes'' then si_FeatureIncompat sbi AND EROFS_FEATURE_INCOMPAT_XATTR_PREFIXES \<noteq> 0
      else if feature = ''sb_chksum'' then si_FeatureCompat sbi AND EROFS_FEATURE_COMPAT_SB_CHKSUM \<noteq> 0
      else if feature = ''xattr_filter'' then si_FeatureCompat sbi AND EROFS_FEATURE_COMPAT_XATTR_FILTER \<noteq> 0
      else False)"

definition SetFeature :: "sbinfo \<Rightarrow> string \<Rightarrow> sbinfo" where
  "SetFeature sbi feature =
     (let inc = (\<lambda>m. sbi\<lparr>si_FeatureIncompat := si_FeatureIncompat sbi OR m\<rparr>);
          com = (\<lambda>m. sbi\<lparr>si_FeatureCompat := si_FeatureCompat sbi OR m\<rparr>)
      in if feature = ''lz4_0padding'' then inc EROFS_FEATURE_INCOMPAT_ZERO_PADDING
      else if feature = ''compr_cfgs'' then inc EROFS_FEATURE_INCOMPAT_COMPR_CFGS
      else if feature = ''big_pcluster'' then inc EROFS_FEATURE_INCOMPAT_BIG_PCLUSTER
      else if feature = ''chunked_file'' then inc EROFS_FEATURE_INCOMPAT_CHUNKED_FILE
      else if feature = ''device_table'' then inc EROFS_FEATURE_INCOMPAT_DEVICE_TABLE
      else if feature = ''ztailpacking'' then inc EROFS_FEATURE_INCOMPAT_ZTAILPACKING
      else if feature = ''fragments'' then inc EROFS_FEATURE_INCOMPAT_FRAGMENTS
      else if feature = ''dedupe'' then inc EROFS_FEATURE_INCOMPAT_DEDUPE
      else if feature = ''xattr_prefixes'' then inc EROFS_FEATURE_INCOMPAT_XATTR_PREFIXES
      else if feature = ''sb_chksum'' then com EROFS_FEATURE_COMPAT_SB_CHKSUM
      else if feature = ''xattr_filter'' then com EROFS_FEATURE_COMPAT_XATTR_FILTER
      else sbi)"

definition ClearFeature :: "sbinfo \<Rightarrow> string \<Rightarrow> sbinfo" where
  "ClearFeature sbi feature =
     (let inc = (\<lambda>m. sbi\<lparr>si_FeatureIncompat := si_FeatureIncompat sbi AND NOT m\<rparr>);
          com = (\<lambda>m. sbi\<lparr>si_FeatureCompat := si_FeatureCompat sbi AND NOT m\<rparr>)
      in if feature = ''lz4_0padding'' then inc EROFS_FEATURE_INCOMPAT_ZERO_PADDING
      else if feature = ''compr_cfgs'' then inc EROFS_FEATURE_INCOMPAT_COMPR_CFGS
      else if feature = ''big_pcluster'' then inc EROFS_FEATURE_INCOMPAT_BIG_PCLUSTER
      else if feature = ''chunked_file'' then inc EROFS_FEATURE_INCOMPAT_CHUNKED_FILE
      else if feature = ''device_table'' then inc EROFS_FEATURE_INCOMPAT_DEVICE_TABLE
      else if feature = ''ztailpacking'' then inc EROFS_FEATURE_INCOMPAT_ZTAILPACKING
      else if feature = ''fragments'' then inc EROFS_FEATURE_INCOMPAT_FRAGMENTS
      else if feature = ''dedupe'' then inc EROFS_FEATURE_INCOMPAT_DEDUPE
      else if feature = ''xattr_prefixes'' then inc EROFS_FEATURE_INCOMPAT_XATTR_PREFIXES
      else if feature = ''sb_chksum'' then com EROFS_FEATURE_COMPAT_SB_CHKSUM
      else if feature = ''xattr_filter'' then com EROFS_FEATURE_COMPAT_XATTR_FILTER
      else sbi)"

lemmas flag_defs =
  sb_has_def sb_set_def sb_clear_def read_flags_def write_flags_def

lemmas macro_defs =
  ErofsSbHasLz40Padding_def
  ErofsSbSetLz40Padding_def
  ErofsSbClearLz40Padding_def
  ErofsSbHasComprCfgs_def
  ErofsSbSetComprCfgs_def
  ErofsSbClearComprCfgs_def
  ErofsSbHasBigPcluster_def
  ErofsSbSetBigPcluster_def
  ErofsSbClearBigPcluster_def
  ErofsSbHasChunkedFile_def
  ErofsSbSetChunkedFile_def
  ErofsSbClearChunkedFile_def
  ErofsSbHasDeviceTable_def
  ErofsSbSetDeviceTable_def
  ErofsSbClearDeviceTable_def
  ErofsSbHasZtailpacking_def
  ErofsSbSetZtailpacking_def
  ErofsSbClearZtailpacking_def
  ErofsSbHasFragments_def
  ErofsSbSetFragments_def
  ErofsSbClearFragments_def
  ErofsSbHasDedupe_def
  ErofsSbSetDedupe_def
  ErofsSbClearDedupe_def
  ErofsSbHasXattrPrefixes_def
  ErofsSbSetXattrPrefixes_def
  ErofsSbClearXattrPrefixes_def
  ErofsSbHasSbChksum_def
  ErofsSbSetSbChksum_def
  ErofsSbClearSbChksum_def
  ErofsSbHasXattrFilter_def
  ErofsSbSetXattrFilter_def
  ErofsSbClearXattrFilter_def

section \<open>Lemmas: rounding\<close>

lemma unat_push_bit_1:
  assumes "k < LENGTH('a)"
  shows "unat (push_bit k (1 :: 'a::len word)) = 2 ^ k"
  using assms by (simp only: unsigned_push_bit_eq unsigned_1)
    (simp add: push_bit_eq_mult take_bit_nat_eq_self)

text \<open>Division rounding is exact wherever the sum does not wrap.\<close>

lemma unat_RoundUp:
  assumes "y \<noteq> 0" "unat x + (unat y - 1) < 2 ^ 64"
  shows "unat (RoundUp x y) = ((unat x + (unat y - 1)) div unat y) * unat y"
proof -
  have y: "unat (y - 1) = unat y - 1"
    using assms(1) by (simp add: unat_minus_one)
  have s: "unat (x + (y - 1)) = unat x + (unat y - 1)"
    using assms(2) y by (simp add: unat_add_lem [THEN iffD1])
  have "((unat x + (unat y - 1)) div unat y) * unat y \<le> unat x + (unat y - 1)"
    by simp
  then have "((unat x + (unat y - 1)) div unat y) * unat y < 2 ^ 64"
    using assms(2) by linarith
  then have "unat ((x + (y - 1)) div y) * unat y < 2 ^ LENGTH(64)"
    using s by (simp only: unat_div) simp
  then have "unat ((x + (y - 1)) div y * y) = unat ((x + (y - 1)) div y) * unat y"
    by (simp only: unat_mult_lem)
  also have "\<dots> = ((unat x + (unat y - 1)) div unat y) * unat y"
    using s by (simp only: unat_div)
  finally have "unat ((x + (y - 1)) div y * y) = ((unat x + (unat y - 1)) div unat y) * unat y" .
  then show ?thesis using assms(1) by (simp add: RoundUp_def)
qed

lemma RoundUp_props:
  assumes "y \<noteq> 0" "unat x + (unat y - 1) < 2 ^ 64"
  shows "unat y dvd unat (RoundUp x y)" "unat x \<le> unat (RoundUp x y)"
    "unat (RoundUp x y) < unat x + unat y"
proof -
  let ?d = "(unat x + (unat y - 1)) div unat y"
  have pos: "0 < unat y" using assms(1) by (simp add: unat_gt_0)
  have e: "unat (RoundUp x y) = ?d * unat y" using unat_RoundUp [OF assms] .
  have sum: "?d * unat y + (unat x + (unat y - 1)) mod unat y = unat x + (unat y - 1)"
    by simp
  have m: "(unat x + (unat y - 1)) mod unat y < unat y" using pos by simp
  show "unat y dvd unat (RoundUp x y)" by (simp add: e)
  show "unat x \<le> unat (RoundUp x y)" using e sum m by linarith
  show "unat (RoundUp x y) < unat x + unat y" using e sum pos by linarith
qed

text \<open>A multiple is its own rounding.\<close>

lemma RoundUp_1 [simp]: "RoundUp x 1 = x"
  by (simp add: RoundUp_def)

lemma RoundUp_0 [simp]: "RoundUp 0 y = 0"
proof (cases "y = 0")
  case False
  have "unat (RoundUp 0 y) = ((unat y - 1) div unat y) * unat y"
    using unat_RoundUp [OF False, of 0] unsigned_less [of y, where ?'a = nat] by auto
  also have "\<dots> = 0" using False by (simp add: unat_gt_0)
  finally show ?thesis by (simp add: unat_eq_zero)
qed (simp add: RoundUp_def)

lemma unat_ErofsBlkSiz:
  "unat (si_BlkSzBits sbi) < 32 \<Longrightarrow> unat (ErofsBlkSiz sbi) = 2 ^ unat (si_BlkSzBits sbi)"
  by (simp add: ErofsBlkSiz_def unat_push_bit_1 del: push_bit_of_1)

lemma unat_BlkRoundUp:
  assumes b: "unat (si_BlkSzBits sbi) = b" "b < 32" and nowrap: "unat off + (2 ^ b - 1) < 2 ^ 64"
  shows "unat (BlkRoundUp sbi off) = (unat off + (2 ^ b - 1)) div 2 ^ b"
proof -
  let ?y = "ucast (ErofsBlkSiz sbi) :: u64"
  have "(2::nat) ^ b < 2 ^ 64" using b(2) by (intro power_strict_increasing) auto
  then have y: "unat ?y = 2 ^ b"
    using unat_ErofsBlkSiz [of sbi] b by (simp add: unsigned_ucast_eq take_bit_nat_eq_self)
  then have "?y \<noteq> 0" by (metis power_eq_0_iff unat_0 zero_neq_numeral)
  then have "unat (RoundUp off ?y) = ((unat off + (2 ^ b - 1)) div 2 ^ b) * 2 ^ b"
    using unat_RoundUp [of ?y off] y nowrap by simp
  then show ?thesis
    using b(1) unsigned_less [of "RoundUp off ?y", where ?'a = nat]
    by (simp only: BlkRoundUp_def unsigned_drop_bit_eq)
      (simp add: drop_bit_eq_div take_bit_nat_eq_self)
qed

lemma nat_or_mask: "n OR mask k = (n div 2 ^ k) * 2 ^ k + (2 ^ k - 1 :: nat)"
proof -
  have "take_bit k (n OR mask k) = 2 ^ k - 1"
    unfolding mask_eq_exp_minus_1 [symmetric]
    by (rule bit_eqI) (auto simp: bit_simps)
  moreover have "drop_bit k (n OR mask k) = n div 2 ^ k"
    unfolding drop_bit_eq_div [symmetric]
    by (rule bit_eqI) (auto simp: bit_simps)
  ultimately show ?thesis
    using bits_ident [of k "n OR mask k"] by (simp add: push_bit_eq_mult)
qed

text \<open>The bit-trick rounding of \<open>WriteSuperBlock\<close> agrees with division rounding on the powers
  of two it is used with.\<close>

lemma unat_Round_Up:
  assumes k: "k < 32" and nowrap: "unat x + (2 ^ k - 1) < 2 ^ 32"
  shows "unat (Round_Up x (push_bit k 1)) = ((unat x + (2 ^ k - 1)) div 2 ^ k) * 2 ^ k"
proof (cases "x = 0")
  case True
  have "Round_Up x (push_bit k 1) = 0"
    using True by (simp add: Round_Up_def)
  then show ?thesis using True by simp
next
  case False
  then have x: "unat (x - 1) = unat x - 1" "0 < unat x"
    by (simp_all add: unat_minus_one unat_gt_0)
  have "unat (push_bit k (1::u32)) = 2 ^ k" using k by (simp add: unat_push_bit_1 del: push_bit_of_1)
  moreover have "push_bit k (1::u32) \<noteq> 0"
    using calculation by (metis power_eq_0_iff unat_0 zero_neq_numeral)
  ultimately have m: "unat (push_bit k (1::u32) - 1) = mask k"
    by (simp only: unat_minus_one mask_eq_exp_minus_1 not_False_eq_True simp_thms)
  let ?w = "(x - 1) OR (push_bit k 1 - 1)"
  have w: "unat ?w = ((unat x - 1) div 2 ^ k) * 2 ^ k + (2 ^ k - 1)"
    by (simp only: unsigned_or_eq x(1) m nat_or_mask)
  have "((unat x - 1) div 2 ^ k) * 2 ^ k \<le> unat x - 1" by simp
  then have "unat ?w + 1 < 2 ^ 32" using w nowrap x(2) by linarith
  then have "unat (?w + 1) = unat ?w + 1"
    by (simp add: unat_add_lem [THEN iffD1])
  also have "\<dots> = ((unat x - 1) div 2 ^ k + 1) * 2 ^ k" by (simp only: w) simp
  also have "(unat x - 1) div 2 ^ k + 1 = (unat x + (2 ^ k - 1)) div 2 ^ k"
    using x(2) div_add_self2 [of "2 ^ k" "unat x - 1"] by (simp add: add.commute)
  finally show ?thesis by (simp add: Round_Up_def RoundMask_def)
qed

lemma Round_Up_wraps: "Round_Up 0xFFFFFFFF (push_bit 12 1) = 0"
  by (simp add: Round_Up_def RoundMask_def)

lemma RoundDown_nonneg:
  "0 \<le> x \<Longrightarrow> 0 < y \<Longrightarrow> RoundDown x y = Ret (y * (x div y))"
  by (auto simp: RoundDown_def go_rem_def minus_mod_eq_mult_div sgn_if)

section \<open>The contract of a feature bit\<close>

locale feature_flag =
  fixes has :: "'s \<Rightarrow> bool" and set_flag :: "'s \<Rightarrow> 's" and clear_flag :: "'s \<Rightarrow> 's"
  assumes has_set: "has (set_flag s)"
    and has_clear: "\<not> has (clear_flag s)"
    and set_has: "has s \<Longrightarrow> set_flag s = s"
    and clear_not: "\<not> has s \<Longrightarrow> clear_flag s = s"
    and set_clear: "set_flag (clear_flag s) = set_flag s"
    and clear_set: "clear_flag (set_flag s) = clear_flag s"
begin

text \<open>A run of updates (\<open>True\<close> sets, \<open>False\<close> clears) is worth its last one.\<close>

lemma run_last:
  "foldl (\<lambda>s b. if b then set_flag s else clear_flag s) s (bs @ [b])
     = (if b then set_flag s else clear_flag s)"
proof (induction bs arbitrary: s)
  case Nil
  then show ?case by simp
next
  case (Cons c bs)
  have "set_flag (set_flag s) = set_flag s" "clear_flag (clear_flag s) = clear_flag s" for s
    using set_has [OF has_set] clear_not [OF has_clear] by auto
  then show ?case
    using Cons.IH [of "if c then set_flag s else clear_flag s"]
    by (simp add: set_clear clear_set del: foldl_append)
qed

lemma run_has:
  "has (foldl (\<lambda>s b. if b then set_flag s else clear_flag s) s (bs @ [b])) = b"
  by (simp only: run_last) (simp add: has_set has_clear)

end

lemma and_not_or_exp: "(x AND NOT m) OR m = x OR (m :: 'a::len word)"
  by (rule bit_word_eqI) (auto simp: bit_simps)

lemma or_and_not: "(x OR m) AND NOT m = x AND NOT (m :: 'a::len word)"
  by (rule bit_word_eqI) (auto simp: bit_simps)

lemma or_bit_set: "bit x k \<Longrightarrow> x OR 2 ^ k = (x :: 'a::len word)"
  by (rule bit_word_eqI) (auto simp: bit_simps)

lemma and_not_bit_clear: "\<not> bit x k \<Longrightarrow> x AND NOT (2 ^ k) = (x :: 'a::len word)"
  by (rule bit_word_eqI) (auto simp: bit_simps)

lemma feature_flag_mask:
  assumes "k < 32" "m = 2 ^ k"
  shows "feature_flag (sb_has w m) (sb_set w m) (sb_clear w m)"
proof
  fix s
  have has: "sb_has w m s \<longleftrightarrow> bit (read_flags w s) k" for s
    by (simp add: sb_has_def assms and_exp_eq_0_iff_not_bit)
  have rw: "read_flags w (write_flags w v s) = v"
    "write_flags w u (write_flags w v s) = write_flags w u s"
    "write_flags w (read_flags w s) s = s" for u v s
    by (cases w; simp add: read_flags_def write_flags_def)+
  show "sb_has w m (sb_set w m s)"
    unfolding has sb_set_def rw using assms by (simp add: bit_simps)
  show "\<not> sb_has w m (sb_clear w m s)"
    unfolding has sb_clear_def rw using assms by (simp add: bit_simps)
  show "sb_set w m s = s" if "sb_has w m s"
    using that [unfolded has] by (simp only: sb_set_def assms(2) or_bit_set rw)
  show "sb_clear w m s = s" if "\<not> sb_has w m s"
    by (simp only: sb_clear_def assms(2) and_not_bit_clear [OF that [unfolded has]] rw)
  show "sb_set w m (sb_clear w m s) = sb_set w m s"
    "sb_clear w m (sb_set w m s) = sb_clear w m s"
    by (simp_all add: sb_set_def sb_clear_def rw and_not_or_exp or_and_not)
qed

interpretation lz4_0padding: feature_flag ErofsSbHasLz40Padding ErofsSbSetLz40Padding ErofsSbClearLz40Padding
  unfolding macro_defs by (rule feature_flag_mask [where k = 0]) simp_all
interpretation compr_cfgs: feature_flag ErofsSbHasComprCfgs ErofsSbSetComprCfgs ErofsSbClearComprCfgs
  unfolding macro_defs by (rule feature_flag_mask [where k = 1]) simp_all
interpretation big_pcluster: feature_flag ErofsSbHasBigPcluster ErofsSbSetBigPcluster ErofsSbClearBigPcluster
  unfolding macro_defs by (rule feature_flag_mask [where k = 1]) simp_all
interpretation chunked_file: feature_flag ErofsSbHasChunkedFile ErofsSbSetChunkedFile ErofsSbClearChunkedFile
  unfolding macro_defs by (rule feature_flag_mask [where k = 2]) simp_all
interpretation device_table: feature_flag ErofsSbHasDeviceTable ErofsSbSetDeviceTable ErofsSbClearDeviceTable
  unfolding macro_defs by (rule feature_flag_mask [where k = 3]) simp_all
interpretation ztailpacking: feature_flag ErofsSbHasZtailpacking ErofsSbSetZtailpacking ErofsSbClearZtailpacking
  unfolding macro_defs by (rule feature_flag_mask [where k = 4]) simp_all
interpretation fragments: feature_flag ErofsSbHasFragments ErofsSbSetFragments ErofsSbClearFragments
  unfolding macro_defs by (rule feature_flag_mask [where k = 5]) simp_all
interpretation dedupe: feature_flag ErofsSbHasDedupe ErofsSbSetDedupe ErofsSbClearDedupe
  unfolding macro_defs by (rule feature_flag_mask [where k = 5]) simp_all
interpretation xattr_prefixes: feature_flag ErofsSbHasXattrPrefixes ErofsSbSetXattrPrefixes ErofsSbClearXattrPrefixes
  unfolding macro_defs by (rule feature_flag_mask [where k = 6]) simp_all
interpretation sb_chksum: feature_flag ErofsSbHasSbChksum ErofsSbSetSbChksum ErofsSbClearSbChksum
  unfolding macro_defs by (rule feature_flag_mask [where k = 0]) simp_all
interpretation xattr_filter: feature_flag ErofsSbHasXattrFilter ErofsSbSetXattrFilter ErofsSbClearXattrFilter
  unfolding macro_defs by (rule feature_flag_mask [where k = 2]) simp_all

section \<open>The string interface is the macro interface\<close>

definition feature_bits :: "string \<Rightarrow> (flag_word \<times> u32) option" where
  "feature_bits f = map_of
     [(''lz4_0padding'', Incompat, 0x1), (''compr_cfgs'', Incompat, 0x2),
      (''big_pcluster'', Incompat, 0x2), (''chunked_file'', Incompat, 0x4),
      (''device_table'', Incompat, 0x8), (''ztailpacking'', Incompat, 0x10),
      (''fragments'', Incompat, 0x20), (''dedupe'', Incompat, 0x20),
      (''xattr_prefixes'', Incompat, 0x40), (''sb_chksum'', Compat, 0x1),
      (''xattr_filter'', Compat, 0x4)] f"

lemma case_option_if:
  "case_option a g (if b then x else y) = (if b then case_option a g x else case_option a g y)"
  by simp

lemma map_of_switch: "map_of ((k, v) # kvs) x = (if x = k then Some v else map_of kvs x)"
  by auto

lemma feature_string_spec:
  "HasFeature sbi f = (case feature_bits f of None \<Rightarrow> False | Some (w, m) \<Rightarrow> sb_has w m sbi)"
  "SetFeature sbi f = (case feature_bits f of None \<Rightarrow> sbi | Some (w, m) \<Rightarrow> sb_set w m sbi)"
  "ClearFeature sbi f = (case feature_bits f of None \<Rightarrow> sbi | Some (w, m) \<Rightarrow> sb_clear w m sbi)"
  by (simp_all only: HasFeature_def SetFeature_def ClearFeature_def feature_bits_def flag_defs
      map_of_switch map_of.simps(1) case_option_if option.case prod.case flag_word.case Let_def
      EROFS_FEATURE_INCOMPAT_ZERO_PADDING_def EROFS_FEATURE_INCOMPAT_COMPR_CFGS_def
      EROFS_FEATURE_INCOMPAT_BIG_PCLUSTER_def EROFS_FEATURE_INCOMPAT_CHUNKED_FILE_def
      EROFS_FEATURE_INCOMPAT_DEVICE_TABLE_def EROFS_FEATURE_INCOMPAT_ZTAILPACKING_def
      EROFS_FEATURE_INCOMPAT_FRAGMENTS_def EROFS_FEATURE_INCOMPAT_DEDUPE_def
      EROFS_FEATURE_INCOMPAT_XATTR_PREFIXES_def EROFS_FEATURE_COMPAT_SB_CHKSUM_def
      EROFS_FEATURE_COMPAT_XATTR_FILTER_def)

lemma feature_bits_known:
  assumes "feature_bits f = Some (fw, fm)"
  shows "\<exists>k < 32. fm = 2 ^ k"
proof -
  have "fm \<in> (snd \<circ> snd) ` set [(''lz4_0padding'', Incompat, 0x1 :: u32), (''compr_cfgs'', Incompat, 0x2),
      (''big_pcluster'', Incompat, 0x2), (''chunked_file'', Incompat, 0x4),
      (''device_table'', Incompat, 0x8), (''ztailpacking'', Incompat, 0x10),
      (''fragments'', Incompat, 0x20), (''dedupe'', Incompat, 0x20),
      (''xattr_prefixes'', Incompat, 0x40), (''sb_chksum'', Compat, 0x1),
      (''xattr_filter'', Compat, 0x4)]"
    using assms unfolding feature_bits_def by (force dest!: map_of_SomeD)
  then have "fm = 2 ^ 0 \<or> fm = 2 ^ 1 \<or> fm = 2 ^ 2 \<or> fm = 2 ^ 3 \<or> fm = 2 ^ 4 \<or> fm = 2 ^ 5 \<or> fm = 2 ^ 6"
    by auto
  then obtain k where "k \<in> {0, 1, 2, 3, 4, 5, 6 :: nat}" "fm = 2 ^ k" by blast
  then show ?thesis by (intro exI [of _ k]) auto
qed

lemma feature_by_name:
  assumes "feature_bits f = Some (fw, fm)"
  shows "SetFeature sbi f = sb_set fw fm sbi \<and> ClearFeature sbi f = sb_clear fw fm sbi
     \<and> HasFeature (SetFeature sbi f) f \<and> \<not> HasFeature (ClearFeature sbi f) f
     \<and> HasFeature sbi ''big_pcluster'' = ErofsSbHasComprCfgs sbi
     \<and> HasFeature sbi ''dedupe'' = ErofsSbHasFragments sbi
     \<and> (feature_bits g = None \<longrightarrow> SetFeature sbi g = sbi \<and> ClearFeature sbi g = sbi \<and> \<not> HasFeature sbi g)"
proof -
  obtain k where k: "k < 32" "fm = 2 ^ k" using feature_bits_known [OF assms] by blast
  note flag = feature_flag_mask [OF k, of fw]
  show ?thesis
    using feature_flag.has_set [OF flag] feature_flag.has_clear [OF flag] assms
    by (simp add: feature_string_spec ErofsSbHasComprCfgs_def ErofsSbHasFragments_def feature_bits_def)
qed

end
