(* ===== verification/Codec.thy ===== *)
theory Codec
  imports SbInfo
begin

text \<open>
  Fixed-width little-endian integers (\<open>encoding/binary\<close>'s \<open>LittleEndian\<close>), the byte-order
  helpers \<open>Le32ToCpu\<close>/\<open>CpuToLe32\<close> of \<open>pkg/types/utils.go\<close> for a CPU of either endianness, and
  the cyclic redundancy checks of \<open>pkg/types/helper.go\<close>.  \<open>byte_codec\<close> is the contract a
  client of a fixed-width field relies on; it is interpreted for 16, 32 and 64 bits.
\<close>

section \<open>Little-endian words\<close>

definition le_bytes :: "nat \<Rightarrow> 'a::len word \<Rightarrow> bytes" where
  "le_bytes n w = map (\<lambda>i. ucast (drop_bit (8 * i) w)) [0..<n]"

primrec le_word :: "bytes \<Rightarrow> 'a::len word" where
  "le_word [] = 0"
| "le_word (b # bs) = ucast b OR push_bit 8 (le_word bs)"

definition PutUint16 :: "u16 \<Rightarrow> bytes" where "PutUint16 = le_bytes 2"
definition PutUint32 :: "u32 \<Rightarrow> bytes" where "PutUint32 = le_bytes 4"
definition PutUint64 :: "u64 \<Rightarrow> bytes" where "PutUint64 = le_bytes 8"
definition Uint16 :: "bytes \<Rightarrow> u16" where "Uint16 bs = le_word (take 2 bs)"
definition Uint32 :: "bytes \<Rightarrow> u32" where "Uint32 bs = le_word (take 4 bs)"
definition Uint64 :: "bytes \<Rightarrow> u64" where "Uint64 bs = le_word (take 8 bs)"

lemma length_le_bytes [simp, buf_simps]: "length (le_bytes n w) = n"
  by (simp add: le_bytes_def)

lemma nth_le_bytes: "i < n \<Longrightarrow> le_bytes n w ! i = ucast (drop_bit (8 * i) w)"
  by (simp add: le_bytes_def)

lemma bit_le_word:
  "bit (le_word bs :: 'a::len word) n \<longleftrightarrow>
     n < LENGTH('a) \<and> n div 8 < length bs \<and> bit (bs ! (n div 8)) (n mod 8)"
proof (induction bs arbitrary: n)
  case Nil
  then show ?case by simp
next
  case (Cons b bs)
  show ?case
  proof (cases "n < 8")
    case True
    then show ?thesis by (auto simp: bit_simps)
  next
    case False
    then obtain m where n: "n = m + 8" using le_Suc_ex by (metis add.commute not_less)
    have "\<not> bit b n" using False bit_imp_le_length [of b n] by auto
    moreover have "n div 8 = Suc (m div 8)" "n mod 8 = m mod 8" using n by auto
    ultimately show ?thesis
      using Cons.IH [of m] n by (auto simp: bit_simps)
  qed
qed

lemma le_word_le_bytes:
  assumes "LENGTH('a) \<le> 8 * n"
  shows "le_word (le_bytes n w) = (w :: 'a::len word)"
proof (rule bit_word_eqI)
  fix i assume i: "i < LENGTH('a)"
  then have "i div 8 < n" using assms by simp
  then show "bit (le_word (le_bytes n w) :: 'a word) i = bit w i"
    using i by (auto simp: bit_le_word nth_le_bytes bit_simps)
qed

lemma le_bytes_le_word:
  assumes "8 * length bs \<le> LENGTH('a)"
  shows "le_bytes (length bs) (le_word bs :: 'a::len word) = bs"
proof (rule nth_equalityI)
  fix i assume "i < length (le_bytes (length bs) (le_word bs :: 'a word))"
  then have i: "i < length bs" by simp
  show "le_bytes (length bs) (le_word bs :: 'a word) ! i = bs ! i"
  proof (rule bit_word_eqI)
    fix k assume "k < LENGTH(8)"
    then have k: "k < 8" by simp
    then have "8 * i + k < LENGTH('a)" using i assms by linarith
    moreover have "(8 * i + k) div 8 = i" "(8 * i + k) mod 8 = k" using k by auto
    ultimately show "bit (le_bytes (length bs) (le_word bs :: 'a word) ! i) k = bit (bs ! i) k"
      using i k by (simp add: nth_le_bytes bit_simps bit_le_word)
  qed
qed simp

section \<open>The contract of a fixed-width field\<close>

locale byte_codec =
  fixes enc :: "'a \<Rightarrow> bytes" and dec :: "bytes \<Rightarrow> 'a" and width :: nat
  assumes enc_length: "length (enc x) = width"
    and dec_enc: "dec (enc x @ rest) = x"
    and enc_dec: "length bs = width \<Longrightarrow> enc (dec bs) = bs"
begin

lemma dec_enc_exact: "dec (enc x) = x"
  using dec_enc [of x "[]"] by simp

lemma enc_inj: "enc x = enc y \<longleftrightarrow> x = y"
  by (metis dec_enc_exact)

lemma dec_cut: "length pre = i \<Longrightarrow> dec (cut i width (pre @ enc x @ post)) = x"
  by (simp add: cut_def enc_length dec_enc_exact)

lemma load_store:
  "i + width \<le> length buf \<Longrightarrow> dec (cut i width (splice buf i (enc v))) = v"
  by (simp add: enc_length dec_enc_exact)

lemma store_other:
  assumes "i + width \<le> length buf" "j + n \<le> i \<or> i + width \<le> j"
  shows "cut j n (splice buf i (enc v)) = cut j n buf"
  using assms by (auto simp: enc_length cut_splice_before cut_splice_after)

end

lemma le_bytes_le_word_width:
  "length bs = n \<Longrightarrow> 8 * n \<le> LENGTH('a) \<Longrightarrow> le_bytes n (le_word bs :: 'a::len word) = bs"
  using le_bytes_le_word [of bs, where 'a = 'a] by simp

interpretation le16: byte_codec PutUint16 Uint16 2
  by unfold_locales
    (auto simp: PutUint16_def Uint16_def le_word_le_bytes intro: le_bytes_le_word_width)
interpretation le32: byte_codec PutUint32 Uint32 4
  by unfold_locales
    (auto simp: PutUint32_def Uint32_def le_word_le_bytes intro: le_bytes_le_word_width)
interpretation le64: byte_codec PutUint64 Uint64 8
  by unfold_locales
    (auto simp: PutUint64_def Uint64_def le_word_le_bytes intro: le_bytes_le_word_width)

lemmas codec_lengths [simp, buf_simps] = le16.enc_length le32.enc_length le64.enc_length

section \<open>Byte order of the CPU\<close>

text \<open>
  \<open>utils.go\<close> stores a \<open>uint32\<close> through an \<open>unsafe\<close> pointer and reads it back as little-endian
  bytes (and the converse).  What the store does depends on the CPU, a parameter here.
\<close>

datatype endian = LittleEndian | BigEndian

definition native_store32 :: "endian \<Rightarrow> u32 \<Rightarrow> bytes" where
  "native_store32 e v =
     (case e of LittleEndian \<Rightarrow> le_bytes 4 v | BigEndian \<Rightarrow> rev (le_bytes 4 v))"

definition native_load32 :: "endian \<Rightarrow> bytes \<Rightarrow> u32" where
  "native_load32 e bs =
     (case e of LittleEndian \<Rightarrow> le_word (take 4 bs) | BigEndian \<Rightarrow> le_word (rev (take 4 bs)))"

definition Le32ToCpu :: "endian \<Rightarrow> u32 \<Rightarrow> u32" where
  "Le32ToCpu e v = Uint32 (native_store32 e v)"

definition CpuToLe32 :: "endian \<Rightarrow> u32 \<Rightarrow> u32" where
  "CpuToLe32 e v = native_load32 e (PutUint32 v)"

lemma native_load_store [simp]: "native_load32 e (native_store32 e v) = v"
  by (cases e) (simp_all add: native_load32_def native_store32_def le_word_le_bytes)

lemma native_store_load: "length bs = 4 \<Longrightarrow> native_store32 e (native_load32 e bs) = bs"
  by (cases e)
    (auto simp: native_load32_def native_store32_def le_bytes_le_word_width [where 'a = 32])

lemma length_native_store32 [simp, buf_simps]: "length (native_store32 e v) = 4"
  by (cases e) (simp_all add: native_store32_def)

text \<open>Reading a \<open>uint32\<close> out of a byte buffer natively and converting it is a little-endian
  read on every CPU; converting and storing natively is a little-endian write.\<close>

lemma Le32ToCpu_native_load: "length bs = 4 \<Longrightarrow> Le32ToCpu e (native_load32 e bs) = Uint32 bs"
  by (simp add: Le32ToCpu_def native_store_load)

lemma native_store_CpuToLe32: "native_store32 e (CpuToLe32 e v) = PutUint32 v"
  by (simp add: CpuToLe32_def native_store_load)

lemma Le32ToCpu_CpuToLe32: "Le32ToCpu e (CpuToLe32 e v) = v"
  by (simp add: Le32ToCpu_def native_store_CpuToLe32 le32.dec_enc_exact)

lemma CpuToLe32_Le32ToCpu: "CpuToLe32 e (Le32ToCpu e v) = v"
  by (simp add: Le32ToCpu_def CpuToLe32_def le32.enc_dec)

section \<open>Cyclic redundancy checks\<close>

definition crc_bit :: "u32 \<Rightarrow> u32 \<Rightarrow> u32" where
  "crc_bit poly crc = (if crc AND 1 \<noteq> 0 then drop_bit 1 crc XOR poly else drop_bit 1 crc)"

definition crc_byte :: "u32 \<Rightarrow> u32 \<Rightarrow> byte \<Rightarrow> u32" where
  "crc_byte poly crc b = (crc_bit poly ^^ 8) (crc XOR ucast b)"

definition Crc32c :: "u32 \<Rightarrow> bytes \<Rightarrow> u32" where
  "Crc32c crc data = foldl (crc_byte 0x82F63B78) crc data"

text \<open>\<open>ErofsGetCrc32c\<close> walks the first \<open>length\<close> (a Go \<open>int\<close>) bytes by index, and panics when
  the slice is shorter.\<close>

function ErofsGetCrc32c_loop :: "bytes \<Rightarrow> int \<Rightarrow> nat \<Rightarrow> u32 \<Rightarrow> u32 go" where
  "ErofsGetCrc32c_loop inp len i crc =
     (if int i < len
      then if i < length inp
           then ErofsGetCrc32c_loop inp len (Suc i) (crc_byte CRC32C_POLY_LE crc (inp ! i))
           else Panic IndexRange
      else Ret crc)"
  by pat_completeness auto
termination by (relation "measure (\<lambda>(inp, len, i, crc). length inp - i)") auto

declare ErofsGetCrc32c_loop.simps [simp del]

definition ErofsGetCrc32c :: "u32 \<Rightarrow> bytes \<Rightarrow> int \<Rightarrow> u32 go" where
  "ErofsGetCrc32c crc inp len = ErofsGetCrc32c_loop inp len 0 crc"

text \<open>\<open>hash/crc32.ChecksumIEEE\<close> of the Go standard library.\<close>

definition ChecksumIEEE :: "bytes \<Rightarrow> u32" where
  "ChecksumIEEE data = NOT (foldl (crc_byte 0xEDB88320) (NOT 0) data)"

lemma ErofsGetCrc32c_loop_eq:
  "i \<le> length inp \<Longrightarrow> ErofsGetCrc32c_loop inp len i crc =
     (if len \<le> int (length inp) then Ret (Crc32c crc (take (nat len - i) (drop i inp)))
      else Panic IndexRange)"
proof (induction "length inp - i" arbitrary: i crc)
  case 0
  then have "i = length inp" by simp
  then show ?case by (subst ErofsGetCrc32c_loop.simps) (auto simp: Crc32c_def)
next
  case (Suc k)
  then have i: "i < length inp" by simp
  show ?case
  proof (cases "int i < len")
    case False
    with i show ?thesis by (subst ErofsGetCrc32c_loop.simps) (auto simp: Crc32c_def)
  next
    case True
    then have n: "nat len - i = Suc (nat len - Suc i)" by linarith
    have "take (nat len - i) (drop i inp) = inp ! i # take (nat len - Suc i) (drop (Suc i) inp)"
      using i by (simp only: n Cons_nth_drop_Suc [symmetric] take_Suc_Cons)
    moreover have "ErofsGetCrc32c_loop inp len (Suc i) (crc_byte CRC32C_POLY_LE crc (inp ! i))
      = (if len \<le> int (length inp) then Ret (Crc32c (crc_byte CRC32C_POLY_LE crc (inp ! i))
           (take (nat len - Suc i) (drop (Suc i) inp))) else Panic IndexRange)"
      using Suc.hyps(2) i by (intro Suc.hyps(1)) auto
    ultimately show ?thesis
      using True i by (subst ErofsGetCrc32c_loop.simps) (simp add: Crc32c_def)
  qed
qed

lemma ErofsGetCrc32c_eq:
  "ErofsGetCrc32c crc inp len =
     (if len \<le> int (length inp) then Ret (Crc32c crc (take (nat len) inp)) else Panic IndexRange)"
  by (simp add: ErofsGetCrc32c_def ErofsGetCrc32c_loop_eq)

lemma Crc32c_append: "Crc32c crc (xs @ ys) = Crc32c (Crc32c crc xs) ys"
  by (simp add: Crc32c_def)

subsection \<open>Every step is injective, so small errors are always seen\<close>

lemma crc_bit_0: "crc_bit poly c = drop_bit 1 c XOR (if bit c 0 then poly else 0)"
  by (simp add: crc_bit_def and_one_eq bit_0 odd_iff_mod_2_eq_one)

lemma crc_bit_xor: "crc_bit poly (a XOR b) = crc_bit poly a XOR crc_bit poly b"
  unfolding crc_bit_0 by (rule bit_word_eqI) (auto simp: bit_simps)

lemma crc_bits_xor: "(crc_bit poly ^^ n) (a XOR b) = (crc_bit poly ^^ n) a XOR (crc_bit poly ^^ n) b"
  by (induction n) (simp_all add: crc_bit_xor)

lemma crc_bit_inj:
  assumes poly: "bit poly 31" and eq: "crc_bit poly a = crc_bit poly b"
  shows "a = b"
proof (rule bit_word_eqI)
  have top: "bit (crc_bit poly c) 31 = bit c 0" for c
    using poly bit_imp_le_length [of c 32] by (auto simp: crc_bit_0 bit_simps)
  then have zero: "bit a 0 = bit b 0" using eq by metis
  fix k assume "k < LENGTH(32)"
  show "bit a k = bit b k"
  proof (cases k)
    case 0
    then show ?thesis using zero by simp
  next
    case (Suc m)
    have "bit c k = (bit (crc_bit poly c) m \<noteq> (bit c 0 \<and> bit poly m))" for c
      using Suc by (auto simp: crc_bit_0 bit_simps)
    then show ?thesis using eq zero by metis
  qed
qed

lemma crc_bits_inj: "bit poly 31 \<Longrightarrow> (crc_bit poly ^^ n) a = (crc_bit poly ^^ n) b \<Longrightarrow> a = b"
  by (induction n) (auto dest: crc_bit_inj)

lemma crc_bits_shift:
  assumes "n \<le> 32" "\<And>k. k < n \<Longrightarrow> \<not> bit c k"
  shows "(crc_bit poly ^^ n) c = drop_bit n c"
  using assms
proof (induction n)
  case (Suc n)
  then have "(crc_bit poly ^^ n) c = drop_bit n c" by simp
  then have "(crc_bit poly ^^ Suc n) c = crc_bit poly (drop_bit n c)" by simp
  also have "\<not> bit c n" using Suc.prems by simp
  then have "crc_bit poly (drop_bit n c) = drop_bit (Suc n) c"
    by (simp add: crc_bit_0 bit_simps)
  finally show ?case .
qed simp

text \<open>Folding \<open>n \<le> 4\<close> bytes in one by one is folding their little-endian word in at once.\<close>

lemma crc_word:
  assumes "length bs \<le> 4"
  shows "foldl (crc_byte poly) c bs = (crc_bit poly ^^ (8 * length bs)) (c XOR le_word bs)"
  using assms
proof (induction bs rule: rev_induct)
  case Nil
  then show ?case by simp
next
  case (snoc b bs)
  let ?n = "8 * length bs"
  have n: "?n + 8 \<le> 32" using snoc.prems by simp
  have split: "(le_word (bs @ [b]) :: u32) = le_word bs XOR push_bit ?n (ucast b)"
  proof (rule bit_word_eqI)
    fix k assume k: "k < LENGTH(32)"
    consider "k < ?n" | "?n \<le> k" "k < ?n + 8" | "?n + 8 \<le> k" by linarith
    then show "bit (le_word (bs @ [b]) :: u32) k = bit (le_word bs XOR push_bit ?n (ucast b) :: u32) k"
    proof cases
      case 1
      then have "k div 8 < length bs" by linarith
      with 1 k show ?thesis by (simp add: bit_le_word bit_simps nth_append)
    next
      case 2
      then obtain j where "k = ?n + j" "j < 8" using le_Suc_ex by auto
      then show ?thesis using k by (simp add: bit_le_word bit_simps nth_append)
    next
      case 3
      then have "length bs < k div 8" by linarith
      moreover have "\<not> bit b (k - ?n)" using 3 bit_imp_le_length [of b "k - ?n"] by auto
      ultimately show ?thesis using 3 k by (simp add: bit_le_word bit_simps)
    qed
  qed
  have "(crc_bit poly ^^ ?n) (push_bit ?n (ucast b)) = drop_bit ?n (push_bit ?n (ucast b) :: u32)"
    using n by (intro crc_bits_shift) (auto simp: bit_simps)
  also have "\<dots> = ucast b"
    using n by (intro bit_word_eqI) (auto simp: bit_simps dest: bit_imp_le_length)
  finally have top: "(crc_bit poly ^^ ?n) (push_bit ?n (ucast b)) = (ucast b :: u32)" .
  have "8 * length (bs @ [b]) = 8 + ?n" by simp
  then have "(crc_bit poly ^^ (8 * length (bs @ [b]))) (c XOR le_word (bs @ [b]))
      = (crc_bit poly ^^ 8) ((crc_bit poly ^^ ?n) ((c XOR le_word bs) XOR push_bit ?n (ucast b)))"
    by (simp only: split funpow_add o_apply xor.assoc)
  also have "\<dots> = crc_byte poly ((crc_bit poly ^^ ?n) (c XOR le_word bs)) b"
    by (simp only: crc_bits_xor [where a = "c XOR le_word bs"] top crc_byte_def)
  finally show ?case using snoc by simp
qed

lemma le_word_inj:
  assumes "length xs = length ys" "length xs \<le> 4" "(le_word xs :: u32) = le_word ys"
  shows "xs = ys"
proof -
  have "le_bytes (length xs) (le_word xs :: u32) = xs" "le_bytes (length ys) (le_word ys :: u32) = ys"
    by (rule le_bytes_le_word; use assms(1,2) in simp)+
  then show ?thesis using assms(1,3) by metis
qed

lemma foldl_crc_inj:
  assumes "bit poly 31" "foldl (crc_byte poly) a xs = foldl (crc_byte poly) b xs"
  shows "a = b"
  using assms(2)
proof (induction xs arbitrary: a b)
  case (Cons x xs)
  then have "crc_byte poly a x = crc_byte poly b x" by simp
  then have "a XOR ucast x = b XOR ucast x"
    using crc_bits_inj [OF assms(1)] by (simp add: crc_byte_def)
  then have "(a XOR ucast x) XOR ucast x = (b XOR ucast x) XOR ucast x" by simp
  then show ?case by (simp add: xor.assoc)
qed simp

lemma crc_burst:
  assumes poly: "bit poly 31" and len: "length m = length m'" "length m \<le> 4" and "m \<noteq> m'"
  shows "foldl (crc_byte poly) c (pre @ m @ post) \<noteq> foldl (crc_byte poly) c (pre @ m' @ post)"
proof
  let ?c = "foldl (crc_byte poly) c pre"
  assume "foldl (crc_byte poly) c (pre @ m @ post) = foldl (crc_byte poly) c (pre @ m' @ post)"
  then have "foldl (crc_byte poly) ?c m = foldl (crc_byte poly) ?c m'"
    using foldl_crc_inj [OF poly] by simp
  then have "?c XOR le_word m = ?c XOR le_word m'"
    using len crc_bits_inj [OF poly] by (simp add: crc_word)
  then have "?c XOR (?c XOR le_word m) = ?c XOR (?c XOR le_word m')" by simp
  then have "(le_word m :: u32) = le_word m'" by (simp flip: xor.assoc)
  with len \<open>m \<noteq> m'\<close> show False using le_word_inj by blast
qed

lemma Crc32c_burst:
  "length m = length m' \<Longrightarrow> length m \<le> 4 \<Longrightarrow> m \<noteq> m' \<Longrightarrow>
     Crc32c crc (pre @ m @ post) \<noteq> Crc32c crc (pre @ m' @ post)"
  unfolding Crc32c_def by (rule crc_burst) (simp_all add: bit_iff_odd)

end
