(* ===== verification/Config.thy ===== *)
theory Config
  imports SbInfo
begin

text \<open>
  \<open>pkg/types/config.go\<close>: the build configuration \<open>GCfg\<close>, its initial value and the defaults of a run.
  Whether standard output is a terminal and the size of a memory page are inputs.
\<close>

record compression_option =
  co_Algorithm :: string
  co_Level :: int
  co_DictSize :: u32

record config =
  cf_DebugLevel :: int
  cf_ImagePath :: string
  cf_SourcePath :: string
  cf_MountPoint :: string
  cf_Uid :: int
  cf_Gid :: int
  cf_UidOffset :: int
  cf_GidOffset :: int
  cf_DryRun :: bool
  cf_Version :: string
  cf_ForceInodeVersion :: int
  cf_ForceChunkFormat :: int
  cf_InlineData :: bool
  cf_LegacyCompress :: bool
  cf_ZtailPacking :: bool
  cf_Fragments :: bool
  cf_AllFragments :: bool
  cf_Dedupe :: bool
  cf_XattrNameFilter :: bool
  cf_CompressionOptions :: "compression_option list"
  cf_MaxDecompressedExtent :: u64
  cf_TimeInherit :: u8
  cf_UnixTimestamp :: int
  cf_IgnoreMtime :: bool
  cf_InlineXattrTolerance :: int
  cf_ExtraEANamePrefixes :: bool
  cf_RootXattrIsize :: u64
  cf_BlobDevPath :: string
  cf_ChunkBits :: u8
  cf_ShowProgress :: bool
  cf_CompressHintsFile :: string
  cf_FragmentDedupe :: u8
  cf_OvlfsStrip :: bool
  cf_HardDereference :: bool
  cf_MkfsSegmentSize :: u64
  cf_MtWorkers :: u32
  cf_MkfsPclusterSizeMax :: u32
  cf_MkfsPclusterSizeDef :: u32
  cf_MkfsPclusterSizePacked :: u32
  cf_TargetOutPath :: string
  cf_FsConfigFile :: string
  cf_BlockListFile :: string
  cf_RandomPclusterBlks :: bool
  cf_RandomAlgorithms :: bool

text \<open>\<open>InitConfigure\<close>: fields that it does not set have their zero value.\<close>

definition InitConfigure :: "bool \<Rightarrow> config" where
  "InitConfigure tty = \<lparr>
     cf_DebugLevel = EROFS_DBG, cf_ImagePath = '''', cf_SourcePath = '''', cf_MountPoint = '''',
     cf_Uid = -1, cf_Gid = -1, cf_UidOffset = 0, cf_GidOffset = 0, cf_DryRun = False, cf_Version = '''',
     cf_ForceInodeVersion = 0, cf_ForceChunkFormat = 0, cf_InlineData = False, cf_LegacyCompress = False,
     cf_ZtailPacking = False, cf_Fragments = False, cf_AllFragments = False, cf_Dedupe = False,
     cf_XattrNameFilter = False, cf_CompressionOptions = [], cf_MaxDecompressedExtent = NOT 0,
     cf_TimeInherit = 0, cf_UnixTimestamp = -1, cf_IgnoreMtime = False, cf_InlineXattrTolerance = 2,
     cf_ExtraEANamePrefixes = False, cf_RootXattrIsize = 0, cf_BlobDevPath = '''', cf_ChunkBits = 0,
     cf_ShowProgress = tty, cf_CompressHintsFile = '''', cf_FragmentDedupe = 0, cf_OvlfsStrip = False,
     cf_HardDereference = False, cf_MkfsSegmentSize = 0, cf_MtWorkers = 0, cf_MkfsPclusterSizeMax = 0,
     cf_MkfsPclusterSizeDef = 0, cf_MkfsPclusterSizePacked = 0, cf_TargetOutPath = '''',
     cf_FsConfigFile = '''', cf_BlockListFile = '''', cf_RandomPclusterBlks = False,
     cf_RandomAlgorithms = False\<rparr>"

text \<open>\<open>uint8(math.Log2(x))\<close> for a positive \<open>x\<close>: the conversion drops the fraction.\<close>

fun log2_floor :: "nat \<Rightarrow> nat" where
  "log2_floor n = (if n \<le> 1 then 0 else Suc (log2_floor (n div 2)))"

definition MkfsDefaultOptions :: "nat \<Rightarrow> config \<Rightarrow> sbinfo \<Rightarrow> config \<times> sbinfo" where
  "MkfsDefaultOptions page_size cfg sbi =
     (let pageSize = (if page_size > unat EROFS_MAX_BLOCK_SIZE then unat EROFS_MAX_BLOCK_SIZE else page_size);
          bits = of_nat (log2_floor pageSize) :: u8;
          pmax = push_bit (unat bits) 1 :: u32
      in (cfg\<lparr>cf_ShowProgress := True, cf_LegacyCompress := False, cf_InlineData := True,
             cf_XattrNameFilter := True, cf_MkfsPclusterSizeMax := pmax, cf_MkfsPclusterSizeDef := pmax\<rparr>,
          sbi\<lparr>si_BlkSzBits := bits, si_FeatureIncompat := EROFS_FEATURE_INCOMPAT_ZERO_PADDING,
             si_FeatureCompat := EROFS_FEATURE_COMPAT_SB_CHKSUM OR EROFS_FEATURE_COMPAT_MTIME\<rparr>))"

section \<open>Lemmas\<close>

declare log2_floor.simps [simp del]

lemma log2_floor_power: "log2_floor (2 ^ k) = k"
proof (induction k)
  case 0
  show ?case by (simp add: log2_floor.simps [of "Suc 0"])
next
  case (Suc k)
  have "(1::nat) < 2 ^ Suc k" by (rule one_less_power) simp_all
  then have "\<not> (2::nat) ^ Suc k \<le> 1" by linarith
  then have "log2_floor (2 ^ Suc k) = Suc (log2_floor (2 ^ Suc k div 2))"
    using log2_floor.simps [of "2 ^ Suc k"] by (simp only: if_False)
  with Suc show ?case by simp
qed

lemma log2_floor_bounds: "0 < n \<Longrightarrow> 2 ^ log2_floor n \<le> n \<and> n < 2 ^ Suc (log2_floor n)"
proof (induction n rule: less_induct)
  case (less n)
  show ?case
  proof (cases "n \<le> 1")
    case True
    with less.prems show ?thesis by (simp add: log2_floor.simps [of n])
  next
    case False
    then have "2 ^ log2_floor (n div 2) \<le> n div 2 \<and> n div 2 < 2 ^ Suc (log2_floor (n div 2))"
      using less.IH [of "n div 2"] by simp
    moreover have "log2_floor n = Suc (log2_floor (n div 2))" using False by (simp add: log2_floor.simps [of n])
    ultimately show ?thesis by auto
  qed
qed

lemma log2_floor_small: "n \<le> 4096 \<Longrightarrow> log2_floor n \<le> 12"
proof (cases "n = 0")
  case False
  assume n: "n \<le> 4096"
  show ?thesis
  proof (rule ccontr)
    assume "\<not> log2_floor n \<le> 12"
    then have "(2::nat) ^ 13 \<le> 2 ^ log2_floor n" by (intro power_increasing) auto
    with log2_floor_bounds [of n] False n show False by simp
  qed
qed (simp add: log2_floor.simps [of 0])

text \<open>On the page sizes that exist the default block size is the page size, at most 4096 bytes.\<close>

lemma MkfsDefaultOptions_block_size:
  assumes "MkfsDefaultOptions (2 ^ k) cfg sbi = (cfg', sbi')"
  shows "unat (si_BlkSzBits sbi') = min k 12"
    and "ErofsSbHasSbChksum sbi'" and "\<not> ErofsSbHasComprCfgs sbi'" and "ErofsSbHasLz40Padding sbi'"
    and "cf_MkfsPclusterSizeMax cfg' = ErofsBlkSiz sbi'" and "cf_MkfsPclusterSizePacked cfg' = cf_MkfsPclusterSizePacked cfg"
    and "cf_CompressionOptions cfg' = cf_CompressionOptions cfg" and "\<not> cf_LegacyCompress cfg'"
    and "cf_CompressHintsFile cfg' = cf_CompressHintsFile cfg"
proof -
  have "log2_floor (if (2::nat) ^ k > 4096 then 4096 else 2 ^ k) = min k 12"
  proof (cases "k \<le> 12")
    case True
    then have "(2::nat) ^ k \<le> 2 ^ 12" by (intro power_increasing) auto
    with True show ?thesis by (simp add: log2_floor_power)
  next
    case False
    then have "(2::nat) ^ 12 < 2 ^ k" by (intro power_strict_increasing) auto
    then show ?thesis using False log2_floor_power [of 12] by simp
  qed
  then show "unat (si_BlkSzBits sbi') = min k 12"
    and "ErofsSbHasSbChksum sbi'" and "\<not> ErofsSbHasComprCfgs sbi'" and "ErofsSbHasLz40Padding sbi'"
    and "cf_MkfsPclusterSizeMax cfg' = ErofsBlkSiz sbi'" and "cf_MkfsPclusterSizePacked cfg' = cf_MkfsPclusterSizePacked cfg"
    and "cf_CompressionOptions cfg' = cf_CompressionOptions cfg" and "\<not> cf_LegacyCompress cfg'"
    and "cf_CompressHintsFile cfg' = cf_CompressHintsFile cfg"
    using assms
    by (auto simp: MkfsDefaultOptions_def Let_def ErofsSbHasSbChksum_def ErofsSbHasComprCfgs_def
        ErofsSbHasLz40Padding_def sb_has_def read_flags_def ErofsBlkSiz_def unsigned_of_nat take_bit_nat_eq_self)
qed

end
