(* ===== verification/Links.thy ===== *)
theory Links
  imports Prelude
begin

text \<open>
  \<open>pkg/types/list.go\<close>: the intrusive, circular, doubly linked lists every other component
  is built on.  A \<open>ListHead\<close> lives inside another struct, so the store maps the address of
  each head (of any type \<open>'n\<close>) to its two pointers; \<open>None\<close> is Go's \<open>nil\<close>.  Operations
  follow the source statement by statement and panic where it would dereference \<open>nil\<close>.
  \<open>dll\<close> abstracts a head to the Isabelle list of its members; each operation is shown to
  refine the list operation it stands for and to leave all other lists alone.
\<close>

section \<open>The store of list heads\<close>

record 'n links =
  lprev :: "'n \<Rightarrow> 'n option"
  lnext :: "'n \<Rightarrow> 'n option"

definition get_prev :: "'n links \<Rightarrow> 'n option \<Rightarrow> 'n option go" where
  "get_prev h p = gbind (deref p) (\<lambda>a. Ret (lprev h a))"

definition get_next :: "'n links \<Rightarrow> 'n option \<Rightarrow> 'n option go" where
  "get_next h p = gbind (deref p) (\<lambda>a. Ret (lnext h a))"

definition set_prev :: "'n links \<Rightarrow> 'n option \<Rightarrow> 'n option \<Rightarrow> 'n links go" where
  "set_prev h p v = gbind (deref p) (\<lambda>a. Ret (h\<lparr>lprev := (lprev h)(a := v)\<rparr>))"

definition set_next :: "'n links \<Rightarrow> 'n option \<Rightarrow> 'n option \<Rightarrow> 'n links go" where
  "set_next h p v = gbind (deref p) (\<lambda>a. Ret (h\<lparr>lnext := (lnext h)(a := v)\<rparr>))"

lemmas link_access_defs = get_prev_def get_next_def set_prev_def set_next_def

section \<open>Operations\<close>

definition InitListHead :: "'n links \<Rightarrow> 'n option \<Rightarrow> 'n links go" where
  "InitListHead h l =
     gbind (set_prev h l l) (\<lambda>h1.
     set_next h1 l l)"

text \<open>\<open>NewListHead\<close> of a struct that is allocated at an unused address \<open>a\<close>.\<close>

definition NewListHead :: "'n \<Rightarrow> 'n links \<Rightarrow> ('n \<times> 'n links) go" where
  "NewListHead a h = gbind (InitListHead h (Some a)) (\<lambda>h1. Ret (a, h1))"

definition ListAddBetween ::
  "'n links \<Rightarrow> 'n option \<Rightarrow> 'n option \<Rightarrow> 'n option \<Rightarrow> 'n links go" where
  "ListAddBetween h entry prev next =
     gbind (set_prev h entry prev) (\<lambda>h1.
     gbind (set_next h1 entry next) (\<lambda>h2.
     gbind (set_next h2 prev entry) (\<lambda>h3.
     set_prev h3 next entry)))"

definition ListAdd :: "'n links \<Rightarrow> 'n option \<Rightarrow> 'n option \<Rightarrow> 'n links go" where
  "ListAdd h entry head =
     gbind (get_next h head) (\<lambda>nx. ListAddBetween h entry head nx)"

definition ListAddTail :: "'n links \<Rightarrow> 'n option \<Rightarrow> 'n option \<Rightarrow> 'n links go" where
  "ListAddTail h entry head =
     gbind (get_prev h head) (\<lambda>pv. ListAddBetween h entry pv head)"

definition ListDelBetween :: "'n links \<Rightarrow> 'n option \<Rightarrow> 'n option \<Rightarrow> 'n links go" where
  "ListDelBetween h prev next =
     gbind (set_next h prev next) (\<lambda>h1.
     set_prev h1 next prev)"

definition ListDel :: "'n links \<Rightarrow> 'n option \<Rightarrow> 'n links go" where
  "ListDel h entry =
     gbind (get_prev h entry) (\<lambda>pv.
     gbind (get_next h entry) (\<lambda>nx.
     gbind (ListDelBetween h pv nx) (\<lambda>h1.
     gbind (set_prev h1 entry None) (\<lambda>h2.
     set_next h2 entry None))))"

definition ListIsLast :: "'n links \<Rightarrow> 'n option \<Rightarrow> 'n option \<Rightarrow> bool go" where
  "ListIsLast h l head = gbind (get_next h l) (\<lambda>nx. Ret (nx = head))"

definition IsListEmpty :: "'n links \<Rightarrow> 'n option \<Rightarrow> bool go" where
  "IsListEmpty h l = gbind (get_next h l) (\<lambda>nx. Ret (nx = l))"

definition ListSplice ::
  "'n links \<Rightarrow> 'n option \<Rightarrow> 'n option \<Rightarrow> 'n option \<Rightarrow> 'n links go" where
  "ListSplice h l prev next =
     gbind (get_next h l) (\<lambda>first.
     gbind (get_prev h l) (\<lambda>last.
     gbind (set_prev h first prev) (\<lambda>h1.
     gbind (set_next h1 prev first) (\<lambda>h2.
     gbind (set_next h2 last next) (\<lambda>h3.
     set_prev h3 next last)))))"

definition ListSpliceTail :: "'n links \<Rightarrow> 'n option \<Rightarrow> 'n option \<Rightarrow> 'n links go" where
  "ListSpliceTail h l head =
     gbind (IsListEmpty h l) (\<lambda>e.
     if \<not> e then gbind (get_prev h head) (\<lambda>pv. ListSplice h l pv head) else Ret h)"

text \<open>
  The two iterators.  The callback sees (and may change) the client's state, of which the
  links are a part (\<open>lk\<close>); it answers whether to go on.  \<open>ListForEachInList\<close> reads
  \<open>pos.Next\<close> after the callback ran, the safe variant before it.
\<close>

fun ListForEachInList_loop ::
  "nat \<Rightarrow> ('s \<Rightarrow> 'n links) \<Rightarrow> ('n option \<Rightarrow> 's \<Rightarrow> (bool \<times> 's) go)
   \<Rightarrow> 'n option \<Rightarrow> 'n option \<Rightarrow> 's \<Rightarrow> 's go" where
  "ListForEachInList_loop 0 lk f head pos s = NoFuel"
| "ListForEachInList_loop (Suc n) lk f head pos s =
     (if pos = head then Ret s
      else gbind (f pos s) (\<lambda>(go_on, s1).
        if \<not> go_on then Ret s1
        else gbind (get_next (lk s1) pos) (\<lambda>pos1.
          ListForEachInList_loop n lk f head pos1 s1)))"

definition ListForEachInList ::
  "nat \<Rightarrow> ('s \<Rightarrow> 'n links) \<Rightarrow> ('n option \<Rightarrow> 's \<Rightarrow> (bool \<times> 's) go)
   \<Rightarrow> 'n option \<Rightarrow> 's \<Rightarrow> 's go" where
  "ListForEachInList n lk f head s =
     gbind (get_next (lk s) head) (\<lambda>pos. ListForEachInList_loop n lk f head pos s)"

fun ListForEachInListSafe_loop ::
  "nat \<Rightarrow> ('s \<Rightarrow> 'n links) \<Rightarrow> ('n option \<Rightarrow> 'n option \<Rightarrow> 's \<Rightarrow> (bool \<times> 's) go)
   \<Rightarrow> 'n option \<Rightarrow> 'n option \<Rightarrow> 's \<Rightarrow> 's go" where
  "ListForEachInListSafe_loop 0 lk f head pos s = NoFuel"
| "ListForEachInListSafe_loop (Suc k) lk f head pos s =
     (if pos = head then Ret s
      else gbind (get_next (lk s) pos) (\<lambda>n.
        gbind (f pos n s) (\<lambda>(go_on, s1).
          if \<not> go_on then Ret s1
          else ListForEachInListSafe_loop k lk f head n s1)))"

definition ListForEachInListSafe ::
  "nat \<Rightarrow> ('s \<Rightarrow> 'n links) \<Rightarrow> ('n option \<Rightarrow> 'n option \<Rightarrow> 's \<Rightarrow> (bool \<times> 's) go)
   \<Rightarrow> 'n option \<Rightarrow> 's \<Rightarrow> 's go" where
  "ListForEachInListSafe n lk f head s =
     gbind (get_next (lk s) head) (\<lambda>pos. ListForEachInListSafe_loop n lk f head pos s)"

lemmas link_defs =
  InitListHead_def ListAddBetween_def ListAdd_def ListAddTail_def ListDelBetween_def
  ListDel_def ListIsLast_def IsListEmpty_def ListSplice_def ListSpliceTail_def
  link_access_defs

section \<open>Abstraction: a head stands for a list\<close>

primrec chain :: "'n links \<Rightarrow> 'n \<Rightarrow> 'n list \<Rightarrow> 'n \<Rightarrow> bool" where
  "chain h a [] b \<longleftrightarrow> lnext h a = Some b \<and> lprev h b = Some a"
| "chain h a (x # xs) b \<longleftrightarrow> lnext h a = Some x \<and> lprev h x = Some a \<and> chain h x xs b"

definition dll :: "'n links \<Rightarrow> 'n \<Rightarrow> 'n list \<Rightarrow> bool" where
  "dll h head xs \<longleftrightarrow> distinct (head # xs) \<and> chain h head xs head"

text \<open>\<open>h'\<close> differs from \<open>h\<close> at most at the heads in \<open>A\<close>.\<close>

definition same_outside :: "'n set \<Rightarrow> 'n links \<Rightarrow> 'n links \<Rightarrow> bool" where
  "same_outside A h h' \<longleftrightarrow>
     (\<forall>n. n \<notin> A \<longrightarrow> lprev h' n = lprev h n \<and> lnext h' n = lnext h n)"

lemma same_outside_refl [simp]: "same_outside A h h"
  by (simp add: same_outside_def)

lemma same_outside_trans:
  "same_outside A h h1 \<Longrightarrow> same_outside B h1 h2 \<Longrightarrow> A \<union> B \<subseteq> C \<Longrightarrow> same_outside C h h2"
  unfolding same_outside_def by (metis UnCI subsetD)

lemma same_outside_mono: "same_outside A h h' \<Longrightarrow> A \<subseteq> B \<Longrightarrow> same_outside B h h'"
  by (auto simp: same_outside_def)

lemma chain_append:
  "chain h a (xs @ y # ys) b \<longleftrightarrow> chain h a xs y \<and> chain h y ys b"
  by (induction xs arbitrary: a) auto

lemma chain_next:
  "chain h a xs b \<Longrightarrow> lnext h a = Some (hd (xs @ [b]))"
  by (cases xs) auto

lemma chain_prev:
  "chain h a xs b \<Longrightarrow> lprev h b = Some (last (a # xs))"
  by (induction xs arbitrary: a) auto

lemma chain_cong:
  assumes "\<And>n. n \<in> insert a (set xs) \<Longrightarrow> lnext h' n = lnext h n"
    and "\<And>n. n \<in> insert b (set xs) \<Longrightarrow> lprev h' n = lprev h n"
  shows "chain h' a xs b = chain h a xs b"
  using assms by (induction xs arbitrary: a) auto

lemma dll_frame:
  assumes "dll h head xs" "same_outside A h h'" "A \<inter> insert head (set xs) = {}"
  shows "dll h' head xs"
proof -
  have "chain h' head xs head = chain h head xs head"
    using assms(2,3) by (intro chain_cong) (auto simp: same_outside_def)
  with assms(1) show ?thesis by (simp add: dll_def)
qed

lemma dll_next: "dll h head xs \<Longrightarrow> lnext h head = Some (hd (xs @ [head]))"
  by (auto simp: dll_def dest: chain_next)

lemma dll_prev: "dll h head xs \<Longrightarrow> lprev h head = Some (last (head # xs))"
  by (auto simp: dll_def dest: chain_prev)

lemma dll_mem_next:
  "dll h head (xs @ x # ys) \<Longrightarrow> lnext h x = Some (hd (ys @ [head]))"
  by (auto simp: dll_def chain_append dest: chain_next)

lemma dll_mem_prev:
  "dll h head (xs @ x # ys) \<Longrightarrow> lprev h x = Some (last (head # xs))"
  by (auto simp: dll_def chain_append dest: chain_prev)

lemma dll_distinct: "dll h head xs \<Longrightarrow> distinct xs \<and> head \<notin> set xs"
  by (simp add: dll_def)

text \<open>A head determines its list: the abstraction is a function.\<close>

lemma chain_unique:
  assumes "chain h a xs b" "chain h a ys b" "b \<notin> set xs" "b \<notin> set ys"
  shows "xs = ys"
  using assms
proof (induction xs arbitrary: a ys)
  case Nil
  then show ?case by (cases ys) auto
next
  case (Cons x xs)
  then show ?case by (cases ys) auto
qed

lemma dll_unique: "dll h head xs \<Longrightarrow> dll h head ys \<Longrightarrow> xs = ys"
  by (auto simp: dll_def intro: chain_unique)

section \<open>The operations refine list operations\<close>

text \<open>
  The pointer updates of an insertion and of a removal, stated pointwise: \<open>linked p e n\<close> says
  that \<open>e\<close> sits between \<open>p\<close> and \<open>n\<close> and nothing else changed; \<open>unlinked p e n\<close> that \<open>p\<close>
  and \<open>n\<close> now meet and \<open>e\<close> is cleared.
\<close>

definition linked :: "'n \<Rightarrow> 'n \<Rightarrow> 'n \<Rightarrow> 'n links \<Rightarrow> 'n links \<Rightarrow> bool" where
  "linked p e n h h' \<longleftrightarrow>
     lnext h' e = Some n \<and> lprev h' e = Some p \<and> lnext h' p = Some e \<and> lprev h' n = Some e \<and>
     (\<forall>x. x \<noteq> e \<and> x \<noteq> p \<longrightarrow> lnext h' x = lnext h x) \<and>
     (\<forall>x. x \<noteq> e \<and> x \<noteq> n \<longrightarrow> lprev h' x = lprev h x)"

definition unlinked :: "'n \<Rightarrow> 'n \<Rightarrow> 'n \<Rightarrow> 'n links \<Rightarrow> 'n links \<Rightarrow> bool" where
  "unlinked p e n h h' \<longleftrightarrow>
     lnext h' e = None \<and> lprev h' e = None \<and> lnext h' p = Some n \<and> lprev h' n = Some p \<and>
     (\<forall>x. x \<noteq> e \<and> x \<noteq> p \<longrightarrow> lnext h' x = lnext h x) \<and>
     (\<forall>x. x \<noteq> e \<and> x \<noteq> n \<longrightarrow> lprev h' x = lprev h x)"

lemma linked_same_outside: "linked p e n h h' \<Longrightarrow> {p, e, n} \<subseteq> A \<Longrightarrow> same_outside A h h'"
  by (auto simp: linked_def same_outside_def)

lemma unlinked_same_outside: "unlinked p e n h h' \<Longrightarrow> {p, e, n} \<subseteq> A \<Longrightarrow> same_outside A h h'"
  by (auto simp: unlinked_def same_outside_def)

lemma chain_insert:
  assumes "chain h a (xs @ ys) b" "e \<notin> {a, b} \<union> set (xs @ ys)"
    and "distinct (a # xs @ ys)" "b \<notin> set (xs @ ys)"
    and "linked (last (a # xs)) e (hd (ys @ [b])) h h'"
  shows "chain h' a (xs @ e # ys) b"
  using assms
proof (induction xs arbitrary: a)
  case Nil
  show ?case
  proof (cases ys)
    case Nil
    with Nil.prems show ?thesis using \<open>ys = []\<close> by (simp add: linked_def)
  next
    case (Cons y ys')
    have "chain h' y ys' b = chain h y ys' b"
      using Nil.prems Cons by (intro chain_cong) (auto simp: linked_def)
    with Nil.prems Cons show ?thesis by (simp add: linked_def)
  qed
next
  case (Cons x xs)
  have "last (a # x # xs) \<in> set (x # xs)" by (simp add: last_in_set)
  then have 1: "a \<noteq> last (x # xs)" using Cons.prems(3) by auto
  have "hd (ys @ [b]) \<in> insert b (set ys)" by (cases ys) auto
  then have 2: "x \<noteq> hd (ys @ [b])" using Cons.prems(3,4) by auto
  have "chain h' x (xs @ e # ys) b"
    using Cons.prems by (intro Cons.IH) auto
  with 1 2 Cons.prems show ?case by (auto simp: linked_def)
qed

lemma chain_remove:
  assumes "chain h a (xs @ e # ys) b" "e \<notin> {a, b}"
    and "distinct (a # xs @ e # ys)" "b \<notin> set (xs @ e # ys)"
    and "unlinked (last (a # xs)) e (hd (ys @ [b])) h h'"
  shows "chain h' a (xs @ ys) b"
  using assms
proof (induction xs arbitrary: a)
  case Nil
  show ?case
  proof (cases ys)
    case Nil
    with Nil.prems show ?thesis using \<open>ys = []\<close> by (simp add: unlinked_def)
  next
    case (Cons y ys')
    have "chain h' y ys' b = chain h y ys' b"
      using Nil.prems Cons by (intro chain_cong) (auto simp: unlinked_def)
    with Nil.prems Cons show ?thesis by (simp add: unlinked_def)
  qed
next
  case (Cons x xs)
  have "last (a # x # xs) \<in> set (x # xs)" by (simp add: last_in_set)
  then have 1: "a \<noteq> last (x # xs)" using Cons.prems(3) by auto
  have "hd (ys @ [b]) \<in> insert b (set ys)" by (cases ys) auto
  then have 2: "x \<noteq> hd (ys @ [b])" using Cons.prems(3,4) by auto
  have "chain h' x (xs @ ys) b"
    using Cons.prems by (intro Cons.IH) auto
  with 1 2 Cons.prems show ?case by (auto simp: unlinked_def)
qed

subsection \<open>What the primitive operations do to the pointers\<close>

lemma InitListHead_Ret:
  "\<exists>h'. InitListHead h (Some l) = Ret h' \<and> dll h' l [] \<and> same_outside {l} h h'"
  by (simp add: link_defs dll_def same_outside_def)

lemma ListAddBetween_linked:
  assumes "e \<noteq> p" "e \<noteq> n"
  shows "\<exists>h'. ListAddBetween h (Some e) (Some p) (Some n) = Ret h' \<and> linked p e n h h'"
  using assms by (simp add: link_defs linked_def)

lemma ListDel_unlinked:
  assumes "lprev h e = Some p" "lnext h e = Some n" "e \<noteq> p" "e \<noteq> n"
  shows "\<exists>h'. ListDel h (Some e) = Ret h' \<and> unlinked p e n h h'"
  using assms by (simp add: link_defs unlinked_def)

lemma insert_dll:
  assumes "dll h head (xs @ ys)" "e \<notin> insert head (set (xs @ ys))"
    and "linked (last (head # xs)) e (hd (ys @ [head])) h h'"
  shows "dll h' head (xs @ e # ys) \<and> same_outside ({e, head} \<union> set (xs @ ys)) h h'"
proof -
  have "last (head # xs) \<in> insert head (set xs)" "hd (ys @ [head]) \<in> insert head (set ys)"
    by (auto simp: hd_append)
  then have "same_outside ({e, head} \<union> set (xs @ ys)) h h'"
    by (intro linked_same_outside [OF assms(3)]) auto
  moreover have "chain h' head (xs @ e # ys) head"
    using assms by (intro chain_insert [of h]) (auto simp: dll_def)
  ultimately show ?thesis using assms(1,2) by (auto simp: dll_def)
qed

subsection \<open>Refinement of each operation\<close>

lemma ListAdd_dll:
  assumes "dll h head xs" "e \<notin> insert head (set xs)"
  shows "\<exists>h'. ListAdd h (Some e) (Some head) = Ret h' \<and> dll h' head (e # xs)
              \<and> same_outside ({e, head} \<union> set xs) h h'"
proof -
  let ?n = "hd (xs @ [head])"
  have "?n \<in> insert head (set xs)" by (cases xs) auto
  with assms(2) have "e \<noteq> head" "e \<noteq> ?n" by auto
  then obtain h' where "ListAddBetween h (Some e) (Some head) (Some ?n) = Ret h'"
    and "linked head e ?n h h'"
    using ListAddBetween_linked [OF \<open>e \<noteq> head\<close> \<open>e \<noteq> ?n\<close>, of h] by blast
  then have "ListAdd h (Some e) (Some head) = Ret h'"
    by (simp add: ListAdd_def get_next_def dll_next [OF assms(1)])
  moreover have "dll h' head (e # xs) \<and> same_outside ({e, head} \<union> set xs) h h'"
    using insert_dll [of h head "[]" xs e h'] assms \<open>linked head e ?n h h'\<close> by simp
  ultimately show ?thesis by blast
qed

lemma ListAddTail_dll:
  assumes "dll h head xs" "e \<notin> insert head (set xs)"
  shows "\<exists>h'. ListAddTail h (Some e) (Some head) = Ret h' \<and> dll h' head (xs @ [e])
              \<and> same_outside ({e, head} \<union> set xs) h h'"
proof -
  let ?p = "last (head # xs)"
  have "?p \<in> insert head (set xs)" by auto
  with assms(2) have "e \<noteq> head" "e \<noteq> ?p" by auto
  then obtain h' where "ListAddBetween h (Some e) (Some ?p) (Some head) = Ret h'"
    and "linked ?p e head h h'"
    using ListAddBetween_linked [OF \<open>e \<noteq> ?p\<close> \<open>e \<noteq> head\<close>, of h] by blast
  then have "ListAddTail h (Some e) (Some head) = Ret h'"
    by (simp add: ListAddTail_def get_prev_def dll_prev [OF assms(1)])
  moreover have "dll h' head (xs @ [e]) \<and> same_outside ({e, head} \<union> set xs) h h'"
    using insert_dll [of h head xs "[]" e h'] assms \<open>linked ?p e head h h'\<close> by simp
  ultimately show ?thesis by blast
qed

lemma ListDel_dll:
  assumes "dll h head (xs @ e # ys)"
  shows "\<exists>h'. ListDel h (Some e) = Ret h' \<and> dll h' head (xs @ ys)
              \<and> lprev h' e = None \<and> lnext h' e = None
              \<and> same_outside ({e, head} \<union> set (xs @ ys)) h h'"
proof -
  let ?p = "last (head # xs)" and ?n = "hd (ys @ [head])"
  have in_: "?p \<in> insert head (set xs)" "?n \<in> insert head (set ys)"
    by (auto simp: hd_append)
  with dll_distinct [OF assms] have "e \<noteq> ?p" "e \<noteq> ?n" by auto
  then obtain h' where h': "ListDel h (Some e) = Ret h'" "unlinked ?p e ?n h h'"
    using ListDel_unlinked dll_mem_prev [OF assms] dll_mem_next [OF assms] by metis
  moreover have "dll h' head (xs @ ys)"
    using assms h'(2) chain_remove [of h head xs e ys head h'] by (auto simp: dll_def)
  moreover have "same_outside ({e, head} \<union> set (xs @ ys)) h h'"
    using in_ by (auto intro: unlinked_same_outside [OF h'(2)])
  ultimately show ?thesis by (auto simp: unlinked_def)
qed

text \<open>Deleting an entry that is alone on its own ring, as \<open>InitListHead\<close> leaves it.\<close>

lemma ListDel_self:
  assumes "dll h e []"
  shows "\<exists>h'. ListDel h (Some e) = Ret h' \<and> lprev h' e = None \<and> lnext h' e = None
              \<and> same_outside {e} h h'"
  using assms by (simp add: link_defs dll_def same_outside_def)

text \<open>Deleting twice dereferences the \<open>nil\<close> pointers the first deletion left.\<close>

lemma ListDel_cleared: "lprev h e = None \<Longrightarrow> ListDel h (Some e) = Panic NilDeref"
  by (simp add: link_defs)

lemma IsListEmpty_dll: "dll h head xs \<Longrightarrow> IsListEmpty h (Some head) = Ret (xs = [])"
  by (cases xs) (auto simp: link_defs dll_def)

lemma ListIsLast_dll:
  "dll h head (xs @ x # ys) \<Longrightarrow> ListIsLast h (Some x) (Some head) = Ret (ys = [])"
  using dll_distinct [of h head "xs @ x # ys"]
  by (cases ys) (auto simp: ListIsLast_def get_next_def dll_mem_next)

lemma chain_relink:
  assumes "chain h a xs b" "distinct (a # xs)" "b \<notin> set xs"
    and "\<And>x. x \<in> set (butlast (a # xs)) \<Longrightarrow> lnext h' x = lnext h x"
    and "\<And>x. x \<in> set xs \<Longrightarrow> lprev h' x = lprev h x"
    and "lnext h' (last (a # xs)) = Some c" "lprev h' c = Some (last (a # xs))"
  shows "chain h' a xs c"
  using assms
proof (induction xs arbitrary: a)
  case Nil
  then show ?case by simp
next
  case (Cons x xs)
  have "chain h' x xs c"
    using Cons.prems by (intro Cons.IH) auto
  with Cons.prems show ?case by auto
qed

lemma ListSpliceTail_dll:
  assumes l: "dll h l xs" and head: "dll h head ys"
    and disj: "insert l (set xs) \<inter> insert head (set ys) = {}"
  shows "\<exists>h'. ListSpliceTail h (Some l) (Some head) = Ret h' \<and> dll h' head (ys @ xs)
              \<and> same_outside (insert head (set ys) \<union> set xs) h h'"
proof (cases "xs = []")
  case True
  with l head show ?thesis
    by (auto simp: ListSpliceTail_def IsListEmpty_dll)
next
  case False
  then obtain x xs' where xs: "xs = x # xs'" by (cases xs) auto
  let ?p = "last (head # ys)" and ?z = "last xs"
  define h' where "h' = h\<lparr>lprev := (lprev h)(x := Some ?p, head := Some ?z),
                          lnext := (lnext h)(?p := Some x, ?z := Some head)\<rparr>"
  have p: "?p \<in> insert head (set ys)" and z: "?z \<in> set xs" using False by auto
  have dist: "distinct (head # ys @ xs)"
    using dll_distinct [OF l] dll_distinct [OF head] disj by auto
  have pz: "?p \<noteq> ?z" using p z disj by auto
  have "lnext h l = Some x" "lprev h l = Some ?z" "lprev h head = Some ?p"
    using dll_next [OF l] dll_prev [OF l] dll_prev [OF head] xs by simp_all
  then have op: "ListSpliceTail h (Some l) (Some head) = Ret h'"
    using IsListEmpty_dll [OF l] False
    by (simp add: ListSpliceTail_def ListSplice_def link_access_defs h'_def)
  have "chain h' head ys x"
  proof (rule chain_relink)
    show "chain h head ys head" using head by (simp add: dll_def)
    show "lprev h' x = Some ?p" using dist xs by (auto simp: h'_def)
    show "lnext h' ?p = Some x" using pz by (simp add: h'_def)
    show "lnext h' y = lnext h y" if "y \<in> set (butlast (head # ys))" for y
    proof -
      have "head # ys = butlast (head # ys) @ [?p]" by simp
      then have "distinct (butlast (head # ys) @ [?p])"
        using dist by (metis distinct_append append_Cons)
      with that have "y \<noteq> ?p" by auto
      moreover have "y \<noteq> ?z" using that z disj by (auto dest: in_set_butlastD split: if_splits)
      ultimately show ?thesis by (simp add: h'_def)
    qed
    show "lprev h' y = lprev h y" if "y \<in> set ys" for y
      using that dist xs by (auto simp: h'_def)
  qed (use dist in auto)
  moreover have "chain h' x xs' head"
  proof (rule chain_relink)
    show "chain h x xs' l" using l xs by (simp add: dll_def)
    show "lprev h' head = Some (last (x # xs'))" using xs by (simp add: h'_def)
    show "lnext h' (last (x # xs')) = Some head" using xs by (simp add: h'_def)
    show "lnext h' y = lnext h y" if "y \<in> set (butlast (x # xs'))" for y
    proof -
      have "distinct (butlast xs @ [?z])" using dist False by simp
      then have "y \<noteq> ?z" using that xs by auto
      moreover have "y \<in> set xs" using that xs by (metis in_set_butlastD)
      then have "y \<noteq> ?p" using p dist by auto
      ultimately show ?thesis by (simp add: h'_def)
    qed
    show "lprev h' y = lprev h y" if "y \<in> set xs'" for y
      using that dist xs by (auto simp: h'_def)
  qed (use dist xs dll_distinct [OF l] in auto)
  ultimately have "dll h' head (ys @ xs)"
    using dist by (simp add: dll_def xs chain_append)
  moreover have "same_outside (insert head (set ys) \<union> set xs) h h'"
    using p z xs by (auto simp: same_outside_def h'_def)
  ultimately show ?thesis using op by blast
qed

section \<open>The iterators visit the members in order\<close>

primrec visit :: "('n \<Rightarrow> 's \<Rightarrow> (bool \<times> 's) go) \<Rightarrow> 'n list \<Rightarrow> 's \<Rightarrow> 's go" where
  "visit f [] s = Ret s"
| "visit f (x # xs) s =
     gbind (f x s) (\<lambda>(go_on, s1). if go_on then visit f xs s1 else Ret s1)"

lemma ListForEachInList_loop_visit:
  assumes "chain (lk s) a xs b" "pos = Some (hd (xs @ [b]))" "b \<notin> set xs" "length xs < n"
    and "\<And>x s r s1. f (Some x) s = Ret (r, s1) \<Longrightarrow> lk s1 = lk s"
  shows "ListForEachInList_loop n lk f (Some b) pos s = visit (\<lambda>x. f (Some x)) xs s"
  using assms(1-4)
proof (induction xs arbitrary: a pos s n)
  case Nil
  then show ?case by (cases n) auto
next
  case (Cons x xs)
  then obtain m where n: "n = Suc m" by (cases n) auto
  have rest: "ListForEachInList_loop m lk f (Some b) (lnext (lk s) x) s1
      = visit (\<lambda>x. f (Some x)) xs s1" if "f (Some x) s = Ret (r, s1)" for r s1
  proof (rule Cons.IH)
    have eq: "lk s1 = lk s" using assms(5) [OF that] .
    show "chain (lk s1) x xs b" using Cons.prems eq by simp
    then show "lnext (lk s) x = Some (hd (xs @ [b]))" using chain_next eq by metis
  qed (use Cons.prems n in auto)
  show ?case
  proof (cases "f (Some x) s")
    case (Ret rs)
    obtain r s1 where rs: "rs = (r, s1)" by (cases rs)
    with Ret assms(5) have "lk s1 = lk s" by blast
    then show ?thesis using Cons.prems n Ret rs rest [of r s1]
      by (auto simp: get_next_def)
  qed (use Cons.prems n in auto)
qed

lemma ListForEachInList_visit:
  assumes "dll (lk s) head xs" "length xs < n"
    and "\<And>x s r s1. f (Some x) s = Ret (r, s1) \<Longrightarrow> lk s1 = lk s"
  shows "ListForEachInList n lk f (Some head) s = visit (\<lambda>x. f (Some x)) xs s"
proof -
  have "ListForEachInList n lk f (Some head) s
      = ListForEachInList_loop n lk f (Some head) (Some (hd (xs @ [head]))) s"
    using dll_next [OF assms(1)] by (simp add: ListForEachInList_def get_next_def)
  also have "\<dots> = visit (\<lambda>x. f (Some x)) xs s"
    using assms by (intro ListForEachInList_loop_visit [where a = head]) (auto simp: dll_def)
  finally show ?thesis .
qed

text \<open>
  The safe iterator reads the successor first, so its callback may unlink the entry it is at.
  The client's only obligation is that the rest of the ring survives the callback.
\<close>

lemma ListForEachInListSafe_drain_loop:
  assumes "dll h head xs" "length xs < n"
  shows "\<exists>h'. ListForEachInListSafe_loop n (\<lambda>h. h)
                (\<lambda>pos _ h. gbind (ListDel h pos) (\<lambda>h1. Ret (True, h1)))
                (Some head) (Some (hd (xs @ [head]))) h = Ret h' \<and> dll h' head []
              \<and> (\<forall>x \<in> set xs. lprev h' x = None \<and> lnext h' x = None)
              \<and> same_outside (insert head (set xs)) h h'"
  using assms
proof (induction xs arbitrary: h n)
  case Nil
  then show ?case by (cases n) auto
next
  case (Cons x xs)
  then obtain m where n: "n = Suc m" by (cases n) auto
  obtain h1 where del: "ListDel h (Some x) = Ret h1" "dll h1 head xs"
      "lprev h1 x = None" "lnext h1 x = None" "same_outside ({x, head} \<union> set xs) h h1"
    using ListDel_dll [of h head "[]" x xs] Cons.prems(1) by auto
  have "length xs < m" using Cons.prems(2) n by simp
  then obtain h' where IH: "ListForEachInListSafe_loop m (\<lambda>h. h)
                (\<lambda>pos _ h. gbind (ListDel h pos) (\<lambda>h1. Ret (True, h1)))
                (Some head) (Some (hd (xs @ [head]))) h1 = Ret h'" "dll h' head []"
      "\<forall>x \<in> set xs. lprev h' x = None \<and> lnext h' x = None"
      "same_outside (insert head (set xs)) h1 h'"
    using Cons.IH [OF del(2)] by blast
  have dist: "x \<noteq> head" "x \<notin> set xs" using dll_distinct [OF Cons.prems(1)] by auto
  have "lnext h x = Some (hd (xs @ [head]))"
    using dll_mem_next [of h head "[]" x xs] Cons.prems(1) by simp
  then have "ListForEachInListSafe_loop n (\<lambda>h. h)
                (\<lambda>pos _ h. gbind (ListDel h pos) (\<lambda>h1. Ret (True, h1)))
                (Some head) (Some (hd ((x # xs) @ [head]))) h = Ret h'"
    using n dist del(1) IH(1) by (simp add: get_next_def)
  moreover have "lprev h' x = None" "lnext h' x = None"
    using IH(4) dist del(3,4) by (auto simp: same_outside_def)
  moreover have "same_outside (insert head (set (x # xs))) h h'"
    using del(5) IH(4) by (rule same_outside_trans) auto
  ultimately show ?case using IH(2,3) by auto
qed

section \<open>The interface the clients rely on\<close>

text \<open>
  What \<open>helper.go\<close>, \<open>internal.go\<close>, \<open>dedupe.go\<close> and \<open>inode1.go\<close> use of the lists: rings with
  disjoint members do not disturb each other, appending and deleting act on the member list.
\<close>

locale intrusive_lists =
  fixes rep :: "'s \<Rightarrow> 'n \<Rightarrow> 'n list \<Rightarrow> bool"
    and same :: "'n set \<Rightarrow> 's \<Rightarrow> 's \<Rightarrow> bool"
    and init :: "'s \<Rightarrow> 'n \<Rightarrow> 's go"
    and add_tail :: "'s \<Rightarrow> 'n \<Rightarrow> 'n \<Rightarrow> 's go"
    and del :: "'s \<Rightarrow> 'n \<Rightarrow> 's go"
  assumes rep_distinct: "rep s r xs \<Longrightarrow> distinct (r # xs)"
    and init_rep: "\<exists>s'. init s r = Ret s' \<and> rep s' r [] \<and> same {r} s s'"
    and add_tail_rep: "rep s r xs \<Longrightarrow> e \<notin> insert r (set xs) \<Longrightarrow>
          \<exists>s'. add_tail s e r = Ret s' \<and> rep s' r (xs @ [e]) \<and> same ({e, r} \<union> set xs) s s'"
    and del_rep: "rep s r (xs @ e # ys) \<Longrightarrow>
          \<exists>s'. del s e = Ret s' \<and> rep s' r (xs @ ys) \<and> same ({e, r} \<union> set (xs @ ys)) s s'"
    and del_alone: "rep s e [] \<Longrightarrow> \<exists>s'. del s e = Ret s' \<and> same {e} s s'"
    and rep_frame: "rep s r xs \<Longrightarrow> same A s s' \<Longrightarrow> A \<inter> insert r (set xs) = {} \<Longrightarrow> rep s' r xs"
    and same_trans: "same A s s1 \<Longrightarrow> same B s1 s2 \<Longrightarrow> A \<union> B \<subseteq> C \<Longrightarrow> same C s s2"
begin

text \<open>Re-bucketing: an entry leaves one ring and joins the tail of a disjoint one.\<close>

lemma move_rep:
  assumes a: "rep s a (xs @ e # ys)" and b: "rep s b zs"
    and disj: "insert a (set (xs @ e # ys)) \<inter> insert b (set zs) = {}"
  shows "\<exists>s'. gbind (del s e) (\<lambda>s1. add_tail s1 e b) = Ret s' \<and> rep s' a (xs @ ys)
              \<and> rep s' b (zs @ [e]) \<and> same ({a, b, e} \<union> set (xs @ ys @ zs)) s s'"
proof -
  obtain s1 where s1: "del s e = Ret s1" "rep s1 a (xs @ ys)" "same ({e, a} \<union> set (xs @ ys)) s s1"
    using del_rep [OF a] by blast
  have "rep s1 b zs" using rep_frame [OF b s1(3)] disj by auto
  then obtain s2 where s2: "add_tail s1 e b = Ret s2" "rep s2 b (zs @ [e])"
      "same ({e, b} \<union> set zs) s1 s2"
    using add_tail_rep [of s1 b zs e] disj by auto
  have "({e, b} \<union> set zs) \<inter> insert a (set (xs @ ys)) = {}"
    using disj rep_distinct [OF a] by auto
  then have "rep s2 a (xs @ ys)" using rep_frame [OF s1(2) s2(3)] by auto
  moreover have "same ({a, b, e} \<union> set (xs @ ys @ zs)) s s2"
    using s1(3) s2(3) by (rule same_trans) auto
  ultimately show ?thesis using s1(1) s2 by auto
qed

text \<open>The same for an entry that is still alone on its own ring.\<close>

lemma adopt_rep:
  assumes e: "rep s e []" and b: "rep s b zs" and new: "e \<notin> insert b (set zs)"
  shows "\<exists>s'. gbind (del s e) (\<lambda>s1. add_tail s1 e b) = Ret s' \<and> rep s' b (zs @ [e])
              \<and> same ({b, e} \<union> set zs) s s'"
proof -
  obtain s1 where s1: "del s e = Ret s1" "same {e} s s1" using del_alone [OF e] by blast
  have "rep s1 b zs" using rep_frame [OF b s1(2)] new by auto
  then obtain s2 where s2: "add_tail s1 e b = Ret s2" "rep s2 b (zs @ [e])"
      "same ({e, b} \<union> set zs) s1 s2"
    using add_tail_rep [of s1 b zs e] new by auto
  have "same ({b, e} \<union> set zs) s s2"
    using s1(2) s2(3) by (rule same_trans) auto
  with s1 s2 show ?thesis by auto
qed

text \<open>A ring filled one entry at a time is first-in first-out.\<close>

lemma fill_rep:
  assumes "rep s r xs" "distinct es" "set es \<inter> insert r (set xs) = {}"
  shows "\<exists>s'. foldl (\<lambda>m e. gbind m (\<lambda>s. add_tail s e r)) (Ret s) es = Ret s' \<and> rep s' r (xs @ es)"
  using assms
proof (induction es arbitrary: s xs)
  case Nil
  then show ?case by auto
next
  case (Cons e es)
  then obtain s1 where "add_tail s e r = Ret s1" "rep s1 r (xs @ [e])"
    using add_tail_rep [of s r xs e] by auto
  then show ?case using Cons.IH [of s1 "xs @ [e]"] Cons.prems by auto
qed

end

interpretation ring: intrusive_lists dll same_outside
    "\<lambda>h r. InitListHead h (Some r)"
    "\<lambda>h e r. ListAddTail h (Some e) (Some r)"
    "\<lambda>h e. ListDel h (Some e)"
proof unfold_locales
  fix h h' h1 h2 :: "'a links" and r e and xs ys :: "'a list" and A B C
  show "dll h r xs \<Longrightarrow> distinct (r # xs)"
    by (simp add: dll_def)
  show "\<exists>h'. InitListHead h (Some r) = Ret h' \<and> dll h' r [] \<and> same_outside {r} h h'"
    by (rule InitListHead_Ret)
  show "dll h r xs \<Longrightarrow> e \<notin> insert r (set xs) \<Longrightarrow>
      \<exists>h'. ListAddTail h (Some e) (Some r) = Ret h' \<and> dll h' r (xs @ [e])
           \<and> same_outside ({e, r} \<union> set xs) h h'"
    by (rule ListAddTail_dll)
  show "dll h r (xs @ e # ys) \<Longrightarrow>
      \<exists>h'. ListDel h (Some e) = Ret h' \<and> dll h' r (xs @ ys)
           \<and> same_outside ({e, r} \<union> set (xs @ ys)) h h'"
    by (drule ListDel_dll) blast
  show "dll h e [] \<Longrightarrow> \<exists>h'. ListDel h (Some e) = Ret h' \<and> same_outside {e} h h'"
    by (drule ListDel_self) blast
  show "dll h r xs \<Longrightarrow> same_outside A h h' \<Longrightarrow> A \<inter> insert r (set xs) = {} \<Longrightarrow> dll h' r xs"
    by (rule dll_frame)
  show "same_outside A h h1 \<Longrightarrow> same_outside B h1 h2 \<Longrightarrow> A \<union> B \<subseteq> C \<Longrightarrow> same_outside C h h2"
    by (rule same_outside_trans)
qed

end
