(* ===== verification/Device.thy ===== *)
theory Device
  imports SbInfo
begin

text \<open>
  \<open>pkg/types/io.go\<close>: reads and writes of the image through system calls.  A file is its bytes
  together with what the kernel will answer: a script of responses to successive calls (a full
  transfer, a short one, an interruption, an error) followed by one response for ever.  Loops
  that depend on the kernel take their fuel from \<open>io_fuel\<close>.  The optional operation table of an
  \<open>ErofsVFile\<close> (\<open>pkg/types/file.go\<close>) is a record of functions supplied by the caller.
\<close>

section \<open>Files and system calls\<close>

datatype sysresp = Full | Part nat | Intr | Fail int

record osfile =
  f_data :: bytes
  f_script :: "sysresp list"
  f_rest :: sysresp
  f_isblk :: bool

definition next_resp :: "osfile \<Rightarrow> sysresp \<times> osfile" where
  "next_resp f = (case f_script f of [] \<Rightarrow> (f_rest f, f) | r # rs \<Rightarrow> (r, f\<lparr>f_script := rs\<rparr>))"

definition write_at :: "bytes \<Rightarrow> nat \<Rightarrow> bytes \<Rightarrow> bytes" where
  "write_at data p bs =
     (if bs = [] then data
      else splice (data @ replicate (p + length bs - length data) 0) p bs)"

definition read_at :: "bytes \<Rightarrow> nat \<Rightarrow> nat \<Rightarrow> bytes" where
  "read_at data p n = cut p n data"

text \<open>\<open>pwrite(2)\<close> and \<open>pread(2)\<close> as Go's \<open>syscall\<close> package returns them: a count (-1 on error)
  and an error.  A position that is negative as \<open>int64\<close> is \<open>EINVAL\<close>.\<close>

definition sys_pwrite :: "osfile \<Rightarrow> bytes \<Rightarrow> u64 \<Rightarrow> (int \<times> int option) \<times> osfile" where
  "sys_pwrite f buf pos =
     (if sint pos < 0 then ((-1, Some EINVAL), f)
      else let (r, f1) = next_resp f in
        case r of
          Full \<Rightarrow> ((int (length buf), None), f1\<lparr>f_data := write_at (f_data f1) (unat pos) buf\<rparr>)
        | Part k \<Rightarrow> ((int (min k (length buf)), None),
                     f1\<lparr>f_data := write_at (f_data f1) (unat pos) (take k buf)\<rparr>)
        | Intr \<Rightarrow> ((-1, Some EINTR), f1)
        | Fail e \<Rightarrow> ((-1, Some e), f1))"

definition sys_pread :: "osfile \<Rightarrow> nat \<Rightarrow> u64 \<Rightarrow> (bytes \<times> int option) \<times> osfile" where
  "sys_pread f want pos =
     (if sint pos < 0 then (([], Some EINVAL), f)
      else let (r, f1) = next_resp f in
        case r of
          Full \<Rightarrow> ((read_at (f_data f1) (unat pos) want, None), f1)
        | Part k \<Rightarrow> ((read_at (f_data f1) (unat pos) (min k want), None), f1)
        | Intr \<Rightarrow> (([], Some EINTR), f1)
        | Fail e \<Rightarrow> (([], Some e), f1))"

section \<open>Virtual files\<close>

record vfops =
  op_Pread :: "(osfile \<Rightarrow> bytes \<Rightarrow> u64 \<Rightarrow> u64 \<Rightarrow> (int \<times> bytes) \<times> osfile) option"
  op_Pwrite :: "(osfile \<Rightarrow> bytes \<Rightarrow> u64 \<Rightarrow> u64 \<Rightarrow> int \<times> osfile) option"
  op_Fallocate :: "(osfile \<Rightarrow> u64 \<Rightarrow> u64 \<Rightarrow> bool \<Rightarrow> int \<times> osfile) option"
  op_Ftruncate :: "(osfile \<Rightarrow> u64 \<Rightarrow> int \<times> osfile) option"
  op_Read :: "(osfile \<Rightarrow> bytes \<Rightarrow> u64 \<Rightarrow> (int \<times> bytes) \<times> osfile) option"
  op_Xcopy :: "(osfile \<Rightarrow> u64 \<Rightarrow> osfile \<Rightarrow> u64 \<Rightarrow> bool \<Rightarrow> int \<times> osfile) option"

record vfile =
  vf_Ops :: "vfops option"
  vf_Offset :: u64
  vf_file :: osfile

record io =
  io_fuel :: nat
  io_DryRun :: bool
  io_BDev :: vfile
  io_blobs :: "u32 \<Rightarrow> osfile"

text \<open>
  A Go slice that is written from: the backing array from the slice's start to its capacity, and
  the slice's length.  \<open>ErofsIoPwrite\<close> re-slices its buffer \<^emph>\<open>and\<close> indexes it by the running
  total: \<open>buf[written:length]\<close> after \<open>buf = buf[n:]\<close>.
\<close>

fun ErofsIoPwrite_loop ::
  "nat \<Rightarrow> bytes \<Rightarrow> nat \<Rightarrow> u64 \<Rightarrow> nat \<Rightarrow> int \<Rightarrow> osfile \<Rightarrow> ((int \<times> int option) \<times> osfile) go" where
  "ErofsIoPwrite_loop 0 arr blen pos written len f = NoFuel"
| "ErofsIoPwrite_loop (Suc k) arr blen pos written len f =
     (if \<not> int written < len then Ret ((int written, None), f)
      else if \<not> nat len \<le> length arr then Panic SliceBounds
      else let ((n, err), f1) = sys_pwrite f (cut written (nat len - written) arr) pos in
        if n = 0 then Ret ((int written, None), f1)
        else if n < 0 \<and> err \<noteq> None \<and> err \<noteq> Some EINTR then Ret ((int written, err), f1)
        else let m = nat n in
          if \<not> m \<le> blen then Panic SliceBounds
          else ErofsIoPwrite_loop k (drop m arr) (blen - m) (pos + of_nat m) (written + m) len f1)"

definition ErofsIoPwrite ::
  "nat \<Rightarrow> bool \<Rightarrow> vfile \<Rightarrow> bytes \<Rightarrow> nat \<Rightarrow> u64 \<Rightarrow> int \<Rightarrow> ((int \<times> int option) \<times> vfile) go" where
  "ErofsIoPwrite fuel dry vf arr blen pos len =
     (if dry then Ret ((0, None), vf)
      else case vf_Ops vf of
        Some ops \<Rightarrow> gbind (deref (op_Pwrite ops)) (\<lambda>pwrite.
          let (r, f1) = pwrite (vf_file vf) (take blen arr) pos (of_int len)
          in Ret ((r, None), vf\<lparr>vf_file := f1\<rparr>))
      | None \<Rightarrow>
          gbind (ErofsIoPwrite_loop fuel arr blen (pos + vf_Offset vf) 0 len (vf_file vf))
            (\<lambda>(r, f1). Ret (r, vf\<lparr>vf_file := f1\<rparr>)))"

fun ErofsIoPread_loop ::
  "nat \<Rightarrow> bytes \<Rightarrow> u64 \<Rightarrow> nat \<Rightarrow> int \<Rightarrow> osfile \<Rightarrow> ((int \<times> int option) \<times> bytes \<times> osfile) go" where
  "ErofsIoPread_loop 0 buf pos totalRead len f = NoFuel"
| "ErofsIoPread_loop (Suc k) buf pos totalRead len f =
     (if \<not> int totalRead < len then Ret ((int totalRead, None), buf, f)
      else if \<not> totalRead \<le> length buf then Panic SliceBounds
      else let ((bs, err), f1) = sys_pread f (length buf - totalRead) pos in
        case err of
          Some e \<Rightarrow> if e = EINTR then ErofsIoPread_loop k buf pos totalRead len f1
                    else Ret ((int totalRead, Some e), buf, f1)
        | None \<Rightarrow>
            if bs = [] then Ret ((int totalRead, None), buf, f1)
            else ErofsIoPread_loop k (splice buf totalRead bs) (pos + of_nat (length bs))
                   (totalRead + length bs) len f1)"

definition ErofsIoPread ::
  "nat \<Rightarrow> bool \<Rightarrow> vfile \<Rightarrow> bytes \<Rightarrow> u64 \<Rightarrow> int \<Rightarrow> ((int \<times> int option) \<times> bytes \<times> vfile) go" where
  "ErofsIoPread fuel dry vf buf pos len =
     (if dry then Ret ((0, None), buf, vf)
      else case Option.bind (vf_Ops vf) op_Pread of
        Some pread \<Rightarrow> let ((r, buf1), f1) = pread (vf_file vf) buf pos (of_int len)
                      in Ret ((r, None), buf1, vf\<lparr>vf_file := f1\<rparr>)
      | None \<Rightarrow>
          gbind (ErofsIoPread_loop fuel buf (pos + vf_Offset vf) 0 len (vf_file vf))
            (\<lambda>(r, buf1, f1). Ret (r, buf1, vf\<lparr>vf_file := f1\<rparr>)))"

text \<open>
  \<open>ErofsIoRead\<close>: sequential reads at the file offset \<open>fpos\<close> that the descriptor keeps.  After an
  interruption \<open>n = -1\<close> is \<^emph>\<open>added\<close> to the running index.
\<close>

definition chunk_of :: "int \<Rightarrow> int" where
  "chunk_of n = (if n > 2147483647 then 2147483647 else n)"

fun ErofsIoRead_loop ::
  "nat \<Rightarrow> bytes \<Rightarrow> nat \<Rightarrow> int \<Rightarrow> int \<Rightarrow> osfile
     \<Rightarrow> ((int \<times> int option) \<times> bytes \<times> nat \<times> osfile) go" where
  "ErofsIoRead_loop 0 buf fpos i n f = NoFuel"
| "ErofsIoRead_loop (Suc k) buf fpos i n f =
     (if \<not> n > 0 then Ret ((i, None), buf, fpos, f)
      else if i < 0 \<or> i + chunk_of n > int (length buf) then Panic SliceBounds
      else let ((bs, err), f1) = sys_pread f (nat (chunk_of n)) (of_nat fpos) in
        case err of
          Some e \<Rightarrow> if e \<noteq> EINTR then Ret ((i, Some e), buf, fpos, f1)
                    else ErofsIoRead_loop k buf fpos (i - 1) (n + 1) f1
        | None \<Rightarrow>
            if bs = [] then Ret ((i, None), buf, fpos, f1)
            else ErofsIoRead_loop k (splice buf (nat i) bs) (fpos + length bs)
                   (i + int (length bs)) (n - int (length bs)) f1)"

definition ErofsIoRead ::
  "nat \<Rightarrow> vfile \<Rightarrow> nat \<Rightarrow> bytes \<Rightarrow> int \<Rightarrow> ((int \<times> int option) \<times> bytes \<times> nat \<times> vfile) go" where
  "ErofsIoRead fuel vf fpos buf n =
     (case vf_Ops vf of
        Some ops \<Rightarrow> gbind (deref (op_Read ops)) (\<lambda>read.
          let ((r, buf1), f1) = read (vf_file vf) buf (of_int n)
          in Ret ((r, None), buf1, fpos, vf\<lparr>vf_file := f1\<rparr>))
      | None \<Rightarrow> gbind (ErofsIoRead_loop fuel buf fpos 0 n (vf_file vf))
          (\<lambda>(r, buf1, fpos1, f1). Ret (r, buf1, fpos1, vf\<lparr>vf_file := f1\<rparr>)))"

text \<open>Zero-filling: whole blocks of \<open>EROFS_MAX_BLOCK_SIZE\<close>, then the rest; the error of the
  whole-block writes is discarded.\<close>

definition zero_block :: bytes where
  "zero_block = replicate (unat EROFS_MAX_BLOCK_SIZE) 0"

fun ErofsIoFallocate_loop ::
  "nat \<Rightarrow> nat \<Rightarrow> vfile \<Rightarrow> u64 \<Rightarrow> u64 \<Rightarrow> (int \<times> vfile) go" where
  "ErofsIoFallocate_loop 0 fuel vf off len = NoFuel"
| "ErofsIoFallocate_loop (Suc k) fuel vf off len =
     (if len > ucast EROFS_MAX_BLOCK_SIZE
      then gbind (ErofsIoPwrite fuel False vf zero_block (length zero_block) off
                    (uint EROFS_MAX_BLOCK_SIZE)) (\<lambda>((ret, err), vf1).
        if ret < 0 then Ret (ret, vf1)
        else ErofsIoFallocate_loop k fuel vf1 (off + of_int ret) (len - of_int ret))
      else gbind (ErofsIoPwrite fuel False vf zero_block (length zero_block) off (uint len))
        (\<lambda>((written, err), vf1).
          Ret (if err = None \<and> written = uint len then 0 else - EIO, vf1)))"

definition ErofsIoFallocate ::
  "nat \<Rightarrow> bool \<Rightarrow> vfile \<Rightarrow> u64 \<Rightarrow> u64 \<Rightarrow> bool \<Rightarrow> (int \<times> vfile) go" where
  "ErofsIoFallocate fuel dry vf off len zeroout =
     (if dry then Ret (0, vf)
      else case vf_Ops vf of
        Some ops \<Rightarrow> gbind (deref (op_Fallocate ops)) (\<lambda>fallocate.
          let (r, f1) = fallocate (vf_file vf) off len zeroout in Ret (r, vf\<lparr>vf_file := f1\<rparr>))
      | None \<Rightarrow> ErofsIoFallocate_loop fuel fuel vf off len)"

text \<open>\<open>fstat\<close> and \<open>ftruncate\<close> answer from the same script; a short or interrupted answer is an
  error for both.\<close>

definition sys_ok :: "osfile \<Rightarrow> bool \<times> osfile" where
  "sys_ok f = (let (r, f1) = next_resp f in (r = Full, f1))"

definition resize :: "bytes \<Rightarrow> nat \<Rightarrow> bytes" where
  "resize data n = take n data @ replicate (n - length data) 0"

definition ErofsIoFtruncate :: "bool \<Rightarrow> vfile \<Rightarrow> u64 \<Rightarrow> (int \<times> vfile) go" where
  "ErofsIoFtruncate dry vf len =
     (if dry then Ret (0, vf)
      else case vf_Ops vf of
        Some ops \<Rightarrow> gbind (deref (op_Ftruncate ops)) (\<lambda>ftruncate.
          let (r, f1) = ftruncate (vf_file vf) len in Ret (r, vf\<lparr>vf_file := f1\<rparr>))
      | None \<Rightarrow>
          let (ok, f1) = sys_ok (vf_file vf) in
          if \<not> ok then Ret (-1, vf\<lparr>vf_file := f1\<rparr>)
          else let len1 = len + vf_Offset vf in
            if f_isblk f1 \<or> of_nat (length (f_data f1)) = len1 then Ret (0, vf\<lparr>vf_file := f1\<rparr>)
            else let (ok2, f2) = sys_ok f1 in
              if \<not> ok2 \<or> sint len1 < 0 then Ret (-1, vf\<lparr>vf_file := f2\<rparr>)
              else Ret (0, vf\<lparr>vf_file := f2\<lparr>f_data := resize (f_data f2) (unat len1)\<rparr>\<rparr>))"

section \<open>Device access\<close>

definition ErofsDevWrite :: "io \<Rightarrow> bytes \<Rightarrow> nat \<Rightarrow> u64 \<Rightarrow> int \<Rightarrow> (int \<times> io) go" where
  "ErofsDevWrite w arr blen off len =
     gbind (ErofsIoPwrite (io_fuel w) (io_DryRun w) (io_BDev w) arr blen off len)
       (\<lambda>((written, err), vf). Ret (if written \<noteq> len then - EIO else 0, w\<lparr>io_BDev := vf\<rparr>))"

definition ErofsDevFillzero :: "io \<Rightarrow> u64 \<Rightarrow> u64 \<Rightarrow> bool \<Rightarrow> (int \<times> io) go" where
  "ErofsDevFillzero w off len pad =
     gbind (ErofsIoFallocate (io_fuel w) (io_DryRun w) (io_BDev w) off len pad)
       (\<lambda>(r, vf). Ret (r, w\<lparr>io_BDev := vf\<rparr>))"

definition ErofsDevResize :: "sbinfo \<Rightarrow> io \<Rightarrow> u32 \<Rightarrow> (int \<times> io) go" where
  "ErofsDevResize sbi w blocks =
     gbind (ErofsIoFtruncate (io_DryRun w) (io_BDev w) (ucast blocks * ucast (ErofsBlkSiz sbi)))
       (\<lambda>(r, vf). Ret (r, w\<lparr>io_BDev := vf\<rparr>))"

text \<open>\<open>ErofsDevRead\<close> returns \<open>(value, error)\<close>; a device number above 0 names a blob file.\<close>

definition ErofsDevRead ::
  "sbinfo \<Rightarrow> io \<Rightarrow> int \<Rightarrow> bytes \<Rightarrow> u64 \<Rightarrow> int \<Rightarrow> ((int \<times> int option) \<times> bytes \<times> io) go" where
  "ErofsDevRead sbi w deviceID buf off len =
     (if deviceID > 0 \<and> deviceID > uint (NBlobs sbi) then Ret ((0, Some EIO), buf, w)
      else
        gbind (if deviceID > 0
               then gbind (gguard (nat (deviceID - 1) < length (BlobFd sbi)) IndexRange) (\<lambda>_.
                 let fd = BlobFd sbi ! nat (deviceID - 1) in
                 gbind (ErofsIoPread (io_fuel w) (io_DryRun w)
                          \<lparr>vf_Ops = None, vf_Offset = 0, vf_file = io_blobs w fd\<rparr> buf off len)
                   (\<lambda>(r, buf1, vf). Ret (r, buf1, w\<lparr>io_blobs := (io_blobs w)(fd := vf_file vf)\<rparr>)))
               else gbind (ErofsIoPread (io_fuel w) (io_DryRun w) (io_BDev w) buf off len)
                 (\<lambda>(r, buf1, vf). Ret (r, buf1, w\<lparr>io_BDev := vf\<rparr>)))
          (\<lambda>((read, err), buf1, w1).
             if err \<noteq> None then Ret ((read, err), buf1, w1)
             else if read < len
             then gbind (gguard (nat len \<le> length buf1) IndexRange) (\<lambda>_.
               Ret ((0, None), splice buf1 (nat read) (replicate (nat len - nat read) 0), w1))
             else Ret ((0, None), buf1, w1)))"

definition ErofsBlkRead ::
  "sbinfo \<Rightarrow> io \<Rightarrow> int \<Rightarrow> bytes \<Rightarrow> u32 \<Rightarrow> u32 \<Rightarrow> (int \<times> bytes \<times> io) go" where
  "ErofsBlkRead sbi w deviceID buf start nblocks =
     gbind (ErofsDevRead sbi w deviceID buf (ErofsPos sbi (ucast start))
              (sint (ErofsPos sbi (ucast nblocks))))
       (\<lambda>((i, err), buf1, w1). Ret (i, buf1, w1))"

definition ErofsBlkWrite ::
  "sbinfo \<Rightarrow> io \<Rightarrow> bytes \<Rightarrow> nat \<Rightarrow> u32 \<Rightarrow> u32 \<Rightarrow> (int \<times> io) go" where
  "ErofsBlkWrite sbi w arr blen blkAddr nblocks =
     ErofsDevWrite w arr blen (ErofsPos sbi (ucast blkAddr)) (sint (ErofsPos sbi (ucast nblocks)))"

section \<open>Lemmas: bytes of a file\<close>

lemma length_write_at: "length (write_at data p bs) = (if bs = [] then length data else max (length data) (p + length bs))"
  by (auto simp: write_at_def splice_def)

lemma write_at_Nil [simp]: "write_at data p [] = data"
  by (simp add: write_at_def)

text \<open>The image as an infinite sequence of bytes, zero beyond the end of the file.\<close>

definition byte_at :: "bytes \<Rightarrow> nat \<Rightarrow> byte" where
  "byte_at data i = (if i < length data then data ! i else 0)"

lemma byte_at_write_at:
  "byte_at (write_at data p bs) i = (if p \<le> i \<and> i < p + length bs then bs ! (i - p) else byte_at data i)"
proof (cases "bs = []")
  case False
  let ?z = "data @ replicate (p + length bs - length data) 0"
  have "byte_at (splice ?z p bs) i = (if p \<le> i \<and> i < p + length bs then bs ! (i - p) else byte_at ?z i)"
    by (auto simp: byte_at_def nth_splice)
  moreover have "byte_at ?z i = byte_at data i"
    by (auto simp: byte_at_def nth_append)
  ultimately show ?thesis using False by (simp add: write_at_def)
next
  case True
  then have "\<not> (p \<le> i \<and> i < p + length bs)" by simp
  with True show ?thesis by (simp only: write_at_Nil if_False)
qed

definition padded :: "bytes \<Rightarrow> nat \<Rightarrow> nat \<Rightarrow> bytes" where
  "padded data p n = map (byte_at data) [p..<p + n]"

lemma length_padded [simp, buf_simps]: "length (padded data p n) = n"
  by (simp add: padded_def)

lemma nth_padded: "i < n \<Longrightarrow> padded data p n ! i = byte_at data (p + i)"
  by (simp add: padded_def)

lemma padded_write_at_same: "padded (write_at data p bs) p (length bs) = bs"
  by (rule nth_equalityI) (auto simp: nth_padded byte_at_write_at)

lemma padded_write_at_other:
  "q + n \<le> p \<or> p + length bs \<le> q \<Longrightarrow> padded (write_at data p bs) q n = padded data q n"
  by (rule nth_equalityI) (auto simp: nth_padded byte_at_write_at)

lemma cut_padded: "i + m \<le> n \<Longrightarrow> cut i m (padded data p n) = padded data (p + i) m"
  by (rule nth_equalityI) (auto simp: cut_def nth_padded add.assoc)

lemma read_at_padded: "read_at data p n = take (length data - p) (padded data p n)"
  by (rule nth_equalityI) (auto simp: read_at_def cut_def nth_padded byte_at_def)

lemma write_at_shape:
  assumes "length bs = n" "0 < n"
  shows "write_at data p bs = padded data 0 p @ bs @ drop (p + n) data"
proof (rule nth_equalityI)
  show "length (write_at data p bs) = length (padded data 0 p @ bs @ drop (p + n) data)"
    using assms by (auto simp: length_write_at)
  fix i assume i: "i < length (write_at data p bs)"
  have "write_at data p bs ! i = byte_at (write_at data p bs) i" using i by (simp add: byte_at_def)
  also have "\<dots> = (padded data 0 p @ bs @ drop (p + n) data) ! i"
    using i assms unfolding byte_at_write_at
    by (auto simp: nth_append nth_padded length_write_at byte_at_def add.commute split: if_splits)
  finally show "write_at data p bs ! i = (padded data 0 p @ bs @ drop (p + n) data) ! i" .
qed

section \<open>Lemmas: the write loop\<close>

lemma sint_nonneg_of_nat:
  assumes "n < 2 ^ 63"
  shows "0 \<le> sint (of_nat n :: u64)"
proof -
  have "int n < 2 ^ 63" using assms by (simp flip: of_nat_power)
  then show ?thesis by (simp add: sint_uint bit_iff_odd unsigned_of_nat take_bit_eq_mod)
qed

lemma sys_pwrite_script:
  assumes "0 \<le> sint pos" "f_script f = r # rs"
  shows "sys_pwrite f buf pos =
     (case r of
        Full \<Rightarrow> ((int (length buf), None), f\<lparr>f_script := rs, f_data := write_at (f_data f) (unat pos) buf\<rparr>)
      | Part k \<Rightarrow> ((int (min k (length buf)), None),
                   f\<lparr>f_script := rs, f_data := write_at (f_data f) (unat pos) (take k buf)\<rparr>)
      | Intr \<Rightarrow> ((-1, Some EINTR), f\<lparr>f_script := rs\<rparr>)
      | Fail e \<Rightarrow> ((-1, Some e), f\<lparr>f_script := rs\<rparr>))"
  using assms by (simp add: sys_pwrite_def next_resp_def split: sysresp.splits)

lemma sys_pwrite_rest:
  assumes "0 \<le> sint pos" "f_script f = []" "f_rest f = Full"
  shows "sys_pwrite f buf pos =
     ((int (length buf), None), f\<lparr>f_data := write_at (f_data f) (unat pos) buf\<rparr>)"
  using assms by (simp add: sys_pwrite_def next_resp_def)

lemma ErofsIoPwrite_loop_done:
  "len \<le> int written \<Longrightarrow> 0 < k \<Longrightarrow>
     ErofsIoPwrite_loop k arr blen pos written len f = Ret ((int written, None), f)"
  by (cases k) auto

text \<open>A kernel that never splits a transfer: interruptions are retried, everything is written.\<close>

lemma ErofsIoPwrite_loop_step:
  assumes "int written < len" "nat len \<le> length arr"
    and "sys_pwrite f (cut written (nat len - written) arr) pos = ((int m, None), f1)"
    and "0 < m" "m \<le> blen"
  shows "ErofsIoPwrite_loop (Suc k) arr blen pos written len f
       = ErofsIoPwrite_loop k (drop m arr) (blen - m) (pos + of_nat m) (written + m) len f1"
  using assms by simp

lemma ErofsIoPwrite_loop_over:
  "int written < len \<Longrightarrow> length arr < nat len \<Longrightarrow>
     ErofsIoPwrite_loop (Suc k) arr blen pos written len f = Panic SliceBounds"
  by simp

lemma ErofsIoPwrite_loop_full:
  assumes "set (f_script f) \<subseteq> {Full, Intr}" "f_rest f = Full" "length (f_script f) + 2 \<le> k"
    and "0 \<le> sint pos" "0 < len" "nat len \<le> blen" "nat len \<le> length arr"
  shows "\<exists>f'. ErofsIoPwrite_loop k arr blen pos 0 len f = Ret ((len, None), f')
           \<and> f_data f' = write_at (f_data f) (unat pos) (take (nat len) arr)
           \<and> set (f_script f') \<subseteq> {Full, Intr} \<and> f_rest f' = Full \<and> f_isblk f' = f_isblk f
           \<and> length (f_script f') \<le> length (f_script f)"
  using assms
proof (induction k arbitrary: f)
  case (Suc k)
  have k: "0 < k" using Suc.prems(3) by simp
  have fin: "ErofsIoPwrite_loop k (drop (nat len) arr) (blen - nat len) q (nat len) len g
      = Ret ((len, None), g)" for q g
    using ErofsIoPwrite_loop_done [of len "nat len" k] k Suc.prems(5) by simp
  have cutl: "cut 0 (nat len) arr = take (nat len) arr" "length (take (nat len) arr) = nat len"
    using Suc.prems(7) by (simp_all add: cut_def min_absorb2)
  show ?case
  proof (cases "f_script f")
    case Nil
    then show ?thesis using Suc.prems fin cutl by (simp add: sys_pwrite_rest)
  next
    case (Cons r rs)
    have "r = Full \<or> r = Intr" using Suc.prems(1) Cons by auto
    then show ?thesis
    proof
      assume "r = Full"
      then show ?thesis using Suc.prems fin cutl Cons by (simp add: sys_pwrite_script)
    next
      assume r: "r = Intr"
      have "\<exists>f'. ErofsIoPwrite_loop k arr blen pos 0 len (f\<lparr>f_script := rs\<rparr>) = Ret ((len, None), f')
           \<and> f_data f' = write_at (f_data f) (unat pos) (take (nat len) arr)
           \<and> set (f_script f') \<subseteq> {Full, Intr} \<and> f_rest f' = Full \<and> f_isblk f' = f_isblk f
           \<and> length (f_script f') \<le> length rs"
        using Suc.IH [of "f\<lparr>f_script := rs\<rparr>"] Suc.prems Cons by simp
      then show ?thesis using Suc.prems Cons r by (auto simp: sys_pwrite_script)
    qed
  qed
qed simp

text \<open>
  A short write of \<open>n\<close> bytes: the next round takes its bytes from \<open>2 n\<close>, not from \<open>n\<close>, or
  runs past the capacity.
\<close>

lemma ErofsIoPwrite_loop_short:
  assumes script: "f_script f = [Part n]" "f_rest f = Full" and n: "0 < n" "n < nat len"
    and pos: "unat pos + n < 2 ^ 63" and buf: "nat len \<le> blen" "nat len \<le> length arr"
  shows "ErofsIoPwrite_loop (Suc (Suc (Suc k))) arr blen pos 0 len f =
     (if nat len + n \<le> length arr
      then Ret ((len, None), f\<lparr>f_script := [], f_data :=
             write_at (write_at (f_data f) (unat pos) (take n arr)) (unat pos + n)
               (cut (2 * n) (nat len - n) arr)\<rparr>)
      else Panic SliceBounds)"
proof -
  define q where "q = pos + of_nat n"
  have un: "unat q = unat pos + n"
    using pos by (simp add: q_def unat_add_lem [THEN iffD1] unsigned_of_nat take_bit_nat_eq_self)
  have "pos = of_nat (unat pos)" "q = of_nat (unat pos + n)" by (simp_all add: q_def)
  then have sgn: "0 \<le> sint pos" "0 \<le> sint q"
    using pos sint_nonneg_of_nat [of "unat pos"] sint_nonneg_of_nat [of "unat pos + n"] by auto
  let ?f1 = "f\<lparr>f_script := [], f_data := write_at (f_data f) (unat pos) (take n arr)\<rparr>"
  have first: "sys_pwrite f (cut 0 (nat len) arr) pos = ((int n, None), ?f1)"
    using sys_pwrite_script [OF sgn(1) script(1), of "cut 0 (nat len) arr"] n buf
    by (simp add: cut_def min_absorb1 min_absorb2)
  have second: "sys_pwrite ?f1 (cut n (nat len - n) (drop n arr)) q
      = ((int (nat len - n), None),
         ?f1\<lparr>f_data := write_at (f_data ?f1) (unat pos + n) (cut (2 * n) (nat len - n) arr)\<rparr>)"
    if "nat len + n \<le> length arr"
    using sys_pwrite_rest [OF sgn(2), of ?f1 "cut n (nat len - n) (drop n arr)"] script that un n
    by (simp add: cut_def mult_2)
  have "ErofsIoPwrite_loop (Suc (Suc (Suc k))) arr blen pos 0 len f
      = ErofsIoPwrite_loop (Suc (Suc k)) (drop n arr) (blen - n) q n len ?f1"
    using n buf first ErofsIoPwrite_loop_step [of 0 len arr f pos n ?f1 blen "Suc (Suc k)"]
    by (auto simp: q_def simp del: ErofsIoPwrite_loop.simps)
  also have "\<dots> = (if nat len + n \<le> length arr
      then Ret ((len, None), f\<lparr>f_script := [], f_data :=
             write_at (write_at (f_data f) (unat pos) (take n arr)) (unat pos + n)
               (cut (2 * n) (nat len - n) arr)\<rparr>)
      else Panic SliceBounds)"
  proof (cases "nat len + n \<le> length arr")
    case True
    have "ErofsIoPwrite_loop (Suc (Suc k)) (drop n arr) (blen - n) q n len ?f1
        = ErofsIoPwrite_loop (Suc k) (drop (nat len - n) (drop n arr)) (blen - n - (nat len - n))
            (q + of_nat (nat len - n)) (n + (nat len - n)) len
            (?f1\<lparr>f_data := write_at (f_data ?f1) (unat pos + n) (cut (2 * n) (nat len - n) arr)\<rparr>)"
      using n buf True by (intro ErofsIoPwrite_loop_step second) auto
    with True n show ?thesis by simp
  next
    case False
    then show ?thesis
      using n by (simp only: if_False) (rule ErofsIoPwrite_loop_over; simp)
  qed
  finally show ?thesis .
qed

section \<open>Lemmas: the read loop\<close>

lemma unat_add_small:
  "unat (p :: u64) + n < 2 ^ 64 \<Longrightarrow> unat (p + of_nat n) = unat p + n"
  by (simp add: unat_add_lem [THEN iffD1] unsigned_of_nat take_bit_nat_eq_self)

lemma sint_nonneg: "unat (p :: u64) < 2 ^ 63 \<Longrightarrow> 0 \<le> sint p"
  using sint_nonneg_of_nat [of "unat p"] by simp

definition reads_ok :: "sysresp \<Rightarrow> bool" where
  "reads_ok r \<longleftrightarrow> (case r of Full \<Rightarrow> True | Intr \<Rightarrow> True | Part k \<Rightarrow> 0 < k | Fail e \<Rightarrow> False)"


lemma length_read_at: "length (read_at data p n) = min n (length data - p)"
  by (simp add: read_at_def cut_def min.commute)

lemma read_at_append:
  "read_at data p t @ read_at data (p + t) n = read_at data p (t + length (read_at data (p + t) n))"
proof -
  have "read_at data p t @ read_at data (p + t) n = read_at data p (t + n)"
    using take_add [of t n "drop p data"] by (simp add: read_at_def cut_def add.commute)
  also have "\<dots> = read_at data p (t + length (read_at data (p + t) n))"
    by (rule nth_equalityI) (auto simp: read_at_def cut_def)
  finally show ?thesis .
qed

lemma splice_read_at:
  assumes "t \<le> length data - p" "t \<le> length buf"
  shows "splice (splice buf 0 (read_at data p t)) t (read_at data (p + t) n)
       = splice buf 0 (read_at data p (t + length (read_at data (p + t) n)))"
  using splice_append_cuts [of 0 "read_at data p t" buf] assms
  unfolding read_at_append [symmetric] by (simp add: length_read_at min_absorb1)

lemma sys_pread_data:
  assumes "0 \<le> sint pos" "next_resp f = (r, f1)" "reads_ok r" "r \<noteq> Intr"
  shows "\<exists>w. sys_pread f want pos = ((read_at (f_data f1) (unat pos) w, None), f1)
           \<and> w \<le> want \<and> (0 < want \<longrightarrow> 0 < w) \<and> (r = Full \<longrightarrow> w = want)"
  using assms by (cases r) (auto simp: sys_pread_def reads_ok_def)

lemma next_resp_facts:
  assumes "next_resp f = (r, f1)"
  shows "f_data f1 = f_data f" "f_rest f1 = f_rest f" "f_isblk f1 = f_isblk f"
    and "f_script f = [] \<Longrightarrow> r = f_rest f \<and> f1 = f"
    and "f_script f \<noteq> [] \<Longrightarrow> f_script f = r # f_script f1"
  using assms by (auto simp: next_resp_def split: list.splits)

text \<open>What a read of \<open>len\<close> bytes has done when the loop stops after \<open>m\<close> bytes in state \<open>f'\<close>.\<close>

definition read_done :: "osfile \<Rightarrow> bytes \<Rightarrow> nat \<Rightarrow> int \<Rightarrow> nat \<Rightarrow> osfile \<Rightarrow> bool" where
  "read_done f buf p len m f' \<longleftrightarrow>
     m \<le> length buf \<and> m \<le> length (f_data f) - p
     \<and> min (nat len) (min (length buf) (length (f_data f) - p)) \<le> m
     \<and> f_data f' = f_data f \<and> f_rest f' = f_rest f \<and> f_isblk f' = f_isblk f
     \<and> set (f_script f') \<subseteq> set (f_script f) \<and> length (f_script f') \<le> length (f_script f)"

lemma read_done_step:
  assumes "next_resp f = (r, f1)" "read_done f1 buf p len m f'"
  shows "read_done f buf p len m f'"
  using assms next_resp_facts [OF assms(1)]
  by (cases "f_script f") (auto simp: read_done_def)

lemma ErofsIoPread_loop_read:
  assumes "\<forall>r\<in>set (f_script f). reads_ok r" "f_rest f = Full"
    and "length (f_script f) + (if t = length buf0 \<or> length (f_data f) \<le> p + t then 2 else 3) \<le> k"
    and "unat pos = p + t" "p + length buf0 < 2 ^ 63"
    and "t \<le> length buf0" "t \<le> length (f_data f) - p"
  shows "\<exists>m f'. ErofsIoPread_loop k (splice buf0 0 (read_at (f_data f) p t)) pos t len f
             = Ret ((int m, None), splice buf0 0 (read_at (f_data f) p m), f')
           \<and> read_done f buf0 p len m f'"
  using assms
proof (induction k arbitrary: f t pos)
  case (Suc k)
  let ?buf = "splice buf0 0 (read_at (f_data f) p t)"
  have lb: "length ?buf = length buf0"
    using Suc.prems(6,7) by (intro length_splice) (simp add: length_read_at)
  show ?case
  proof (cases "int t < len")
    case False
    then show ?thesis
      using Suc.prems by (intro exI [of _ t] exI [of _ f]) (auto simp: read_done_def)
  next
    case True
    obtain r f1 where nr: "next_resp f = (r, f1)" by (cases "next_resp f")
    note nf = next_resp_facts [OF nr]
    have rok: "reads_ok r" "\<forall>r\<in>set (f_script f1). reads_ok r"
      using nf(4,5) Suc.prems(1,2) by (cases "f_script f"; auto simp: reads_ok_def)+
    have pos: "0 \<le> sint pos" using Suc.prems(4-6) by (intro sint_nonneg) simp
    show ?thesis
    proof (cases "r = Intr")
      case intr: True
      have ne: "f_script f \<noteq> []" using nf(4) intr Suc.prems(2) by auto
      have "length (f_script f) = Suc (length (f_script f1))" using arg_cong [OF nf(5) [OF ne], of length] by simp
      then have fuel: "length (f_script f1) +
          (if t = length buf0 \<or> length (f_data f1) \<le> p + t then 2 else 3) \<le> k"
        using Suc.prems(3) nf(1) by simp
      have "\<exists>m f'. ErofsIoPread_loop k (splice buf0 0 (read_at (f_data f1) p t)) pos t len f1
             = Ret ((int m, None), splice buf0 0 (read_at (f_data f1) p m), f')
           \<and> read_done f1 buf0 p len m f'"
        by (rule Suc.IH [OF rok(2) _ fuel]) (use Suc.prems in \<open>simp_all add: nf(1,2)\<close>)
      then have "\<exists>m f'. ErofsIoPread_loop k ?buf pos t len f1
             = Ret ((int m, None), splice buf0 0 (read_at (f_data f) p m), f')
           \<and> read_done f1 buf0 p len m f'"
        unfolding nf(1) .
      moreover have "ErofsIoPread_loop (Suc k) ?buf pos t len f = ErofsIoPread_loop k ?buf pos t len f1"
        using True lb Suc.prems(6) pos intr nr by (simp add: sys_pread_def)
      ultimately show ?thesis using read_done_step [OF nr] by metis
    next
      case False
      obtain w where w: "sys_pread f (length buf0 - t) pos = ((read_at (f_data f) (p + t) w, None), f1)"
          "w \<le> length buf0 - t" "0 < length buf0 - t \<longrightarrow> 0 < w"
          "r = Full \<longrightarrow> w = length buf0 - t"
        using sys_pread_data [OF pos nr rok(1) False, of "length buf0 - t"] nf(1) Suc.prems(4) by auto
      let ?bs = "read_at (f_data f) (p + t) w"
      show ?thesis
      proof (cases "?bs = []")
        case True
        then have "min w (length (f_data f) - (p + t)) = 0"
          using length_read_at [of "f_data f" "p + t" w] by simp
        then have "read_done f1 buf0 p len t f1"
          using w(3) Suc.prems(6,7) nf(1) by (auto simp: read_done_def)
        with True show ?thesis
          using \<open>int t < len\<close> lb Suc.prems(6) w(1) read_done_step [OF nr]
          by (intro exI [of _ t] exI [of _ f1]) simp
      next
        case ne: False
        let ?t = "t + length ?bs"
        have l: "length ?bs = min w (length (f_data f) - (p + t))" by (rule length_read_at)
        have sp: "splice ?buf t ?bs = splice buf0 0 (read_at (f_data f) p ?t)"
          using Suc.prems(6,7) by (intro splice_read_at) simp_all
        have up: "unat (pos + of_nat (length ?bs)) = p + ?t"
          using Suc.prems(4,5,6) l w(2) by (subst unat_add_small) auto
        have fuel: "length (f_script f1) +
             (if ?t = length buf0 \<or> length (f_data f) \<le> p + ?t then 2 else 3) \<le> k"
        proof (cases "f_script f = []")
          case True
          then have "w = length buf0 - t" "f1 = f" using nf(4) w(4) Suc.prems(2) by auto
          then have "?t = length buf0 \<or> length (f_data f) \<le> p + ?t" using l Suc.prems(6) by auto
          moreover have "\<not> (t = length buf0 \<or> length (f_data f) \<le> p + t)"
            using ne l w(2) by auto
          ultimately show ?thesis using Suc.prems(3) \<open>f1 = f\<close> by auto
        next
          case False
          then have "length (f_script f) = Suc (length (f_script f1))" using nf(5) by simp
          moreover have "\<not> (t = length buf0 \<or> length (f_data f) \<le> p + t)"
            using ne l w(2) by auto
          ultimately show ?thesis using Suc.prems(3) by auto
        qed
        have "\<exists>m f'. ErofsIoPread_loop k (splice buf0 0 (read_at (f_data f1) p ?t))
                (pos + of_nat (length ?bs)) ?t len f1
             = Ret ((int m, None), splice buf0 0 (read_at (f_data f1) p m), f')
           \<and> read_done f1 buf0 p len m f'"
        proof (rule Suc.IH)
          show "length (f_script f1) +
             (if ?t = length buf0 \<or> length (f_data f1) \<le> p + ?t then 2 else 3) \<le> k"
            using fuel nf(1) by simp
          show "?t \<le> length buf0" "?t \<le> length (f_data f1) - p"
            using l w(2) Suc.prems(6,7) nf(1) by auto
        qed (use rok nf(2) Suc.prems(2,5) up in simp_all)
        moreover have "ErofsIoPread_loop (Suc k) ?buf pos t len f
            = ErofsIoPread_loop k (splice buf0 0 (read_at (f_data f) p ?t))
                (pos + of_nat (length ?bs)) ?t len f1"
          using \<open>int t < len\<close> lb Suc.prems(6) w(1) ne sp by simp
        ultimately show ?thesis using read_done_step [OF nr] nf(1) by metis
      qed
    qed
  qed
qed (simp split: if_splits)


section \<open>The device as a store of bytes\<close>

text \<open>
  A plain image file that the kernel serves in whole transfers, possibly interrupted: no dry
  run, no operation table, no offset, and fuel for one round per scripted answer and three more.
\<close>

definition dev_ready :: "io \<Rightarrow> bool" where
  "dev_ready w \<longleftrightarrow> \<not> io_DryRun w \<and> vf_Ops (io_BDev w) = None \<and> vf_Offset (io_BDev w) = 0
     \<and> set (f_script (vf_file (io_BDev w))) \<subseteq> {Full, Intr}
     \<and> f_rest (vf_file (io_BDev w)) = Full
     \<and> length (f_script (vf_file (io_BDev w))) + 3 \<le> io_fuel w"

definition dev_data :: "io \<Rightarrow> bytes" where
  "dev_data w = f_data (vf_file (io_BDev w))"

definition dev_script :: "io \<Rightarrow> sysresp list" where
  "dev_script w = f_script (vf_file (io_BDev w))"

definition dev_isblk :: "io \<Rightarrow> bool" where
  "dev_isblk w = f_isblk (vf_file (io_BDev w))"

lemma ErofsDevWrite_ready:
  assumes "dev_ready w" "unat off < 2 ^ 63" "n \<le> blen" "blen \<le> length arr" "take n arr = bs"
  shows "\<exists>w'. ErofsDevWrite w arr blen off (int n) = Ret (0, w') \<and> dev_ready w'
           \<and> dev_data w' = write_at (dev_data w) (unat off) bs \<and> dev_isblk w' = dev_isblk w
           \<and> length (dev_script w') \<le> length (dev_script w)"
proof (cases "n = 0")
  case True
  then have "ErofsIoPwrite_loop (io_fuel w) arr blen off 0 0 (vf_file (io_BDev w))
      = Ret ((0, None), vf_file (io_BDev w))"
    using ErofsIoPwrite_loop_done [of 0 0 "io_fuel w"] assms(1) by (simp add: dev_ready_def)
  with True show ?thesis
    using assms by (simp add: ErofsDevWrite_def ErofsIoPwrite_def dev_ready_def dev_data_def dev_isblk_def dev_script_def)
next
  case False
  let ?f = "vf_file (io_BDev w)"
  obtain f' where f': "ErofsIoPwrite_loop (io_fuel w) arr blen off 0 (int n) ?f = Ret ((int n, None), f')"
      "f_data f' = write_at (f_data ?f) (unat off) (take n arr)"
      "set (f_script f') \<subseteq> {Full, Intr}" "f_rest f' = Full" "f_isblk f' = f_isblk ?f"
      "length (f_script f') \<le> length (f_script ?f)"
    using ErofsIoPwrite_loop_full [of ?f "io_fuel w" off "int n" blen arr] False assms sint_nonneg [OF assms(2)]
    by (auto simp: dev_ready_def)
  then show ?thesis
    using assms by (auto simp: ErofsDevWrite_def ErofsIoPwrite_def dev_ready_def dev_data_def dev_isblk_def dev_script_def)
qed

lemma ErofsDevRead_reads:
  assumes "\<not> io_DryRun w" "vf_Ops (io_BDev w) = None" "dev \<le> 0"
    and "\<forall>r\<in>set (f_script (vf_file (io_BDev w))). reads_ok r" "f_rest (vf_file (io_BDev w)) = Full"
    and "length (f_script (vf_file (io_BDev w))) + 3 \<le> io_fuel w"
    and "unat (off + vf_Offset (io_BDev w)) + length buf < 2 ^ 63" "n \<le> length buf"
  shows "\<exists>buf' w'. ErofsDevRead sbi w dev buf off (int n) = Ret ((0, None), buf', w')
           \<and> length buf' = length buf
           \<and> take n buf' = padded (dev_data w) (unat (off + vf_Offset (io_BDev w))) n
           \<and> dev_data w' = dev_data w
           \<and> io_BDev w' = (io_BDev w)\<lparr>vf_file := vf_file (io_BDev w')\<rparr>
           \<and> set (f_script (vf_file (io_BDev w'))) \<subseteq> set (f_script (vf_file (io_BDev w)))
           \<and> length (f_script (vf_file (io_BDev w'))) \<le> length (f_script (vf_file (io_BDev w)))
           \<and> f_rest (vf_file (io_BDev w')) = Full \<and> dev_isblk w' = dev_isblk w
           \<and> io_fuel w' = io_fuel w \<and> io_DryRun w' = io_DryRun w"
proof -
  let ?f = "vf_file (io_BDev w)" and ?p = "unat (off + vf_Offset (io_BDev w))"
  obtain m f' where m: "ErofsIoPread_loop (io_fuel w) buf (off + vf_Offset (io_BDev w)) 0 (int n) ?f
      = Ret ((int m, None), splice buf 0 (read_at (f_data ?f) ?p m), f')"
    and d: "read_done ?f buf ?p (int n) m f'"
  proof -
    have "length (f_script ?f) + (if 0 = length buf \<or> length (f_data ?f) \<le> ?p + 0 then 2 else 3) \<le> io_fuel w"
      using assms(6) by simp
    then have "\<exists>m f'. ErofsIoPread_loop (io_fuel w) (splice buf 0 (read_at (f_data ?f) ?p 0))
          (off + vf_Offset (io_BDev w)) 0 (int n) ?f
        = Ret ((int m, None), splice buf 0 (read_at (f_data ?f) ?p m), f')
        \<and> read_done ?f buf ?p (int n) m f'"
      by (intro ErofsIoPread_loop_read assms) (use assms in simp_all)
    with that show thesis by (auto simp: read_at_def cut_def)
  qed
  have mm: "m \<le> length buf" "m \<le> length (f_data ?f) - ?p" "min n (length (f_data ?f) - ?p) \<le> m"
    using d assms(8) by (auto simp: read_done_def)
  have rd: "read_at (f_data ?f) ?p m = padded (f_data ?f) ?p m"
    using mm by (simp add: read_at_padded)
  let ?sp = "splice buf 0 (padded (f_data ?f) ?p m)"
  let ?buf' = "if m < n then splice ?sp m (replicate (n - m) 0) else ?sp"
  have lsp: "length ?sp = length buf" using mm by simp
  have len: "length ?buf' = length buf" using mm assms(8) lsp by simp
  have tk: "take n ?buf' = padded (f_data ?f) ?p n"
    using mm assms(8) lsp
    by (intro nth_equalityI) (auto simp: nth_splice nth_padded byte_at_def)
  have "ErofsDevRead sbi w dev buf off (int n)
      = Ret ((0, None), ?buf', w\<lparr>io_BDev := (io_BDev w)\<lparr>vf_file := f'\<rparr>\<rparr>)"
    using assms(1-3,8) m lsp unfolding rd
    by (simp add: ErofsDevRead_def ErofsIoPread_def nat_diff_distrib)
  with len tk d show ?thesis
    by (intro exI [of _ ?buf'] exI [of _ "w\<lparr>io_BDev := (io_BDev w)\<lparr>vf_file := f'\<rparr>\<rparr>"])
       (simp add: dev_data_def dev_isblk_def read_done_def assms(5))
qed

lemma ErofsDevRead_prefix:
  assumes "dev_ready w" "unat off + length buf < 2 ^ 63" "n \<le> length buf"
  shows "\<exists>buf' w'. ErofsDevRead sbi w 0 buf off (int n) = Ret ((0, None), buf', w')
           \<and> length buf' = length buf \<and> take n buf' = padded (dev_data w) (unat off) n
           \<and> dev_ready w' \<and> dev_data w' = dev_data w \<and> dev_isblk w' = dev_isblk w
           \<and> length (dev_script w') \<le> length (dev_script w)"
proof -
  have sc: "\<forall>r\<in>set (f_script (vf_file (io_BDev w))). reads_ok r"
    using assms(1) by (auto simp: dev_ready_def reads_ok_def)
  have pos: "unat (off + vf_Offset (io_BDev w)) + length buf < 2 ^ 63"
      "off + vf_Offset (io_BDev w) = off" using assms by (simp_all add: dev_ready_def)
  obtain buf' w' where w': "ErofsDevRead sbi w 0 buf off (int n) = Ret ((0, None), buf', w')"
       "length buf' = length buf" "take n buf' = padded (dev_data w) (unat off) n"
       "dev_data w' = dev_data w" "io_BDev w' = (io_BDev w)\<lparr>vf_file := vf_file (io_BDev w')\<rparr>"
       "set (f_script (vf_file (io_BDev w'))) \<subseteq> set (f_script (vf_file (io_BDev w)))"
       "length (f_script (vf_file (io_BDev w'))) \<le> length (f_script (vf_file (io_BDev w)))"
       "f_rest (vf_file (io_BDev w')) = Full" "dev_isblk w' = dev_isblk w"
       "io_fuel w' = io_fuel w" "io_DryRun w' = io_DryRun w"
    using ErofsDevRead_reads [OF _ _ _ sc _ _ pos(1) assms(3), of 0 sbi] assms(1) pos(2)
    unfolding dev_ready_def by auto
  have "vf_Ops (io_BDev w') = None" "vf_Offset (io_BDev w') = 0"
    using assms(1) by (subst w'(5), simp add: dev_ready_def)+
  then have "dev_ready w'" using w'(6-11) assms(1) by (auto simp: dev_ready_def)
  with w' show ?thesis by (auto simp: dev_script_def)
qed

lemma ErofsDevRead_ready:
  assumes "dev_ready w" "unat off + n < 2 ^ 63" "length buf = n"
  shows "\<exists>w'. ErofsDevRead sbi w 0 buf off (int n) = Ret ((0, None), padded (dev_data w) (unat off) n, w')
           \<and> dev_ready w' \<and> dev_data w' = dev_data w \<and> dev_isblk w' = dev_isblk w
           \<and> length (dev_script w') \<le> length (dev_script w)"
  using ErofsDevRead_prefix [OF assms(1), of off buf n sbi] assms(2,3) by auto


subsection \<open>Zero filling\<close>

definition vf_ready :: "nat \<Rightarrow> vfile \<Rightarrow> bool" where
  "vf_ready fuel vf \<longleftrightarrow> vf_Ops vf = None \<and> vf_Offset vf = 0
     \<and> set (f_script (vf_file vf)) \<subseteq> {Full, Intr} \<and> f_rest (vf_file vf) = Full
     \<and> length (f_script (vf_file vf)) + 2 \<le> fuel"

lemma ErofsIoPwrite_ready:
  assumes "vf_ready fuel vf" "unat off < 2 ^ 63" "n \<le> blen" "n \<le> length arr"
  shows "\<exists>vf'. ErofsIoPwrite fuel False vf arr blen off (int n) = Ret ((int n, None), vf')
           \<and> vf_ready fuel vf'
           \<and> f_data (vf_file vf') = write_at (f_data (vf_file vf)) (unat off) (take n arr)"
proof (cases "n = 0")
  case True
  then have "ErofsIoPwrite_loop fuel arr blen off 0 0 (vf_file vf) = Ret ((0, None), vf_file vf)"
    using ErofsIoPwrite_loop_done [of 0 0 fuel] assms(1) by (simp add: vf_ready_def)
  with True show ?thesis using assms by (simp add: ErofsIoPwrite_def vf_ready_def)
next
  case False
  then show ?thesis
    using ErofsIoPwrite_loop_full [of "vf_file vf" fuel off "int n" blen arr] assms
      sint_nonneg [OF assms(2)]
    by (auto simp: ErofsIoPwrite_def vf_ready_def)
qed

lemma zero_block_length [simp]: "length zero_block = 4096"
  by (simp add: zero_block_def)

lemma take_zero_block: "n \<le> 4096 \<Longrightarrow> take n zero_block = replicate n 0"
  by (simp add: zero_block_def)

lemma write_zeros_split:
  "byte_at (write_at (write_at data p (replicate a 0)) (p + a) (replicate b 0))
     = byte_at (write_at data p (replicate (a + b) 0))"
  by (rule ext) (auto simp: byte_at_write_at)

lemma ErofsIoFallocate_loop_zero:
  assumes "vf_ready fuel vf" "unat off + unat len < 2 ^ 63" "unat len < k * 4096"
  shows "\<exists>vf'. ErofsIoFallocate_loop k fuel vf off len = Ret (0, vf') \<and> vf_ready fuel vf'
           \<and> byte_at (f_data (vf_file vf'))
               = byte_at (write_at (f_data (vf_file vf)) (unat off) (replicate (unat len) 0))"
  using assms
proof (induction k arbitrary: vf off len)
  case (Suc k)
  show ?case
  proof (cases "len > 4096")
    case False
    then have small: "unat len \<le> 4096" by (simp add: word_less_nat_alt)
    have "unat off < 2 ^ 63" using Suc.prems(2) by simp
    then obtain vf' where "ErofsIoPwrite fuel False vf zero_block 4096 off (int (unat len))
         = Ret ((int (unat len), None), vf')" "vf_ready fuel vf'"
       "f_data (vf_file vf') = write_at (f_data (vf_file vf)) (unat off) (replicate (unat len) 0)"
      using ErofsIoPwrite_ready [OF Suc.prems(1), of off "unat len" 4096 zero_block] small
      by (auto simp: take_zero_block)
    then show ?thesis using False by simp
  next
    case True
    then have big: "4096 < unat len" by (simp add: word_less_nat_alt)
    have "unat off < 2 ^ 63" using Suc.prems(2) by simp
    then obtain vf' where v: "ErofsIoPwrite fuel False vf zero_block 4096 off 4096
         = Ret ((4096, None), vf')" "vf_ready fuel vf'"
       "f_data (vf_file vf') = write_at (f_data (vf_file vf)) (unat off) (replicate 4096 0)"
      using ErofsIoPwrite_ready [OF Suc.prems(1), of off 4096 4096 zero_block]
        take_zero_block [of 4096] by auto
    have o: "unat (off + 4096) = unat off + 4096"
      using unat_add_small [of off 4096] Suc.prems(2) big by simp
    have l: "unat (len - 4096) = unat len - 4096"
      using True by (simp add: unat_sub word_le_nat_alt word_less_nat_alt)
    obtain vf'' where "ErofsIoFallocate_loop k fuel vf' (off + 4096) (len - 4096) = Ret (0, vf'')"
       "vf_ready fuel vf''" "byte_at (f_data (vf_file vf''))
         = byte_at (write_at (f_data (vf_file vf')) (unat (off + 4096)) (replicate (unat (len - 4096)) 0))"
    proof -
      have pre: "unat (off + 4096) + unat (len - 4096) < 2 ^ 63" "unat (len - 4096) < k * 4096"
        using Suc.prems(2,3) big by (simp_all add: o l)
      show thesis using Suc.IH [OF v(2) pre] that by blast
    qed
    then show ?thesis
      using True v big write_zeros_split [of "f_data (vf_file vf)" "unat off" 4096 "unat len - 4096"]
      by (simp add: o l)
  qed
qed simp

text \<open>The error of a whole-block write is discarded: while the kernel answers with an error, the
  loop repeats the same write for ever.\<close>

lemma ErofsIoFallocate_loop_stuck:
  assumes "vf_Ops vf = None" "f_script (vf_file vf) = []" "f_rest (vf_file vf) = Fail e" "e \<noteq> EINTR"
    and "len > 4096"
  shows "ErofsIoFallocate_loop k fuel vf off len = NoFuel"
proof (induction k)
  case (Suc k)
  show ?case
  proof (cases fuel)
    case 0
    then show ?thesis using assms by (simp add: ErofsIoPwrite_def)
  next
    case (Suc f)
    have "ErofsIoPwrite fuel False vf zero_block 4096 off 4096 = Ret ((0, Some (snd (the (Some (0::nat, e))))), vf)
      \<or> ErofsIoPwrite fuel False vf zero_block 4096 off 4096 = Ret ((0, Some EINVAL), vf)"
      using assms Suc by (simp add: ErofsIoPwrite_def sys_pwrite_def next_resp_def)
    then show ?thesis using assms Suc.IH by auto
  qed
qed simp

subsection \<open>The interface its clients use\<close>

text \<open>
  What a client of the device may rely on: while the store is \<open>ready\<close>, a write of \<open>bs\<close> at \<open>p\<close>
  succeeds and changes exactly those bytes, and a read returns the bytes of the range.
\<close>

locale block_store =
  fixes store_at :: "'s \<Rightarrow> bytes \<Rightarrow> nat \<Rightarrow> (int \<times> 's) go"
    and load_at :: "'s \<Rightarrow> nat \<Rightarrow> nat \<Rightarrow> (bytes \<times> 's) go"
    and contents :: "'s \<Rightarrow> nat \<Rightarrow> byte"
    and ready :: "'s \<Rightarrow> bool"
  assumes store_law: "ready s \<Longrightarrow> p + length bs < 2 ^ 63 \<Longrightarrow>
      \<exists>s'. store_at s bs p = Ret (0, s') \<and> ready s'
         \<and> contents s' = (\<lambda>i. if p \<le> i \<and> i < p + length bs then bs ! (i - p) else contents s i)"
    and load_law: "ready s \<Longrightarrow> p + n < 2 ^ 63 \<Longrightarrow>
      \<exists>s'. load_at s p n = Ret (map (contents s) [p..<p + n], s') \<and> ready s'
         \<and> contents s' = contents s"
begin

lemma load_after_store:
  assumes "ready s" "p + length bs < 2 ^ 63"
  shows "\<exists>s1 s2. store_at s bs p = Ret (0, s1) \<and> load_at s1 p (length bs) = Ret (bs, s2) \<and> ready s2"
proof -
  obtain s1 where s1: "store_at s bs p = Ret (0, s1)" "ready s1"
      "contents s1 = (\<lambda>i. if p \<le> i \<and> i < p + length bs then bs ! (i - p) else contents s i)"
    using store_law [OF assms] by blast
  have "map (contents s1) [p..<p + length bs] = bs" by (rule nth_equalityI) (auto simp: s1(3))
  moreover obtain s2 where "load_at s1 p (length bs) = Ret (map (contents s1) [p..<p + length bs], s2)"
      "ready s2" using load_law [OF s1(2) assms(2)] by blast
  ultimately show ?thesis using s1(1) by (intro exI conjI) simp_all
qed

lemma load_elsewhere:
  assumes "ready s" "p + length bs < 2 ^ 63" "q + n < 2 ^ 63" "q + n \<le> p \<or> p + length bs \<le> q"
  shows "\<exists>s1 s2 s3. store_at s bs p = Ret (0, s1) \<and> load_at s1 q n = Ret (map (contents s) [q..<q + n], s2)
           \<and> load_at s q n = Ret (map (contents s) [q..<q + n], s3) \<and> ready s2"
proof -
  obtain s1 where s1: "store_at s bs p = Ret (0, s1)" "ready s1"
      "contents s1 = (\<lambda>i. if p \<le> i \<and> i < p + length bs then bs ! (i - p) else contents s i)"
    using store_law [OF assms(1,2)] by blast
  have same: "map (contents s1) [q..<q + n] = map (contents s) [q..<q + n]"
    using assms(4) by (auto simp: s1(3))
  obtain s2 where "load_at s1 q n = Ret (map (contents s1) [q..<q + n], s2)" "ready s2"
    using load_law [OF s1(2) assms(3)] by blast
  then have "load_at s1 q n = Ret (map (contents s) [q..<q + n], s2)" "ready s2"
    unfolding same .
  moreover obtain s3 where "load_at s q n = Ret (map (contents s) [q..<q + n], s3)"
    using load_law [OF assms(1,3)] by blast
  ultimately show ?thesis using s1(1) by (intro exI conjI) simp_all
qed

text \<open>Read a range, change it, write it back: only the range changes.\<close>

lemma update_in_place:
  assumes "ready s" "p + n < 2 ^ 63" "\<And>xs. length xs = n \<Longrightarrow> length (f xs) = n"
  shows "\<exists>s1 s2. load_at s p n = Ret (map (contents s) [p..<p + n], s1)
           \<and> store_at s1 (f (map (contents s) [p..<p + n])) p = Ret (0, s2) \<and> ready s2
           \<and> map (contents s2) [p..<p + n] = f (map (contents s) [p..<p + n])
           \<and> (\<forall>i. i < p \<or> p + n \<le> i \<longrightarrow> contents s2 i = contents s i)"
proof -
  let ?b = "f (map (contents s) [p..<p + n])"
  have lb: "length ?b = n" by (rule assms(3)) simp
  obtain s1 where s1: "load_at s p n = Ret (map (contents s) [p..<p + n], s1)" "ready s1"
      "contents s1 = contents s"
    using load_law [OF assms(1,2)] by blast
  obtain s2 where s2: "store_at s1 ?b p = Ret (0, s2)" "ready s2"
      "contents s2 = (\<lambda>i. if p \<le> i \<and> i < p + n then ?b ! (i - p) else contents s1 i)"
    using store_law [OF s1(2), of p ?b] assms(2) lb by auto
  have "map (contents s2) [p..<p + n] = ?b" by (rule nth_equalityI) (auto simp: s2(3) lb)
  moreover have "contents s2 i = contents s i" if "i < p \<or> p + n \<le> i" for i
    using that by (auto simp: s2(3) s1(3))
  ultimately show ?thesis using s1(1) s2(1,2) by (intro exI conjI) auto
qed

end

definition dev_store :: "io \<Rightarrow> bytes \<Rightarrow> nat \<Rightarrow> (int \<times> io) go" where
  "dev_store w bs p = ErofsDevWrite w bs (length bs) (of_nat p) (int (length bs))"

definition dev_load :: "io \<Rightarrow> nat \<Rightarrow> nat \<Rightarrow> (bytes \<times> io) go" where
  "dev_load w p n = gbind (ErofsDevRead zero_sbinfo w 0 (replicate n 0) (of_nat p) (int n))
     (\<lambda>(r, buf, w1). if r = (0, None) then Ret (buf, w1) else Panic (Bug ''read error''))"

lemma dev_load_read:
  "dev_load w p n = Ret (bs, w') \<Longrightarrow>
     ErofsDevRead zero_sbinfo w 0 (replicate n 0) (of_nat p) (int n) = Ret ((0, None), bs, w')"
  by (auto simp: dev_load_def gbind_eq_Ret split: if_splits)

interpretation dev: block_store dev_store dev_load "\<lambda>w. byte_at (dev_data w)" dev_ready
proof unfold_locales
  fix s :: io and p n :: nat and bs :: bytes
  assume r: "dev_ready s"
  have u: "unat (of_nat q :: u64) = q" if "q < 2 ^ 63" for q
    using that by (simp add: unsigned_of_nat take_bit_nat_eq_self)
  { assume l: "p + length bs < 2 ^ 63"
    then have "p < 2 ^ 63" by simp
    with u r ErofsDevWrite_ready [of s "of_nat p" "length bs" "length bs" bs bs]
    show "\<exists>s'. dev_store s bs p = Ret (0, s') \<and> dev_ready s' \<and> byte_at (dev_data s')
        = (\<lambda>i. if p \<le> i \<and> i < p + length bs then bs ! (i - p) else byte_at (dev_data s) i)"
      by (auto simp: dev_store_def byte_at_write_at fun_eq_iff) }
  { assume l: "p + n < 2 ^ 63"
    then have "p < 2 ^ 63" by simp
    with u l r ErofsDevRead_ready [of s "of_nat p" n "replicate n 0" zero_sbinfo]
    show "\<exists>s'. dev_load s p n = Ret (map (byte_at (dev_data s)) [p..<p + n], s') \<and> dev_ready s'
        \<and> byte_at (dev_data s') = byte_at (dev_data s)"
      by (auto simp: dev_load_def padded_def) }
qed

subsection \<open>Whole blocks\<close>

lemma block_bytes:
  fixes x :: u32
  assumes "b \<le> 12"
  shows "unat (push_bit b (ucast x) :: u64) = unat x * 2 ^ b" "unat x * 2 ^ b < 2 ^ 63"
proof -
  have "unat x < 2 ^ 32" using unsigned_less [of x] by simp
  moreover have "(2::nat) ^ b \<le> 2 ^ 12" using assms by (intro power_increasing) simp_all
  ultimately have "unat x * 2 ^ b < 2 ^ 32 * 2 ^ 12" by (rule mult_less_le_imp_less) simp_all
  then show lt: "unat x * 2 ^ b < 2 ^ 63" by simp
  have "unat (push_bit b (ucast x) :: u64) = take_bit 64 (push_bit b (unat x))"
    by (simp add: unsigned_push_bit_eq unat_u64_of_u32)
  with lt show "unat (push_bit b (ucast x) :: u64) = unat x * 2 ^ b"
    by (simp add: push_bit_eq_mult take_bit_eq_mod)
qed

lemma sint_small: "unat (p :: u64) < 2 ^ 63 \<Longrightarrow> sint p = int (unat p)"
proof -
  assume "unat p < 2 ^ 63"
  then have "int (unat p) < int (2 ^ 63)" by (rule iffD2 [OF of_nat_less_iff])
  then have "int (unat p) < 2 ^ 63" by (simp only: of_nat_power of_nat_numeral)
  moreover have "sint p = signed_take_bit 63 (int (unat p))" by (simp add: sint_uint)
  ultimately show "sint p = int (unat p)" using signed_take_bit_int_eq_self [of 63 "int (unat p)"] by linarith
qed

lemma sint_block_bytes:
  fixes x :: u32
  assumes "b \<le> 12"
  shows "sint (push_bit b (ucast x) :: u64) = int (unat x * 2 ^ b)"
  using sint_small [of "push_bit b (ucast x)"] block_bytes [OF assms, of x] by simp

lemma ErofsBlkWrite_ready:
  fixes blkAddr nblocks :: u32
  assumes "unat (si_BlkSzBits sbi) \<le> 12" "dev_ready w" "unat nblocks * 2 ^ unat (si_BlkSzBits sbi) \<le> length buf"
  shows "\<exists>w'. ErofsBlkWrite sbi w buf (length buf) blkAddr nblocks = Ret (0, w') \<and> dev_ready w'
     \<and> dev_data w' = write_at (dev_data w) (unat blkAddr * 2 ^ unat (si_BlkSzBits sbi))
          (take (unat nblocks * 2 ^ unat (si_BlkSzBits sbi)) buf)"
  using ErofsDevWrite_ready [OF assms(2) _ assms(3) order_refl refl, of "ErofsPos sbi (ucast blkAddr)"]
    block_bytes [OF assms(1), of blkAddr] sint_block_bytes [OF assms(1), of nblocks]
  by (auto simp: ErofsBlkWrite_def ErofsPos_def)

end
