(* ===== verification/BufMgr.thy ===== *)
theory BufMgr
  imports Links Device
begin

text \<open>
  The buffer manager: \<open>pkg/types/buffer.go\<close>, \<open>pkg/types/internal.go\<close> and the buffer part of
  \<open>pkg/types/helper.go\<close>.  A manager owns a list of buffer blocks (extents of the image), each
  with a list of buffer heads (objects inside the extent); blocks receive device addresses in
  list order and mapped blocks are filed in buckets by type and fill level.

  Blocks and heads are numbered; block 0 is the manager's own \<open>BlkH\<close>, whose \<open>List\<close> is the head
  of the block list.  Every \<open>ListHead\<close> of the data structure is a \<open>node\<close>.  The shared
  \<open>SuperBlkInfo\<close> is an argument, as the manager only reads the block size from it.
\<close>

section \<open>State\<close>

datatype node =
    BbList nat
  | BbMapped nat
  | BbBufs nat
  | BhList nat
  | Bucket nat nat
  | Wild

text \<open>The three operation tables of \<open>buffer.go\<close>; \<open>Op\<close> is compared by address.\<close>

datatype bh_ops = SkipWriteOps | DropDirectlyBhops | SkipWriteBhops

record bblock =
  bb_BlkAddr :: u32
  bb_Type :: int
  bb_Off :: u64
  bb_FsPrivate :: bool

record bhead =
  bh_Block :: "nat option"
  bh_Off :: u64
  bh_Op :: "bh_ops option"

record bufmgr =
  bm_links :: "node links"
  bm_blocks :: "nat \<Rightarrow> bblock"
  bm_heads :: "nat \<Rightarrow> bhead"
  bm_next_bb :: nat
  bm_next_bh :: nat
  TailBlkAddr :: u32
  MetaBlkCnt :: u32
  LastMappedBlock :: "nat option"

definition zero_bblock :: bblock where
  "zero_bblock = \<lparr>bb_BlkAddr = 0, bb_Type = 0, bb_Off = 0, bb_FsPrivate = False\<rparr>"

definition zero_bhead :: bhead where
  "zero_bhead = \<lparr>bh_Block = None, bh_Off = 0, bh_Op = None\<rparr>"

definition nil_links :: "'n links" where
  "nil_links = \<lparr>lprev = (\<lambda>_. None), lnext = (\<lambda>_. None)\<rparr>"

definition upd_bb :: "nat \<Rightarrow> (bblock \<Rightarrow> bblock) \<Rightarrow> bufmgr \<Rightarrow> bufmgr" where
  "upd_bb b f s = s\<lparr>bm_blocks := (bm_blocks s)(b := f (bm_blocks s b))\<rparr>"

definition upd_bh :: "nat \<Rightarrow> (bhead \<Rightarrow> bhead) \<Rightarrow> bufmgr \<Rightarrow> bufmgr" where
  "upd_bh i f s = s\<lparr>bm_heads := (bm_heads s)(i := f (bm_heads s i))\<rparr>"

text \<open>Run a list operation on the manager's links.\<close>

definition on_links :: "(node links \<Rightarrow> node links go) \<Rightarrow> bufmgr \<Rightarrow> bufmgr go" where
  "on_links f s = gbind (f (bm_links s)) (\<lambda>h. Ret (s\<lparr>bm_links := h\<rparr>))"

definition new_bblock :: "bblock \<Rightarrow> bufmgr \<Rightarrow> nat \<times> bufmgr" where
  "new_bblock bb s = (bm_next_bb s,
     s\<lparr>bm_blocks := (bm_blocks s)(bm_next_bb s := bb), bm_next_bb := Suc (bm_next_bb s)\<rparr>)"

definition new_bhead :: "bhead \<Rightarrow> bufmgr \<Rightarrow> nat \<times> bufmgr" where
  "new_bhead bh s = (bm_next_bh s,
     s\<lparr>bm_heads := (bm_heads s)(bm_next_bh s := bh), bm_next_bh := Suc (bm_next_bh s)\<rparr>)"

text \<open>The type assertion \<open>FsPrivate.(*BufferManager)\<close>.\<close>

definition manager_of :: "bufmgr \<Rightarrow> nat \<Rightarrow> unit go" where
  "manager_of s b = gguard (bb_FsPrivate (bm_blocks s b)) TypeAssertion"

section \<open>From list heads to their containers\<close>

text \<open>
  \<open>BufferBlockFromList\<close>, \<open>ContainerOf1\<close> (with member \<open>List\<close>, at offset 0) and
  \<open>ListNextEntryBB\<close> reinterpret the address; \<open>nil\<close> stays \<open>nil\<close>.  An address that is not a
  block's is a wild pointer.
\<close>

definition BufferBlockFromList :: "node option \<Rightarrow> nat option go" where
  "BufferBlockFromList p = (case p of None \<Rightarrow> Ret None
     | Some n \<Rightarrow> (case n of BbList b \<Rightarrow> Ret (Some b) | _ \<Rightarrow> Panic WildPointer))"

definition ContainerOf1 :: "node option \<Rightarrow> nat option go" where
  "ContainerOf1 p = BufferBlockFromList p"

definition BufferHeadFromList :: "node option \<Rightarrow> nat option go" where
  "BufferHeadFromList p = (case p of None \<Rightarrow> Ret None
     | Some n \<Rightarrow> (case n of BhList i \<Rightarrow> Ret (Some i) | _ \<Rightarrow> Panic WildPointer))"

definition ListNextEntryBB :: "bufmgr \<Rightarrow> nat \<Rightarrow> nat option go" where
  "ListNextEntryBB s b = BufferBlockFromList (lnext (bm_links s) (BbList b))"

text \<open>
  \<open>ContainerOf\<close> (and \<open>ListEntry\<close>) does \<^emph>\<open>not\<close> return the container: it allocates a zero value of
  the container type and stores the container's address in its first word, which for a
  \<open>BufferBlock\<close> is \<open>List.Prev\<close>.  The buckets are an array of 16-byte heads and \<open>MappedList\<close> lies
  at offset 16.
\<close>

datatype bb_member = Member_List | Member_MappedList

definition container_addr :: "bb_member \<Rightarrow> node option \<Rightarrow> node option" where
  "container_addr m p = (case m of
       Member_List \<Rightarrow> p
     | Member_MappedList \<Rightarrow> Some (case p of
           Some (BbMapped b) \<Rightarrow> BbList b
         | Some (Bucket t (Suc j)) \<Rightarrow> Bucket t j
         | Some (Bucket (Suc t) 0) \<Rightarrow> Bucket t 4095
         | _ \<Rightarrow> Wild))"

definition ContainerOf :: "node option \<Rightarrow> bb_member \<Rightarrow> bufmgr \<Rightarrow> nat \<times> bufmgr" where
  "ContainerOf p m s = (let (b, s1) = new_bblock zero_bblock s in
     (b, s1\<lparr>bm_links := (bm_links s1)
              \<lparr>lprev := (lprev (bm_links s1))(BbList b := container_addr m p),
               lnext := (lnext (bm_links s1))(BbList b := None)\<rparr>\<rparr>))"

section \<open>Operations\<close>

subsection \<open>Construction\<close>

definition init_all :: "'n list \<Rightarrow> 'n links \<Rightarrow> 'n links go" where
  "init_all ns h = foldl (\<lambda>m n. gbind m (\<lambda>h. InitListHead h (Some n))) (Ret h) ns"

definition bucket_heads :: "node list" where
  "bucket_heads = concat (map (\<lambda>i. map (Bucket i) [0..<4096]) [0..<2])"

definition ErofsBufferInit :: "u32 \<Rightarrow> bufmgr go" where
  "ErofsBufferInit startblk =
     gbind (InitListHead nil_links (Some (BbList 0))) (\<lambda>h.
     gbind (init_all bucket_heads h) (\<lambda>h.
     Ret \<lparr>bm_links = h,
          bm_blocks = (\<lambda>_. zero_bblock)(0 := zero_bblock\<lparr>bb_BlkAddr := NULL_ADDR\<rparr>),
          bm_heads = (\<lambda>_. zero_bhead), bm_next_bb = 1, bm_next_bh = 0,
          TailBlkAddr = startblk, MetaBlkCnt = 0, LastMappedBlock = Some 0\<rparr>))"

definition GetAlignSize :: "sbinfo \<Rightarrow> int \<Rightarrow> int \<times> int" where
  "GetAlignSize sbi bufType =
     (if bufType = DATA then (sint (ErofsBlockSize sbi), bufType)
      else if bufType = INODE then (32, META)
      else if bufType = DIRA then (sint (ErofsBlockSize sbi), META)
      else if bufType = XATTR then (4, META)
      else if bufType = DEVT then (EROFS_DEVT_SLOT_SIZE, META)
      else if bufType = META then (1, bufType)
      else (- EINVAL, 0))"

definition BlkAllocBuf :: "sbinfo \<Rightarrow> int \<Rightarrow> bufmgr \<Rightarrow> (nat \<times> bufmgr) go" where
  "BlkAllocBuf sbi aType s =
     (let (b, s1) = new_bblock (zero_bblock\<lparr>bb_BlkAddr := NULL_ADDR, bb_Type := aType\<rparr>) s in
      gbind (on_links (init_all [BbList b, BbMapped b, BbBufs b]) s1) (\<lambda>s2.
      let s3 = upd_bb b (\<lambda>bb. bb\<lparr>bb_Off := ErofsBlockSize sbi, bb_FsPrivate := True\<rparr>) s2 in
      gbind (on_links (\<lambda>h. ListAddTail h (Some (BbList b)) (Some (BbList 0))) s3) (\<lambda>s4.
      Ret (b, s4))))"

subsection \<open>Attaching to a block\<close>

definition BupdateMapped :: "sbinfo \<Rightarrow> nat \<Rightarrow> bufmgr \<Rightarrow> bufmgr go" where
  "BupdateMapped sbi b s =
     gbind (manager_of s b) (\<lambda>_.
     let bb = bm_blocks s b in
     if bb_BlkAddr bb = NULL_ADDR then Ret s
     else
       let idx = unat (bb_Off bb AND ucast (ErofsBlkSiz sbi - 1)) in
       gbind (gguard (0 \<le> bb_Type bb \<and> bb_Type bb \<le> META \<and> idx < 4096) IndexRange) (\<lambda>_.
       gbind (on_links (\<lambda>h. ListDel h (Some (BbMapped b))) s) (\<lambda>s1.
       on_links (\<lambda>h. ListAddTail h (Some (BbMapped b)) (Some (Bucket (nat (bb_Type bb)) idx))) s1)))"

text \<open>\<open>BattachInternal\<close> returns a positive count or a negated error number; \<open>att_check\<close> is its
  \<open>oob >= 0\<close> part, which answers whether the tail address has to move (or the error).\<close>

definition att_oob :: "sbinfo \<Rightarrow> u64 \<Rightarrow> u64 \<Rightarrow> u32 \<Rightarrow> u32 \<Rightarrow> int" where
  "att_oob sbi boff incr alignsize extrasize =
     (let blksiz = ErofsBlkSiz sbi; blkmask = blksiz - 1;
          prevBlockOffset = ((boff - 1) AND ucast blkmask) + 1;
          roundedPrevOffset = RoundUp prevBlockOffset (ucast alignsize)
      in Cmpsgn (roundedPrevOffset + incr + ucast extrasize) (ucast blksiz))"

definition att_check :: "sbinfo \<Rightarrow> nat \<Rightarrow> int \<Rightarrow> bufmgr \<Rightarrow> (int + bool) go" where
  "att_check sbi b oob s =
     (let bb = bm_blocks s b;
          tail = (TailBlkAddr s = bb_BlkAddr bb + ucast (BlkRoundUp sbi (bb_Off bb)));
          check_tail =
            (if bb_BlkAddr bb \<noteq> NULL_ADDR
             then (if oob > 0 \<and> \<not> tail then Ret (Inl (- EINVAL)) else Ret (Inr tail))
             else Ret (Inr False))
      in if oob \<ge> 0
         then (if oob > 0
               then gbind (ListNextEntryBB s b) (\<lambda>next.
                 case next of
                   None \<Rightarrow> Ret (Inl (- EINVAL))
                 | Some n \<Rightarrow> if bb_BlkAddr (bm_blocks s n) \<noteq> NULL_ADDR then Ret (Inl (- EINVAL))
                             else check_tail)
               else check_tail)
         else Ret (Inr False))"

definition BattachInternal ::
  "sbinfo \<Rightarrow> nat \<Rightarrow> nat option \<Rightarrow> u64 \<Rightarrow> u32 \<Rightarrow> u32 \<Rightarrow> bool \<Rightarrow> bufmgr \<Rightarrow> (int \<times> bufmgr) go" where
  "BattachInternal sbi b bh incr alignsize extrasize dryrun s =
     gbind (manager_of s b) (\<lambda>_.
     let blkmask = ErofsBlkSiz sbi - 1;
         boff = bb_Off (bm_blocks s b);
         blkaddr = bb_BlkAddr (bm_blocks s b);
         alignedoffset = RoundUp boff (ucast alignsize);
         oob = att_oob sbi boff incr alignsize extrasize;
         occupied = uint (((alignedoffset + incr - 1) AND ucast blkmask) + 1)
     in gbind (att_check sbi b oob s) (\<lambda>chk.
        case chk of
          Inl e \<Rightarrow> Ret (e, s)
        | Inr tailupdate \<Rightarrow>
            if dryrun then Ret (occupied, s)
            else
              gbind (case bh of
                       None \<Rightarrow> Ret s
                     | Some i \<Rightarrow>
                         on_links (\<lambda>h. ListAddTail h (Some (BhList i)) (Some (BbBufs b)))
                           (upd_bh i (\<lambda>x. x\<lparr>bh_Off := alignedoffset, bh_Block := Some b\<rparr>) s)) (\<lambda>s1.
              let boff1 = alignedoffset + incr;
                  s2 = upd_bb b (\<lambda>bb. bb\<lparr>bb_Off := boff1\<rparr>) s1;
                  s3 = (if tailupdate
                        then s2\<lparr>TailBlkAddr := blkaddr + ucast (BlkRoundUp sbi boff1)\<rparr> else s2)
              in gbind (BupdateMapped sbi b s3) (\<lambda>s4. Ret (occupied, s4)))))"

subsection \<open>Searching a block to attach to\<close>

text \<open>\<open>BfindForAttach\<close>: the search of the buckets from \<open>usedBefore\<close> down to 1, then the walk from
  the last mapped block.  Both go through \<open>ContainerOf\<close>; the walk ends only at \<open>BlkH\<close>.\<close>

fun find_mapped ::
  "sbinfo \<Rightarrow> int \<Rightarrow> u64 \<Rightarrow> u32 \<Rightarrow> u32 \<Rightarrow> nat \<Rightarrow> bufmgr \<Rightarrow> (nat option \<times> u32 \<times> bufmgr) go" where
  "find_mapped sbi btype sz exts alignsize 0 s = Ret (None, 0, s)"
| "find_mapped sbi btype sz exts alignsize (Suc k) s =
     gbind (gguard (0 \<le> btype \<and> btype \<le> META \<and> Suc k < 4096) IndexRange) (\<lambda>_.
     let bt = Bucket (nat btype) (Suc k) in
     gbind (IsListEmpty (bm_links s) (Some bt)) (\<lambda>empty.
     if empty then find_mapped sbi btype sz exts alignsize k s
     else
       let (cur, s1) = ContainerOf (lnext (bm_links s) bt) Member_MappedList s;
           (next, s2) = ContainerOf (lnext (bm_links s1) (BbList cur)) Member_List s1;
           bb = bm_blocks s2 cur
       in if bb_BlkAddr (bm_blocks s2 next) = NULL_ADDR
          then (if Some cur \<noteq> LastMappedBlock s2
                then Panic (Bug ''cur != bmgr.LastMappedBlock'')
                else find_mapped sbi btype sz exts alignsize k s2)
          else if bb_Type bb \<noteq> btype then Panic (Bug ''cur.Type != btype'')
          else if bb_BlkAddr bb = NULL_ADDR then Panic (Bug ''cur.BlkAddr == NULL_ADDR'')
          else if Suc k \<noteq> unat (bb_Off bb AND ucast (ErofsBlkSiz sbi - 1))
          then Panic (Bug ''usedBefore != (cur.Buffers.Off & (blksiz - 1))'')
          else gbind (BattachInternal sbi cur None sz alignsize exts True s2) (\<lambda>(ret, s3).
            if ret < 0 then find_mapped sbi btype sz exts alignsize k s3
            else let used = of_int ret + exts in
              if used > ErofsBlkSiz sbi then Panic (Bug ''used > blksiz'')
              else Ret (Some cur, used, s3))))"

fun find_from_last ::
  "nat \<Rightarrow> sbinfo \<Rightarrow> int \<Rightarrow> u64 \<Rightarrow> u32 \<Rightarrow> u32 \<Rightarrow> u32 \<Rightarrow> u32 \<Rightarrow> nat \<Rightarrow> nat option \<times> u32 \<Rightarrow> bufmgr
     \<Rightarrow> (nat option \<times> bufmgr) go" where
  "find_from_last 0 sbi btype sz req inl alignsize used0 cur best s = NoFuel"
| "find_from_last (Suc k) sbi btype sz req inl alignsize used0 cur best s =
     (if cur = 0 then Ret (fst best, s)
      else
        let bb = bm_blocks s cur; blkSiz = ErofsBlkSiz sbi;
            usedBefore = ucast (bb_Off bb AND ucast (blkSiz - 1)) :: u32;
            advance = (\<lambda>best s. let (nx, s1) = ContainerOf (lnext (bm_links s) (BbList cur)) Member_List s
                       in find_from_last k sbi btype sz req inl alignsize used0 nx best s1)
        in if usedBefore = 0 then advance best s
           else if bb_Type bb \<noteq> btype then advance best s
           else gbind (BattachInternal sbi cur None sz alignsize (req + inl) True s) (\<lambda>(ret, s1).
             if ret < 0 then advance best s1
             else let used = ((of_int ret + req) AND (blkSiz - 1)) + inl in
               if used > blkSiz then advance best s1
               else if used < usedBefore \<and> used < used0 then advance best s1
               else advance (if snd best < used then (Some cur, used) else best) s1))"

definition BfindForAttach ::
  "nat \<Rightarrow> sbinfo \<Rightarrow> int \<Rightarrow> u64 \<Rightarrow> u32 \<Rightarrow> u32 \<Rightarrow> u32 \<Rightarrow> bufmgr
     \<Rightarrow> ((int + nat option) \<times> bufmgr) go" where
  "BfindForAttach fuel sbi btype sz requiredExt inlineExt alignsize s =
     (let blkSiz = ErofsBlkSiz sbi;
          used0 = ((ucast sz + requiredExt) AND (blkSiz - 1)) + inlineExt;
          total = ucast sz + requiredExt + inlineExt
      in if used0 > blkSiz then Ret (Inl ENOSPC, s)
      else if used0 = 0 \<or> alignsize = blkSiz then Ret (Inr None, s)
      else gbind (if total \<ge> blkSiz then Ret (None, 0, s)
                  else gbind (RoundDown (uint (blkSiz - total)) (uint alignsize)) (\<lambda>usedBefore.
                    find_mapped sbi btype sz (requiredExt + inlineExt) alignsize
                      (unat (of_int usedBefore :: u32)) s)) (\<lambda>(bb, usedmax, s1).
        gbind (deref (LastMappedBlock s1)) (\<lambda>last.
        let (cur, s2) = (if last = 0
                         then ContainerOf (lnext (bm_links s1) (BbList last)) Member_List s1
                         else (last, s1))
        in gbind (find_from_last fuel sbi btype sz requiredExt inlineExt alignsize used0 cur
                    (bb, usedmax) s2)
             (\<lambda>(r, s3). Ret (Inr r, s3)))))"

subsection \<open>Allocating heads\<close>

datatype balloc_error = InvalidBufferType | NoSpaceForAttach | EmptyBufferBlock

text \<open>The walk of the block list: the first block of the type whose offset covers the request
  overrides the block chosen so far.\<close>

fun first_fit :: "nat \<Rightarrow> int \<Rightarrow> u64 \<Rightarrow> node option \<Rightarrow> bufmgr \<Rightarrow> nat option go" where
  "first_fit 0 btype need current s = NoFuel"
| "first_fit (Suc k) btype need current s =
     (if current = Some (BbList 0) then Ret None
      else gbind (ContainerOf1 current) (\<lambda>p.
        gbind (deref p) (\<lambda>block.
        if bb_Type (bm_blocks s block) \<noteq> btype
        then first_fit k btype need (lnext (bm_links s) (BbList block)) s
        else if bb_Off (bm_blocks s block) \<ge> need then Ret (Some block)
        else first_fit k btype need (lnext (bm_links s) (BbList block)) s)))"

definition balloc_new_block :: "int \<Rightarrow> bufmgr \<Rightarrow> (nat \<times> bufmgr) go" where
  "balloc_new_block bufType s =
     (let (b, s1) = new_bblock \<lparr>bb_BlkAddr = NULL_ADDR, bb_Type = bufType, bb_Off = 0, bb_FsPrivate = True\<rparr> s
      in gbind (on_links (\<lambda>h. InitListHead h (Some (BbBufs b))) s1) (\<lambda>s2.
         gbind (if bufType = DATA
                then gbind (deref (LastMappedBlock s2)) (\<lambda>l.
                  on_links (\<lambda>h. ListAdd h (Some (BbList b)) (Some (BbList l))) s2)
                else on_links (\<lambda>h. ListAddTail h (Some (BbList b)) (Some (BbList 0))) s2) (\<lambda>s3.
         gbind (on_links (\<lambda>h. InitListHead h (Some (BbMapped b))) s3) (\<lambda>s4. Ret (b, s4)))))"

definition Balloc ::
  "nat \<Rightarrow> sbinfo \<Rightarrow> int \<Rightarrow> u64 \<Rightarrow> u32 \<Rightarrow> u32 \<Rightarrow> bufmgr \<Rightarrow> ((balloc_error + nat) \<times> bufmgr) go" where
  "Balloc fuel sbi bufType0 sz requiredExt inlineExt s =
     (let (ret, bufType) = GetAlignSize sbi bufType0; alignSize = of_int ret :: u32 in
      if ret < 0 then Ret (Inl InvalidBufferType, s)
      else if bufType < 0 \<or> bufType > META then Ret (Inl InvalidBufferType, s)
      else gbind (BfindForAttach fuel sbi bufType sz requiredExt inlineExt alignSize s) (\<lambda>(r, s1).
        case r of
          Inl e \<Rightarrow> Ret (Inl NoSpaceForAttach, s1)
        | Inr found \<Rightarrow>
            gbind (case found of Some b \<Rightarrow> Ret (b, s1) | None \<Rightarrow> balloc_new_block bufType s1) (\<lambda>(b0, s2).
            gbind (first_fit fuel bufType (sz + ucast (requiredExt + inlineExt) * ucast alignSize)
                     (lnext (bm_links s2) (BbList 0)) s2) (\<lambda>fit.
            let b = (case fit of Some b \<Rightarrow> b | None \<Rightarrow> b0) in
            if sz > bb_Off (bm_blocks s2 b) then Ret (Inl EmptyBufferBlock, s2)
            else let (i, s3) = new_bhead \<lparr>bh_Block = Some b, bh_Off = sz, bh_Op = None\<rparr> s2 in
              gbind (on_links (\<lambda>h. ListAddTail h (Some (BhList i)) (Some (BbBufs b))) s3) (\<lambda>s4.
              Ret (Inr i, s4))))))"

text \<open>\<open>Balloc\<close> ends with an unreachable fallback, \<open>BlkAllocBuf\<close> when no block was chosen: by then
  one always is.  \<open>Battach\<close> and \<open>BhBalloon\<close> require the head to be the last of its block.\<close>

definition Battach ::
  "sbinfo \<Rightarrow> nat \<Rightarrow> int \<Rightarrow> u32 \<Rightarrow> bufmgr \<Rightarrow> ((nat option \<times> int) \<times> bufmgr) go" where
  "Battach sbi bh bufType sz s =
     gbind (deref (bh_Block (bm_heads s bh))) (\<lambda>b.
     gbind (manager_of s b) (\<lambda>_.
     let (alignsize, _) = GetAlignSize sbi bufType in
     if lnext (bm_links s) (BhList bh) \<noteq> Some (BbBufs b) then Ret ((None, - EINVAL), s)
     else let (nbh, s1) = new_bhead zero_bhead s in
       gbind (BattachInternal sbi b (Some nbh) (ucast sz) (of_int alignsize) 0 False s1) (\<lambda>(err, s2).
       if err < 0 then Ret ((None, err), s2) else Ret ((Some nbh, 0), s2))))"

definition BhBalloon :: "sbinfo \<Rightarrow> nat \<Rightarrow> u64 \<Rightarrow> bufmgr \<Rightarrow> (int \<times> bufmgr) go" where
  "BhBalloon sbi bh incr s =
     gbind (deref (bh_Block (bm_heads s bh))) (\<lambda>b.
     if lnext (bm_links s) (BhList bh) \<noteq> Some (BbBufs b) then Ret (- EINVAL, s)
     else BattachInternal sbi b (Some bh) incr 1 0 False s)"

subsection \<open>Mapping\<close>

definition MapBhInternal :: "sbinfo \<Rightarrow> nat \<Rightarrow> bufmgr \<Rightarrow> (u64 \<times> bufmgr) go" where
  "MapBhInternal sbi b s =
     gbind (manager_of s b) (\<lambda>_.
     gbind (if bb_BlkAddr (bm_blocks s b) = NULL_ADDR
            then BupdateMapped sbi b
                   ((upd_bb b (\<lambda>bb. bb\<lparr>bb_BlkAddr := TailBlkAddr s\<rparr>) s)\<lparr>LastMappedBlock := Some b\<rparr>)
            else Ret s) (\<lambda>s1.
     let blkaddr = ucast (bb_BlkAddr (bm_blocks s1 b)) + BlkRoundUp sbi (bb_Off (bm_blocks s1 b))
     in Ret (blkaddr, if blkaddr > ucast (TailBlkAddr s1) then s1\<lparr>TailBlkAddr := ucast blkaddr\<rparr> else s1)))"

fun MapBh_loop :: "nat \<Rightarrow> sbinfo \<Rightarrow> nat option \<Rightarrow> nat option \<Rightarrow> bufmgr \<Rightarrow> (u32 \<times> bufmgr) go" where
  "MapBh_loop 0 sbi bb t s = NoFuel"
| "MapBh_loop (Suc k) sbi bb t s =
     gbind (deref t) (\<lambda>t0.
     gbind (ContainerOf1 (lnext (bm_links s) (BbList t0))) (\<lambda>t1.
     if t1 = Some 0 then Ret (TailBlkAddr s, s)
     else gbind (deref t1) (\<lambda>b.
       if bb_BlkAddr (bm_blocks s b) \<noteq> NULL_ADDR then Panic (Bug ''t.BlkAddr != NULL_ADDR'')
       else gbind (MapBhInternal sbi b s) (\<lambda>(_, s1).
         if t1 = bb then Ret (TailBlkAddr s1, s1)
         else MapBh_loop k sbi bb t1 s1))))"

text \<open>\<open>MapBh(bmgr, bb)\<close>: \<open>given\<close> tells whether \<open>bmgr\<close> is not \<open>nil\<close>.\<close>

definition MapBh :: "nat \<Rightarrow> sbinfo \<Rightarrow> bool \<Rightarrow> nat option \<Rightarrow> bufmgr \<Rightarrow> (u32 \<times> bufmgr) go" where
  "MapBh fuel sbi given bb s =
     gbind (if given then Ret ()
            else case bb of None \<Rightarrow> Panic NilDeref | Some b \<Rightarrow> manager_of s b) (\<lambda>_.
     case bb of
       Some b \<Rightarrow> if bb_BlkAddr (bm_blocks s b) \<noteq> NULL_ADDR then Ret (bb_BlkAddr (bm_blocks s b), s)
                 else MapBh_loop fuel sbi bb (LastMappedBlock s) s
     | None \<Rightarrow> MapBh_loop fuel sbi bb (LastMappedBlock s) s)"

text \<open>\<open>BhTell\<close>: with \<open>end\<close>, the next head comes from \<open>ContainerOf\<close>, a zero \<open>BufferHead\<close>.\<close>

definition BhTell :: "sbinfo \<Rightarrow> nat \<Rightarrow> bool \<Rightarrow> bufmgr \<Rightarrow> u64 go" where
  "BhTell sbi bh atend s =
     gbind (deref (bh_Block (bm_heads s bh))) (\<lambda>b.
     gbind (manager_of s b) (\<lambda>_.
     if bb_BlkAddr (bm_blocks s b) = NULL_ADDR then Ret NULL_ADDR_UL
     else Ret (ErofsPos sbi (ucast (bb_BlkAddr (bm_blocks s b)))
               + (if atend then bh_Off zero_bhead else bh_Off (bm_heads s bh)))))"

subsection \<open>Dropping and flushing\<close>

definition BhFlushGenericEnd :: "nat \<Rightarrow> bufmgr \<Rightarrow> (int \<times> bufmgr) go" where
  "BhFlushGenericEnd bh s =
     gbind (on_links (\<lambda>h. ListDel h (Some (BhList bh))) s) (\<lambda>s1. Ret (0, s1))"

definition Flush :: "bh_ops \<Rightarrow> nat \<Rightarrow> bufmgr \<Rightarrow> (int \<times> bufmgr) go" where
  "Flush op bh s = (case op of
       SkipWriteOps \<Rightarrow> Ret (- EBUSY, s)
     | DropDirectlyBhops \<Rightarrow> BhFlushGenericEnd bh s
     | SkipWriteBhops \<Rightarrow> Ret (- EBUSY, s))"

definition ErofsBfree :: "nat \<Rightarrow> bufmgr \<Rightarrow> bufmgr go" where
  "ErofsBfree b s =
     gbind (manager_of s b) (\<lambda>_.
     gbind (IsListEmpty (bm_links s) (Some (BbBufs b))) (\<lambda>empty.
     if empty then Ret s
     else
       let s1 = (if Some b = LastMappedBlock s
                 then (let (prev, s0) = ContainerOf (lprev (bm_links s) (BbMapped b)) Member_MappedList s
                       in s0\<lparr>LastMappedBlock := Some prev\<rparr>)
                 else s)
       in gbind (on_links (\<lambda>h. ListDel h (Some (BbMapped b))) s1) (\<lambda>s2.
          on_links (\<lambda>h. ListDel h (Some (BbList b))) s2)))"

definition BDrop :: "sbinfo \<Rightarrow> nat \<Rightarrow> bool \<Rightarrow> bufmgr \<Rightarrow> bufmgr go" where
  "BDrop sbi bh tryRevoke s =
     gbind (deref (bh_Block (bm_heads s bh))) (\<lambda>b.
     gbind (manager_of s b) (\<lambda>_.
     let blkaddr = bb_BlkAddr (bm_blocks s b);
         nblk = ucast (BlkRoundUp sbi (bb_Off (bm_blocks s b))) :: u32;
         rollback = (tryRevoke \<and> blkaddr \<noteq> NULL_ADDR \<and> TailBlkAddr s = blkaddr + nblk);
         s1 = upd_bh bh (\<lambda>x. x\<lparr>bh_Op := Some DropDirectlyBhops\<rparr>) s
     in gbind (BhFlushGenericEnd bh s1) (\<lambda>(_, s2).
        gbind (IsListEmpty (bm_links s2) (Some (BbBufs b))) (\<lambda>empty.
        if \<not> empty then Ret s2
        else
          let s3 = (if \<not> rollback \<and> bb_Type (bm_blocks s2 b) \<noteq> DATA
                    then s2\<lparr>MetaBlkCnt := MetaBlkCnt s2 + nblk\<rparr> else s2)
          in gbind (ErofsBfree b s3) (\<lambda>s4.
             Ret (if rollback then s4\<lparr>TailBlkAddr := blkaddr\<rparr> else s4))))))"

text \<open>\<open>ErofsBflush\<close>: the heads of one block, then the blocks.  \<open>Inl\<close> is an early return.\<close>

fun flush_heads :: "nat \<Rightarrow> nat \<Rightarrow> nat option \<Rightarrow> bool \<Rightarrow> bufmgr \<Rightarrow> ((int + bool) \<times> bufmgr) go" where
  "flush_heads 0 b bh skip s = NoFuel"
| "flush_heads (Suc k) b bh skip s =
     (case bh of
        None \<Rightarrow> Ret (Inr skip, s)
      | Some i \<Rightarrow>
          let nx = lnext (bm_links s) (BhList i) in
          gbind (if nx \<noteq> None \<and> nx \<noteq> Some (BbBufs b) then BufferHeadFromList nx else Ret None) (\<lambda>nbh.
          gbind (case bh_Op (bm_heads s i) of
                   None \<Rightarrow> Ret (Inr skip, s)
                 | Some op \<Rightarrow>
                     if op = SkipWriteOps then Ret (Inr True, s)
                     else gbind (Flush op i s) (\<lambda>(ret, s1).
                       Ret (if ret < 0 then Inl ret else Inr skip, s1))) (\<lambda>(r, s1).
          case r of
            Inl e \<Rightarrow> Ret (Inl e, s1)
          | Inr skip1 \<Rightarrow>
              if nbh = None \<or> nbh = Some i then Ret (Inr skip1, s1)
              else flush_heads k b nbh skip1 s1)))"

definition flush_block :: "nat \<Rightarrow> sbinfo \<Rightarrow> nat \<Rightarrow> bufmgr \<Rightarrow> io \<Rightarrow> ((int + unit) \<times> bufmgr \<times> io) go" where
  "flush_block fuel sbi p s w =
     gbind (MapBhInternal sbi p s) (\<lambda>(blkaddr, s1).
     gbind (IsListEmpty (bm_links s1) (Some (BbBufs p))) (\<lambda>empty.
     gbind (if empty then Ret (Inr False, s1)
            else gbind (BufferHeadFromList (lnext (bm_links s1) (BbBufs p))) (\<lambda>bh.
              flush_heads fuel p bh False s1)) (\<lambda>(r, s2).
     case r of
       Inl e \<Rightarrow> Ret (Inl e, s2, w)
     | Inr skip \<Rightarrow>
         if skip then Ret (Inr (), s2, w)
         else
           let blksiz = ucast (ErofsBlkSiz sbi) :: u64; off = bb_Off (bm_blocks s2 p);
               padding = blksiz - (off AND (blksiz - 1))
           in gbind (if padding \<noteq> blksiz
                     then ErofsDevFillzero w (ErofsPos sbi blkaddr - padding) padding True
                     else Ret (0, w)) (\<lambda>(_, w1).
              let s3 = (if bb_Type (bm_blocks s2 p) \<noteq> DATA
                        then s2\<lparr>MetaBlkCnt := MetaBlkCnt s2 + ucast (BlkRoundUp sbi off)\<rparr> else s2)
              in gbind (ErofsBfree p s3) (\<lambda>s4. Ret (Inr (), s4, w1))))))"

fun ErofsBflush_loop ::
  "nat \<Rightarrow> nat \<Rightarrow> sbinfo \<Rightarrow> nat option \<Rightarrow> nat option \<Rightarrow> bufmgr \<Rightarrow> io \<Rightarrow> (int \<times> bufmgr \<times> io) go" where
  "ErofsBflush_loop 0 fuel sbi bb p s w = NoFuel"
| "ErofsBflush_loop (Suc k) fuel sbi bb p s w =
     (case p of
        None \<Rightarrow> Ret (0, s, w)
      | Some b \<Rightarrow>
          if b = 0 then Ret (0, s, w)
          else let nx = lnext (bm_links s) (BbList b) in
            gbind (if nx \<noteq> None \<and> nx \<noteq> Some (BbList 0) then BufferBlockFromList nx else Ret None) (\<lambda>n.
            if p = bb then Ret (0, s, w)
            else gbind (flush_block fuel sbi b s w) (\<lambda>(r, s1, w1).
              case r of
                Inl e \<Rightarrow> Ret (e, s1, w1)
              | Inr _ \<Rightarrow> if n = None \<or> n = p then Ret (0, s1, w1)
                         else ErofsBflush_loop k fuel sbi bb n s1 w1)))"

definition ErofsBflush ::
  "nat \<Rightarrow> sbinfo \<Rightarrow> nat option \<Rightarrow> bufmgr \<Rightarrow> io \<Rightarrow> (int \<times> bufmgr \<times> io) go" where
  "ErofsBflush fuel sbi bb s w =
     gbind (IsListEmpty (bm_links s) (Some (BbList 0))) (\<lambda>empty.
     if empty then Ret (0, s, w)
     else gbind (BufferBlockFromList (lnext (bm_links s) (BbList 0))) (\<lambda>p.
       ErofsBflush_loop fuel fuel sbi bb p s w))"

subsection \<open>Reserving the superblock\<close>

datatype reserve_error = AllocFailed balloc_error | BalloonFailed | PinFailed

definition ReserveSuperblock ::
  "nat \<Rightarrow> sbinfo \<Rightarrow> bufmgr \<Rightarrow> ((reserve_error + nat) \<times> bufmgr) go" where
  "ReserveSuperblock fuel sbi s =
     gbind (Balloc fuel sbi META 0 0 0 s) (\<lambda>(r, s1).
     case r of
       Inl e \<Rightarrow> Ret (Inl (AllocFailed e), s1)
     | Inr bh \<Rightarrow>
         let s2 = upd_bh bh (\<lambda>x. x\<lparr>bh_Op := Some SkipWriteOps\<rparr>) s1 in
         gbind (BhBalloon sbi bh (ucast EROFS_SUPER_END) s2) (\<lambda>(errr, s3).
         if errr < 0 then gbind (BDrop sbi bh True s3) (\<lambda>s4. Ret (Inl BalloonFailed, s4))
         else gbind (MapBh fuel sbi False (bh_Block (bm_heads s3 bh)) s3) (\<lambda>(_, s4).
           gbind (BhTell sbi bh False s4) (\<lambda>pos.
           if pos \<noteq> 0 then gbind (BDrop sbi bh True s4) (\<lambda>s5. Ret (Inl PinFailed, s5))
           else Ret (Inr bh, s4)))))"

end
