(* ===== verification/BufMgrInv.thy ===== *)
theory BufMgrInv
  imports BufMgr
begin

text \<open>
  The invariant of the buffer manager and what each operation of theory \<open>BufMgr\<close> does to it:
  the block list is a ring of the mapped blocks followed by the unmapped ones, mapped blocks are
  laid out without gaps up to the tail address, and every mapped block is filed in the bucket
  that its type and fill level select.
\<close>

section \<open>Buckets\<close>

definition bucket_of :: "sbinfo \<Rightarrow> bblock \<Rightarrow> nat \<times> nat" where
  "bucket_of sbi bb = (nat (bb_Type bb), unat (bb_Off bb AND ucast (ErofsBlkSiz sbi - 1)))"

definition buckets_hold :: "sbinfo \<Rightarrow> node links \<Rightarrow> (nat \<Rightarrow> bblock) \<Rightarrow> nat set \<Rightarrow> bool" where
  "buckets_hold sbi h f M \<longleftrightarrow>
     (\<forall>t<2. \<forall>j<4096. \<exists>bs. dll h (Bucket t j) (map BbMapped bs)
        \<and> set bs = {b \<in> M. bucket_of sbi (f b) = (t, j)})"

text \<open>The nodes the buckets of \<open>M\<close> consist of.\<close>

definition bucket_nodes :: "nat set \<Rightarrow> node set" where
  "bucket_nodes M = BbMapped ` M \<union> {n. \<exists>t j. n = Bucket t j}"

lemma bucket_nodes_iff [simp]:
  "BbMapped b \<in> bucket_nodes M \<longleftrightarrow> b \<in> M" "Bucket t j \<in> bucket_nodes M"
  "BbList b \<notin> bucket_nodes M" "BbBufs b \<notin> bucket_nodes M" "BhList i \<notin> bucket_nodes M"
  "Wild \<notin> bucket_nodes M"
  by (auto simp: bucket_nodes_def)

lemma buckets_holdD:
  "buckets_hold sbi h f M \<Longrightarrow> t < 2 \<Longrightarrow> j < 4096 \<Longrightarrow>
     \<exists>bs. dll h (Bucket t j) (map BbMapped bs) \<and> set bs = {b \<in> M. bucket_of sbi (f b) = (t, j)}"
  by (simp add: buckets_hold_def)

lemma buckets_hold_cong:
  "(\<And>b. b \<in> M \<Longrightarrow> bucket_of sbi (f b) = bucket_of sbi (g b)) \<Longrightarrow>
     buckets_hold sbi h f M = buckets_hold sbi h g M"
proof -
  assume a: "\<And>b. b \<in> M \<Longrightarrow> bucket_of sbi (f b) = bucket_of sbi (g b)"
  have "{b \<in> M. bucket_of sbi (f b) = p} = {b \<in> M. bucket_of sbi (g b) = p}" for p
    using a by auto
  then show ?thesis by (simp add: buckets_hold_def)
qed

text \<open>Changing one ring leaves the others: the rings of different buckets share no node.\<close>

lemma buckets_hold_change:
  assumes hold: "buckets_hold sbi h f M" and tj: "bucket_of sbi (f b) = (t, j)"
    and ring: "dll h' (Bucket t j) (map BbMapped bs)"
    and bs: "set bs = {x \<in> N. bucket_of sbi (f x) = (t, j)}"
    and NM: "N - {b} = M - {b}"
    and same: "same_outside A h h'"
    and A: "A \<subseteq> insert (BbMapped b) (insert (Bucket t j)
              (BbMapped ` {x \<in> M. bucket_of sbi (f x) = (t, j)}))"
  shows "buckets_hold sbi h' f N"
  unfolding buckets_hold_def
proof (intro allI impI)
  fix t' j' :: nat
  assume lt: "t' < 2" "j' < 4096"
  show "\<exists>bs. dll h' (Bucket t' j') (map BbMapped bs)
      \<and> set bs = {x \<in> N. bucket_of sbi (f x) = (t', j')}"
  proof (cases "(t', j') = (t, j)")
    case True
    then show ?thesis using ring bs by auto
  next
    case False
    obtain bs' where bs': "dll h (Bucket t' j') (map BbMapped bs')"
        "set bs' = {x \<in> M. bucket_of sbi (f x) = (t', j')}"
      using buckets_holdD [OF hold lt] by blast
    have "x \<in> N \<longleftrightarrow> x \<in> M" if "bucket_of sbi (f x) = (t', j')" for x
      using NM that False tj by (cases "x = b") auto
    then have eq: "{x \<in> N. bucket_of sbi (f x) = (t', j')} = {x \<in> M. bucket_of sbi (f x) = (t', j')}"
      by blast
    have "A \<inter> insert (Bucket t' j') (set (map BbMapped bs')) = {}"
      using A False bs'(2) tj by fastforce
    then have "dll h' (Bucket t' j') (map BbMapped bs')"
      by (rule dll_frame [OF bs'(1) same])
    with bs'(2) eq show ?thesis by auto
  qed
qed

lemma bucket_remove:
  assumes hold: "buckets_hold sbi h f M" and b: "b \<in> M" "bucket_of sbi (f b) = (t, j)" "t < 2" "j < 4096"
  shows "\<exists>h'. ListDel h (Some (BbMapped b)) = Ret h' \<and> buckets_hold sbi h' f (M - {b})
           \<and> same_outside (bucket_nodes M) h h'"
proof -
  obtain bs where bs: "dll h (Bucket t j) (map BbMapped bs)"
      "set bs = {x \<in> M. bucket_of sbi (f x) = (t, j)}"
    using buckets_holdD [OF hold b(3,4)] by blast
  then have "b \<in> set bs" using b by simp
  then obtain xs ys where xy: "bs = xs @ b # ys" by (meson split_list)
  obtain h' where h': "ListDel h (Some (BbMapped b)) = Ret h'"
      "dll h' (Bucket t j) (map BbMapped xs @ map BbMapped ys)"
      "same_outside ({BbMapped b, Bucket t j} \<union> set (map BbMapped xs @ map BbMapped ys)) h h'"
    using ring.del_rep [of h "Bucket t j" "map BbMapped xs" "BbMapped b" "map BbMapped ys"] bs(1) xy
    by auto
  have dist: "b \<notin> set (xs @ ys)"
    using ring.rep_distinct [OF bs(1)] xy by auto
  have "buckets_hold sbi h' f (M - {b})"
  proof (rule buckets_hold_change [OF hold b(2) _ _ _ h'(3)])
    show "dll h' (Bucket t j) (map BbMapped (xs @ ys))" using h'(2) by simp
    show "set (xs @ ys) = {x \<in> M - {b}. bucket_of sbi (f x) = (t, j)}"
      using bs(2) xy dist by auto
    show "{BbMapped b, Bucket t j} \<union> set (map BbMapped xs @ map BbMapped ys)
        \<subseteq> insert (BbMapped b) (insert (Bucket t j)
            (BbMapped ` {x \<in> M. bucket_of sbi (f x) = (t, j)}))"
      using bs(2) xy by auto
  qed auto
  moreover have "same_outside (bucket_nodes M) h h'"
    using h'(3) by (rule same_outside_mono) (use bs(2) xy b in \<open>auto simp: bucket_nodes_def\<close>)
  ultimately show ?thesis using h'(1) by blast
qed

lemma bucket_release:
  assumes hold: "buckets_hold sbi h f M" and b: "b \<notin> M" "dll h (BbMapped b) []"
  shows "\<exists>h'. ListDel h (Some (BbMapped b)) = Ret h' \<and> buckets_hold sbi h' f M
           \<and> same_outside {BbMapped b} h h'"
proof -
  obtain h' where h': "ListDel h (Some (BbMapped b)) = Ret h'" "same_outside {BbMapped b} h h'"
    using ring.del_alone [OF b(2)] by blast
  have "buckets_hold sbi h' f M"
    unfolding buckets_hold_def
  proof (intro allI impI)
    fix t j :: nat assume "t < 2" "j < 4096"
    then obtain bs where "dll h (Bucket t j) (map BbMapped bs)"
        "set bs = {x \<in> M. bucket_of sbi (f x) = (t, j)}"
      using buckets_holdD [OF hold] by blast
    then show "\<exists>bs. dll h' (Bucket t j) (map BbMapped bs)
        \<and> set bs = {x \<in> M. bucket_of sbi (f x) = (t, j)}"
      using b(1) by (intro exI [of _ bs] conjI dll_frame [OF _ h'(2)]) auto
  qed
  with h' show ?thesis by blast
qed

lemma bucket_file:
  assumes hold: "buckets_hold sbi h f M" and b: "b \<notin> M" "bucket_of sbi (f b) = (t, j)" "t < 2" "j < 4096"
  shows "\<exists>h'. ListAddTail h (Some (BbMapped b)) (Some (Bucket t j)) = Ret h'
           \<and> buckets_hold sbi h' f (insert b M) \<and> same_outside (bucket_nodes (insert b M)) h h'"
proof -
  obtain bs where bs: "dll h (Bucket t j) (map BbMapped bs)"
      "set bs = {x \<in> M. bucket_of sbi (f x) = (t, j)}"
    using buckets_holdD [OF hold b(3,4)] by blast
  have "BbMapped b \<notin> insert (Bucket t j) (set (map BbMapped bs))" using bs(2) b(1) by auto
  then obtain h' where h': "ListAddTail h (Some (BbMapped b)) (Some (Bucket t j)) = Ret h'"
      "dll h' (Bucket t j) (map BbMapped bs @ [BbMapped b])"
      "same_outside ({BbMapped b, Bucket t j} \<union> set (map BbMapped bs)) h h'"
    using ring.add_tail_rep [OF bs(1), of "BbMapped b"] by blast
  have "buckets_hold sbi h' f (insert b M)"
  proof (rule buckets_hold_change [OF hold b(2) _ _ _ h'(3)])
    show "dll h' (Bucket t j) (map BbMapped (bs @ [b]))" using h'(2) by simp
    show "set (bs @ [b]) = {x \<in> insert b M. bucket_of sbi (f x) = (t, j)}"
      using bs(2) b by auto
  qed (use bs(2) in auto)
  moreover have "same_outside (bucket_nodes (insert b M)) h h'"
    using h'(3) by (rule same_outside_mono) (use bs(2) in \<open>auto simp: bucket_nodes_def\<close>)
  ultimately show ?thesis using h'(1) by blast
qed

section \<open>The invariant\<close>

definition small_blocks :: "sbinfo \<Rightarrow> bool" where
  "small_blocks sbi \<longleftrightarrow> unat (si_BlkSzBits sbi) \<le> 12"

definition nblks :: "sbinfo \<Rightarrow> bblock \<Rightarrow> nat" where
  "nblks sbi bb = unat (BlkRoundUp sbi (bb_Off bb))"

primrec laid_out :: "sbinfo \<Rightarrow> (nat \<Rightarrow> bblock) \<Rightarrow> nat \<Rightarrow> nat list \<Rightarrow> nat \<Rightarrow> bool" where
  "laid_out sbi f a [] z \<longleftrightarrow> z = a"
| "laid_out sbi f a (b # bs) z \<longleftrightarrow>
     unat (bb_BlkAddr (f b)) = a \<and> laid_out sbi f (a + nblks sbi (f b)) bs z"

definition block_ok :: "bufmgr \<Rightarrow> nat \<Rightarrow> bool" where
  "block_ok s b \<longleftrightarrow> 0 < b \<and> b < bm_next_bb s \<and> bb_FsPrivate (bm_blocks s b)
     \<and> 0 \<le> bb_Type (bm_blocks s b) \<and> bb_Type (bm_blocks s b) \<le> META
     \<and> unat (bb_Off (bm_blocks s b)) < 2 ^ 44"

text \<open>\<open>start\<close> is the first block of the layout, \<open>ms\<close> the mapped blocks and \<open>us\<close> the unmapped
  ones, both in list order.\<close>

definition bm_inv :: "sbinfo \<Rightarrow> nat \<Rightarrow> bufmgr \<Rightarrow> nat list \<Rightarrow> nat list \<Rightarrow> bool" where
  "bm_inv sbi start s ms us \<longleftrightarrow>
     small_blocks sbi
   \<and> dll (bm_links s) (BbList 0) (map BbList (ms @ us))
   \<and> (\<forall>b \<in> set (ms @ us). block_ok s b)
   \<and> bb_BlkAddr (bm_blocks s 0) = NULL_ADDR
   \<and> (\<forall>b \<in> set ms. bb_BlkAddr (bm_blocks s b) \<noteq> NULL_ADDR)
   \<and> (\<forall>b \<in> set us. bb_BlkAddr (bm_blocks s b) = NULL_ADDR \<and> dll (bm_links s) (BbMapped b) [])
   \<and> buckets_hold sbi (bm_links s) (bm_blocks s) (set ms)
   \<and> LastMappedBlock s = Some (last (0 # ms))
   \<and> 0 < bm_next_bb s
   \<and> laid_out sbi (bm_blocks s) start ms (unat (TailBlkAddr s))"

lemma laid_out_append:
  "laid_out sbi f a (xs @ ys) z \<longleftrightarrow> (\<exists>m. laid_out sbi f a xs m \<and> laid_out sbi f m ys z)"
  by (induction xs arbitrary: a) auto

lemma laid_out_cong:
  "(\<And>b. b \<in> set bs \<Longrightarrow> f b = g b) \<Longrightarrow> laid_out sbi f a bs z = laid_out sbi g a bs z"
  by (induction bs arbitrary: a) auto

lemma laid_out_sum:
  "laid_out sbi f a bs z \<Longrightarrow> z = a + sum_list (map (\<lambda>b. nblks sbi (f b)) bs)"
  by (induction bs arbitrary: a) fastforce+

text \<open>Extents of a layout do not overlap and end at or before its end.\<close>

lemma laid_out_le: "laid_out sbi f a bs z \<Longrightarrow> a \<le> z"
  by (induction bs arbitrary: a) force+

lemma laid_out_bounds:
  "laid_out sbi f a bs z \<Longrightarrow> b \<in> set bs \<Longrightarrow>
     a \<le> unat (bb_BlkAddr (f b)) \<and> unat (bb_BlkAddr (f b)) + nblks sbi (f b) \<le> z"
  by (induction bs arbitrary: a) (use laid_out_le in \<open>force+\<close>)

lemma laid_out_disjoint:
  assumes "laid_out sbi f a bs z" "i < j" "j < length bs"
  shows "unat (bb_BlkAddr (f (bs ! i))) + nblks sbi (f (bs ! i)) \<le> unat (bb_BlkAddr (f (bs ! j)))"
proof -
  have "bs = take j bs @ bs ! j # drop (Suc j) bs" using assms(3) by (rule id_take_nth_drop)
  then obtain m where m: "laid_out sbi f a (take j bs) m"
      "laid_out sbi f m (bs ! j # drop (Suc j) bs) z"
    using assms(1) laid_out_append by metis
  have "bs ! i \<in> set (take j bs)" using assms(2,3) by (auto simp: in_set_conv_nth)
  then show ?thesis using laid_out_bounds [OF m(1)] m(2) by auto
qed

lemma laid_out_address:
  "laid_out sbi f a bs z \<Longrightarrow> i < length bs \<Longrightarrow>
     unat (bb_BlkAddr (f (bs ! i))) = a + sum_list (map (\<lambda>b. nblks sbi (f b)) (take i bs))"
  by (induction bs arbitrary: a i) (auto simp: nth_Cons less_Suc_eq_0_disj split: nat.splits)

lemma block_size_bounds:
  assumes "small_blocks sbi"
  shows "unat (ErofsBlkSiz sbi) = 2 ^ unat (si_BlkSzBits sbi)" "2 ^ unat (si_BlkSzBits sbi) \<le> (4096::nat)"
    "unat (ErofsBlkSiz sbi - 1) = 2 ^ unat (si_BlkSzBits sbi) - 1"
proof -
  have b: "unat (si_BlkSzBits sbi) \<le> 12" using assms by (simp add: small_blocks_def)
  then show u: "unat (ErofsBlkSiz sbi) = 2 ^ unat (si_BlkSzBits sbi)" by (simp add: unat_ErofsBlkSiz)
  show "2 ^ unat (si_BlkSzBits sbi) \<le> (4096::nat)"
    using power_increasing [OF b, of "2::nat"] by simp
  have "(1::u32) \<le> ErofsBlkSiz sbi" using u by (simp add: word_le_nat_alt)
  then show "unat (ErofsBlkSiz sbi - 1) = 2 ^ unat (si_BlkSzBits sbi) - 1"
    using u by (simp add: unat_sub)
qed

lemma bucket_index_small:
  assumes "small_blocks sbi"
  shows "unat (off AND ucast (ErofsBlkSiz sbi - 1) :: u64) < 4096"
proof -
  have "unat (off AND ucast (ErofsBlkSiz sbi - 1) :: u64) \<le> unat (ucast (ErofsBlkSiz sbi - 1) :: u64)"
    by (simp add: word_and_le1 flip: word_le_nat_alt)
  also have "\<dots> = unat (ErofsBlkSiz sbi - 1)" by (rule unat_u64_of_u32)
  finally show ?thesis using block_size_bounds(2,3) [OF assms] by simp
qed

lemma nblks_eq:
  assumes "small_blocks sbi" "unat (bb_Off bb) < 2 ^ 44"
  shows "nblks sbi bb = (unat (bb_Off bb) + (2 ^ unat (si_BlkSzBits sbi) - 1)) div 2 ^ unat (si_BlkSzBits sbi)"
  unfolding nblks_def
  using assms block_size_bounds(2) [OF assms(1)]
  by (intro unat_BlkRoundUp) (auto simp: small_blocks_def)

lemma nblks_small:
  assumes "small_blocks sbi" "unat (bb_Off bb) < 2 ^ 44"
  shows "nblks sbi bb < 2 ^ 45"
proof -
  have "nblks sbi bb \<le> unat (bb_Off bb) + (2 ^ unat (si_BlkSzBits sbi) - 1)"
    unfolding nblks_eq [OF assms] by (rule div_le_dividend)
  then show ?thesis using assms(2) block_size_bounds(2) [OF assms(1)] by simp
qed


section \<open>A fresh manager\<close>

lemma init_all_rings:
  "\<exists>h'. init_all ns h = Ret h' \<and> (\<forall>n\<in>set ns. dll h' n []) \<and> same_outside (set ns) h h'"
proof (induction ns rule: rev_induct)
  case Nil
  show ?case by (simp add: init_all_def)
next
  case (snoc n ns)
  then obtain h1 where h1: "init_all ns h = Ret h1" "\<forall>n\<in>set ns. dll h1 n []"
      "same_outside (set ns) h h1" by blast
  obtain h2 where h2: "InitListHead h1 (Some n) = Ret h2" "dll h2 n []" "same_outside {n} h1 h2"
    using ring.init_rep [of h1 n] by blast
  have "dll h2 m []" if "m \<in> set ns" for m
  proof (cases "m = n")
    case False
    then show ?thesis using that h1(2) ring.rep_frame [OF _ h2(3), of m "[]"] by auto
  qed (use h2 in simp)
  moreover have "same_outside (set (ns @ [n])) h h2"
    using h1(3) h2(3) by (rule same_outside_trans) auto
  ultimately show ?case using h1(1) h2(1,2) by (auto simp: init_all_def)
qed

lemma set_bucket_heads: "set bucket_heads = {n. \<exists>t j. n = Bucket t j \<and> t < 2 \<and> j < 4096}"
  by (auto simp: bucket_heads_def)

lemma ErofsBufferInit_inv:
  assumes "small_blocks sbi"
  shows "\<exists>s. ErofsBufferInit startblk = Ret s \<and> bm_inv sbi (unat startblk) s [] []
           \<and> TailBlkAddr s = startblk \<and> MetaBlkCnt s = 0 \<and> bm_next_bb s = 1 \<and> bm_next_bh s = 0
           \<and> bm_heads s = (\<lambda>_. zero_bhead)"
proof -
  obtain h1 where h1: "InitListHead nil_links (Some (BbList 0)) = Ret h1" "dll h1 (BbList 0) []"
    using ring.init_rep [of nil_links "BbList 0"] by blast
  obtain h2 where h2: "init_all bucket_heads h1 = Ret h2" "\<forall>n\<in>set bucket_heads. dll h2 n []"
      "same_outside (set bucket_heads) h1 h2"
    using init_all_rings [of bucket_heads h1] by blast
  have "dll h2 (BbList 0) []"
    using ring.rep_frame [OF h1(2) h2(3)] by (auto simp: set_bucket_heads)
  moreover have "buckets_hold sbi h2 f {}" for f
    using h2(2) by (auto simp: buckets_hold_def set_bucket_heads)
  ultimately show ?thesis
    using h1(1) h2(1) assms by (simp add: ErofsBufferInit_def bm_inv_def)
qed

section \<open>Mapping\<close>

text \<open>Filing a block after its address or offset has changed.\<close>

lemma BupdateMapped_unfiled:
  assumes hold: "buckets_hold sbi (bm_links s) (bm_blocks s) M" and b: "b \<notin> M"
    and alone: "dll (bm_links s) (BbMapped b) []"
    and bb: "bb_FsPrivate (bm_blocks s b)" "bb_BlkAddr (bm_blocks s b) \<noteq> NULL_ADDR"
      "0 \<le> bb_Type (bm_blocks s b)" "bb_Type (bm_blocks s b) \<le> META" and sm: "small_blocks sbi"
  shows "\<exists>h. BupdateMapped sbi b s = Ret (s\<lparr>bm_links := h\<rparr>)
           \<and> buckets_hold sbi h (bm_blocks s) (insert b M)
           \<and> same_outside (bucket_nodes (insert b M)) (bm_links s) h"
proof -
  obtain t j where tj: "bucket_of sbi (bm_blocks s b) = (t, j)" by (cases "bucket_of sbi (bm_blocks s b)")
  have lt: "t < 2" "j < 4096" "nat (bb_Type (bm_blocks s b)) = t"
      "unat (bb_Off (bm_blocks s b) AND ucast (ErofsBlkSiz sbi - 1)) = j"
    using tj bb(3,4) bucket_index_small [OF sm] by (auto simp: bucket_of_def)
  obtain h1 where h1: "ListDel (bm_links s) (Some (BbMapped b)) = Ret h1"
      "buckets_hold sbi h1 (bm_blocks s) M" "same_outside {BbMapped b} (bm_links s) h1"
    using bucket_release [OF hold b alone] by blast
  obtain h2 where h2: "ListAddTail h1 (Some (BbMapped b)) (Some (Bucket t j)) = Ret h2"
      "buckets_hold sbi h2 (bm_blocks s) (insert b M)"
      "same_outside (bucket_nodes (insert b M)) h1 h2"
    using bucket_file [OF h1(2) b tj lt(1,2)] by blast
  have "same_outside (bucket_nodes (insert b M)) (bm_links s) h2"
    using h1(3) h2(3) by (rule same_outside_trans) auto
  moreover have "BupdateMapped sbi b s = Ret (s\<lparr>bm_links := h2\<rparr>)"
    using bb h1(1) h2(1) lt by (simp add: BupdateMapped_def manager_of_def on_links_def Let_def)
  ultimately show ?thesis using h2(2) by blast
qed

lemma BupdateMapped_filed:
  assumes hold: "buckets_hold sbi (bm_links s) f M" and b: "b \<in> M"
    and f: "\<And>x. x \<noteq> b \<Longrightarrow> f x = bm_blocks s x" "bb_Type (f b) = bb_Type (bm_blocks s b)"
    and bb: "bb_FsPrivate (bm_blocks s b)" "bb_BlkAddr (bm_blocks s b) \<noteq> NULL_ADDR"
      "0 \<le> bb_Type (bm_blocks s b)" "bb_Type (bm_blocks s b) \<le> META" and sm: "small_blocks sbi"
  shows "\<exists>h. BupdateMapped sbi b s = Ret (s\<lparr>bm_links := h\<rparr>)
           \<and> buckets_hold sbi h (bm_blocks s) M
           \<and> same_outside (bucket_nodes M) (bm_links s) h"
proof -
  obtain t j where tj: "bucket_of sbi (bm_blocks s b) = (t, j)" by (cases "bucket_of sbi (bm_blocks s b)")
  have lt: "t < 2" "j < 4096" "nat (bb_Type (bm_blocks s b)) = t"
      "unat (bb_Off (bm_blocks s b) AND ucast (ErofsBlkSiz sbi - 1)) = j"
    using tj bb(3,4) bucket_index_small [OF sm] by (auto simp: bucket_of_def)
  obtain t0 j0 where tj0: "bucket_of sbi (f b) = (t0, j0)" by (cases "bucket_of sbi (f b)")
  have lt0: "t0 < 2" "j0 < 4096"
    using tj0 f(2) bb(3,4) bucket_index_small [OF sm] by (auto simp: bucket_of_def)
  obtain h1 where h1: "ListDel (bm_links s) (Some (BbMapped b)) = Ret h1"
      "buckets_hold sbi h1 f (M - {b})" "same_outside (bucket_nodes M) (bm_links s) h1"
    using bucket_remove [OF hold b tj0 lt0] by blast
  have "buckets_hold sbi h1 (bm_blocks s) (M - {b})"
    using h1(2) f(1) by (subst buckets_hold_cong [of _ sbi _ f]) auto
  then obtain h2 where h2: "ListAddTail h1 (Some (BbMapped b)) (Some (Bucket t j)) = Ret h2"
      "buckets_hold sbi h2 (bm_blocks s) (insert b (M - {b}))"
      "same_outside (bucket_nodes (insert b (M - {b}))) h1 h2"
    using bucket_file [of sbi h1 "bm_blocks s" "M - {b}" b t j] tj lt(1,2) by blast
  have M: "insert b (M - {b}) = M" using b by auto
  have "same_outside (bucket_nodes M) (bm_links s) h2"
    using h1(3) h2(3) by (rule same_outside_trans) (use M in auto)
  moreover have "BupdateMapped sbi b s = Ret (s\<lparr>bm_links := h2\<rparr>)"
    using bb h1(1) h2(1) lt by (simp add: BupdateMapped_def manager_of_def on_links_def Let_def)
  ultimately show ?thesis using h2(2) M by auto
qed


lemma bm_inv_distinct:
  assumes "bm_inv sbi start s ms us"
  shows "distinct (ms @ us)" "0 \<notin> set (ms @ us)"
  using assms ring.rep_distinct [of "bm_links s" "BbList 0" "map BbList (ms @ us)"]
  by (auto simp: bm_inv_def distinct_map block_ok_def)

lemma unmapped_alone_frame:
  assumes "same_outside (bucket_nodes M) h h'" "b \<notin> M" "dll h (BbMapped b) []"
  shows "dll h' (BbMapped b) []"
  using ring.rep_frame [OF assms(3,1)] assms(2) by simp

lemma MapBhInternal_unmapped:
  assumes inv: "bm_inv sbi start s ms (u # us)"
    and room: "unat (TailBlkAddr s) + nblks sbi (bm_blocks s u) < 2 ^ 32 - 1"
  shows "\<exists>s'. MapBhInternal sbi u s = Ret (of_nat (unat (TailBlkAddr s) + nblks sbi (bm_blocks s u)), s')
     \<and> bm_inv sbi start s' (ms @ [u]) us
     \<and> unat (TailBlkAddr s') = unat (TailBlkAddr s) + nblks sbi (bm_blocks s u)
     \<and> bm_blocks s' = (bm_blocks s)(u := (bm_blocks s u)\<lparr>bb_BlkAddr := TailBlkAddr s\<rparr>)
     \<and> bm_heads s' = bm_heads s \<and> MetaBlkCnt s' = MetaBlkCnt s
     \<and> bm_next_bb s' = bm_next_bb s \<and> bm_next_bh s' = bm_next_bh s
     \<and> same_outside (bucket_nodes (set (ms @ [u]))) (bm_links s) (bm_links s')"
proof -
  let ?bb = "bm_blocks s u" and ?T = "TailBlkAddr s"
  let ?n = "nblks sbi ?bb"
  define s1 where "s1 = (upd_bb u (\<lambda>bb. bb\<lparr>bb_BlkAddr := ?T\<rparr>) s)\<lparr>LastMappedBlock := Some u\<rparr>"
  have s1: "bm_links s1 = bm_links s" "bm_blocks s1 = (bm_blocks s)(u := ?bb\<lparr>bb_BlkAddr := ?T\<rparr>)"
      "bm_heads s1 = bm_heads s" "MetaBlkCnt s1 = MetaBlkCnt s" "TailBlkAddr s1 = ?T"
      "bm_next_bb s1 = bm_next_bb s" "bm_next_bh s1 = bm_next_bh s" "LastMappedBlock s1 = Some u"
    by (simp_all add: s1_def upd_bb_def)
  have sm: "small_blocks sbi" and ok: "block_ok s u" and uu: "bb_BlkAddr ?bb = NULL_ADDR"
      and alone: "dll (bm_links s) (BbMapped u) []" and nu: "u \<notin> set ms" "u \<notin> set us" "u \<noteq> 0"
    using inv bm_inv_distinct [OF inv] by (auto simp: bm_inv_def)
  have TN: "?T \<noteq> NULL_ADDR"
  proof
    assume "?T = NULL_ADDR"
    then have "unat ?T = 2 ^ 32 - 1" by simp
    with room show False by simp
  qed
  have hold: "buckets_hold sbi (bm_links s1) (bm_blocks s1) (set ms)"
  proof -
    have "buckets_hold sbi (bm_links s1) (bm_blocks s) (set ms)" using inv by (simp add: bm_inv_def s1)
    then show ?thesis using nu by (subst buckets_hold_cong [of _ sbi _ "bm_blocks s"]) (auto simp: s1)
  qed
  obtain h where h: "BupdateMapped sbi u s1 = Ret (s1\<lparr>bm_links := h\<rparr>)"
      "buckets_hold sbi h (bm_blocks s1) (insert u (set ms))"
      "same_outside (bucket_nodes (insert u (set ms))) (bm_links s1) h"
    using BupdateMapped_unfiled [OF hold nu(1)] alone ok TN sm by (auto simp: s1 block_ok_def)
  have nb: "nblks sbi (bm_blocks s1 u) = ?n" by (simp add: s1 nblks_def)
  have n45: "?n < 2 ^ 45" using nblks_small [OF sm] ok by (simp add: block_ok_def)
  let ?a = "ucast ?T + BlkRoundUp sbi (bb_Off ?bb) :: u64"
  have ua: "unat ?a = unat ?T + ?n"
    using room n45 by (simp add: unat_add_exact unat_u64_of_u32 nblks_def)
  have a_eq: "?a = of_nat (unat ?T + ?n)"
    unfolding ua [symmetric] by simp
  define s' where "s' = (if ?a > ucast ?T then s1\<lparr>bm_links := h, TailBlkAddr := ucast ?a\<rparr>
                         else s1\<lparr>bm_links := h\<rparr>)"
  have run: "MapBhInternal sbi u s = Ret (?a, s')"
    using h(1) ok uu by (simp add: MapBhInternal_def Let_def manager_of_def block_ok_def s'_def s1 flip: s1_def)
  have tail: "unat (TailBlkAddr s') = unat ?T + ?n"
  proof (cases "?a > ucast ?T")
    case True
    have "unat (ucast ?a :: u32) = unat ?a"
      using ua room by (simp add: unsigned_ucast_eq take_bit_nat_eq_self)
    with True ua show ?thesis by (simp add: s'_def)
  next
    case False
    then have "unat ?a \<le> unat ?T" by (simp add: word_less_nat_alt not_less unat_u64_of_u32)
    with ua False show ?thesis by (simp add: s'_def s1)
  qed
  have f': "bm_links s' = h" "bm_blocks s' = bm_blocks s1" "bm_heads s' = bm_heads s"
      "MetaBlkCnt s' = MetaBlkCnt s" "LastMappedBlock s' = Some u"
      "bm_next_bb s' = bm_next_bb s" "bm_next_bh s' = bm_next_bh s"
    by (simp_all add: s'_def s1)
  have same: "same_outside (bucket_nodes (set (ms @ [u]))) (bm_links s) h"
    using h(3) by (simp add: s1)
  have "dll h (BbList 0) (map BbList (ms @ u # us))"
    using inv by (intro ring.rep_frame [OF _ same]) (auto simp: bm_inv_def bucket_nodes_def)
  moreover have "dll h (BbMapped v) []" if "v \<in> set us" for v
    using inv that bm_inv_distinct [OF inv]
    by (intro unmapped_alone_frame [OF same]) (auto simp: bm_inv_def)
  moreover have "laid_out sbi (bm_blocks s1) start (ms @ [u]) (unat ?T + ?n)"
  proof -
    have "laid_out sbi (bm_blocks s1) start ms (unat ?T)"
      using inv nu by (subst laid_out_cong [of _ _ "bm_blocks s"]) (auto simp: bm_inv_def s1)
    then show ?thesis using nb by (auto simp: laid_out_append s1)
  qed
  ultimately have "bm_inv sbi start s' (ms @ [u]) us"
    using inv h(2) TN nu tail by (auto simp: bm_inv_def f' s1 block_ok_def)
  then show ?thesis using run tail same a_eq by (auto simp: f' s1)
qed

lemma MapBhInternal_mapped:
  assumes inv: "bm_inv sbi start s ms us" and b: "b \<in> set ms"
  shows "MapBhInternal sbi b s
       = Ret (of_nat (unat (bb_BlkAddr (bm_blocks s b)) + nblks sbi (bm_blocks s b)), s)"
proof -
  let ?bb = "bm_blocks s b"
  have bb: "bb_FsPrivate ?bb" "bb_BlkAddr ?bb \<noteq> NULL_ADDR" "unat (bb_Off ?bb) < 2 ^ 44"
    and sm: "small_blocks sbi"
    using inv b by (auto simp: bm_inv_def block_ok_def)
  have le: "unat (bb_BlkAddr ?bb) + nblks sbi ?bb \<le> unat (TailBlkAddr s)"
    using inv laid_out_bounds [of sbi "bm_blocks s" start ms _ b] b by (auto simp: bm_inv_def)
  have tl: "unat (TailBlkAddr s) < 2 ^ 32" using unsigned_less [of "TailBlkAddr s", where ?'a = nat] by simp
  let ?a = "ucast (bb_BlkAddr ?bb) + BlkRoundUp sbi (bb_Off ?bb) :: u64"
  have ua: "unat ?a = unat (bb_BlkAddr ?bb) + nblks sbi ?bb"
    using le tl by (simp add: unat_add_exact unat_u64_of_u32 nblks_def)
  have "\<not> ?a > ucast (TailBlkAddr s)" using le ua by (simp add: word_less_nat_alt unat_u64_of_u32)
  moreover have "?a = of_nat (unat (bb_BlkAddr ?bb) + nblks sbi ?bb)" unfolding ua [symmetric] by simp
  ultimately show ?thesis using bb by (simp add: MapBhInternal_def manager_of_def)
qed

text \<open>The next block in list order.\<close>

lemma next_block:
  assumes "bm_inv sbi start s ms us"
  shows "lnext (bm_links s) (BbList (last (0 # ms))) = Some (BbList (hd (us @ [0])))"
proof -
  have d: "dll (bm_links s) (BbList 0) (map BbList (ms @ us))" using assms by (simp add: bm_inv_def)
  show ?thesis
  proof (cases ms rule: rev_cases)
    case Nil
    then show ?thesis using dll_next [OF d] by (cases us) auto
  next
    case (snoc xs x)
    then show ?thesis
      using dll_mem_next [of "bm_links s" "BbList 0" "map BbList xs" "BbList x" "map BbList us"] d
      by (cases us) auto
  qed
qed

definition mapped_size :: "sbinfo \<Rightarrow> bufmgr \<Rightarrow> nat list \<Rightarrow> nat" where
  "mapped_size sbi s us = sum_list (map (\<lambda>b. nblks sbi (bm_blocks s b)) us)"

text \<open>\<open>MapBh\<close> maps the unmapped blocks in list order, up to and including the one asked for
  (all of them when none is), and returns the new tail.\<close>

lemma MapBh_loop_maps:
  assumes "bm_inv sbi start s ms (us @ rest)" "unat (TailBlkAddr s) + mapped_size sbi s us < 2 ^ 32 - 1"
    and "length us < k"
    and "(us \<noteq> [] \<and> bb = Some (last us)) \<or> (rest = [] \<and> (bb = None \<or> (\<exists>b. bb = Some b \<and> b \<notin> set us)))"
  shows "\<exists>s'. MapBh_loop k sbi bb (Some (last (0 # ms))) s = Ret (TailBlkAddr s', s')
     \<and> bm_inv sbi start s' (ms @ us) rest
     \<and> unat (TailBlkAddr s') = unat (TailBlkAddr s) + mapped_size sbi s us
     \<and> bm_heads s' = bm_heads s \<and> MetaBlkCnt s' = MetaBlkCnt s
     \<and> (\<forall>b. bm_blocks s' b = (bm_blocks s b)\<lparr>bb_BlkAddr := bb_BlkAddr (bm_blocks s' b)\<rparr>)
     \<and> (\<forall>b. b \<notin> set us \<longrightarrow> bm_blocks s' b = bm_blocks s b)
     \<and> bm_next_bb s' = bm_next_bb s \<and> bm_next_bh s' = bm_next_bh s
     \<and> same_outside (bucket_nodes (set (ms @ us))) (bm_links s) (bm_links s')"
  using assms
proof (induction us arbitrary: s ms k)
  case Nil
  then obtain k' where k: "k = Suc k'" by (cases k) auto
  have "lnext (bm_links s) (BbList (last (0 # ms))) = Some (BbList 0)"
    using next_block [OF Nil.prems(1)] Nil.prems(4) by simp
  then show ?case
    using Nil.prems k by (simp add: mapped_size_def ContainerOf1_def BufferBlockFromList_def)
next
  case (Cons u us)
  obtain k' where k: "k = Suc k'" using Cons.prems(3) by (cases k) auto
  have inv: "bm_inv sbi start s ms (u # (us @ rest))" using Cons.prems(1) by simp
  have nx: "lnext (bm_links s) (BbList (last (0 # ms))) = Some (BbList u)"
    using next_block [OF inv] by simp
  have u: "u \<noteq> 0" "bb_BlkAddr (bm_blocks s u) = NULL_ADDR" "u \<notin> set us"
    using inv bm_inv_distinct [OF inv] by (auto simp: bm_inv_def)
  have room: "unat (TailBlkAddr s) + nblks sbi (bm_blocks s u) < 2 ^ 32 - 1"
    using Cons.prems(2) by (simp add: mapped_size_def)
  obtain a s1 where s1: "MapBhInternal sbi u s = Ret (a, s1)" "bm_inv sbi start s1 (ms @ [u]) (us @ rest)"
     "unat (TailBlkAddr s1) = unat (TailBlkAddr s) + nblks sbi (bm_blocks s u)"
     "bm_blocks s1 = (bm_blocks s)(u := (bm_blocks s u)\<lparr>bb_BlkAddr := TailBlkAddr s\<rparr>)"
     "bm_heads s1 = bm_heads s" "MetaBlkCnt s1 = MetaBlkCnt s" "bm_next_bb s1 = bm_next_bb s"
     "bm_next_bh s1 = bm_next_bh s"
     "same_outside (bucket_nodes (set (ms @ [u]))) (bm_links s) (bm_links s1)"
    using MapBhInternal_unmapped [OF inv room] by blast
  have sz: "mapped_size sbi s1 us = mapped_size sbi s us"
    using u(3) unfolding mapped_size_def by (intro arg_cong [of _ _ sum_list] map_cong) (auto simp: s1(4))
  have step: "MapBh_loop k sbi bb (Some (last (0 # ms))) s
      = (if Some u = bb then Ret (TailBlkAddr s1, s1) else MapBh_loop k' sbi bb (Some u) s1)"
    using nx u s1(1) k by (simp add: ContainerOf1_def BufferBlockFromList_def)
  show ?case
  proof (cases "us = [] \<and> bb = Some u")
    case True
    then show ?thesis using step s1 by (auto simp: mapped_size_def)
  next
    case False
    have nb: "bb \<noteq> Some u" using Cons.prems(4) u(3) False by (auto split: if_splits)
    have "\<exists>s'. MapBh_loop k' sbi bb (Some (last (0 # ms @ [u]))) s1 = Ret (TailBlkAddr s', s')
       \<and> bm_inv sbi start s' ((ms @ [u]) @ us) rest
       \<and> unat (TailBlkAddr s') = unat (TailBlkAddr s1) + mapped_size sbi s1 us
       \<and> bm_heads s' = bm_heads s1 \<and> MetaBlkCnt s' = MetaBlkCnt s1
       \<and> (\<forall>b. bm_blocks s' b = (bm_blocks s1 b)\<lparr>bb_BlkAddr := bb_BlkAddr (bm_blocks s' b)\<rparr>)
       \<and> (\<forall>b. b \<notin> set us \<longrightarrow> bm_blocks s' b = bm_blocks s1 b)
       \<and> bm_next_bb s' = bm_next_bb s1 \<and> bm_next_bh s' = bm_next_bh s1
       \<and> same_outside (bucket_nodes (set ((ms @ [u]) @ us))) (bm_links s1) (bm_links s')"
    proof (rule Cons.IH [OF s1(2)])
      show "unat (TailBlkAddr s1) + mapped_size sbi s1 us < 2 ^ 32 - 1"
        using Cons.prems(2) sz s1(3) by (simp add: mapped_size_def)
      show "length us < k'" using Cons.prems(3) k by simp
      show "us \<noteq> [] \<and> bb = Some (last us) \<or> rest = [] \<and> (bb = None \<or> (\<exists>b. bb = Some b \<and> b \<notin> set us))"
        using Cons.prems(4) nb by (auto split: if_splits)
    qed
    then obtain s' where s': "MapBh_loop k' sbi bb (Some u) s1 = Ret (TailBlkAddr s', s')"
       "bm_inv sbi start s' (ms @ u # us) rest"
       "unat (TailBlkAddr s') = unat (TailBlkAddr s1) + mapped_size sbi s1 us"
       "bm_heads s' = bm_heads s1" "MetaBlkCnt s' = MetaBlkCnt s1"
       "\<forall>b. bm_blocks s' b = (bm_blocks s1 b)\<lparr>bb_BlkAddr := bb_BlkAddr (bm_blocks s' b)\<rparr>"
       "\<forall>b. b \<notin> set us \<longrightarrow> bm_blocks s' b = bm_blocks s1 b"
       "bm_next_bb s' = bm_next_bb s1" "bm_next_bh s' = bm_next_bh s1"
       "same_outside (bucket_nodes (set (ms @ u # us))) (bm_links s1) (bm_links s')"
      by auto
    have "same_outside (bucket_nodes (set (ms @ u # us))) (bm_links s) (bm_links s')"
      using s1(9) s'(10) by (rule same_outside_trans) (auto simp: bucket_nodes_def)
    moreover have "bm_blocks s' b = (bm_blocks s b)\<lparr>bb_BlkAddr := bb_BlkAddr (bm_blocks s' b)\<rparr>" for b
      using s'(6) [rule_format, of b] by (cases "b = u") (auto simp: s1(4))
    moreover have "unat (TailBlkAddr s') = unat (TailBlkAddr s) + mapped_size sbi s (u # us)"
      using s'(3) s1(3) sz by (simp add: mapped_size_def)
    moreover have "bm_blocks s' b = bm_blocks s b" if "b \<notin> set (u # us)" for b
      using s'(7) that by (simp add: s1(4))
    ultimately show ?thesis using step nb s'(1,2,4,5,8,9) s1(5-8) by (intro exI [of _ s']) auto
  qed
qed

end
