(* ===== verification/BufMgrOps.thy ===== *)
theory BufMgrOps
  imports BufMgrInv
begin

text \<open>
  What the operations on blocks and heads do under the invariant of theory \<open>BufMgrInv\<close>:
  allocation, attaching (with the growth of the last extent), the corrupted ring that
  \<open>BhBalloon\<close> leaves, dropping and flushing, and the reservation of the superblock.
\<close>

section \<open>Changes the invariant does not see\<close>

definition buffer_nodes :: "node set" where
  "buffer_nodes = range BbBufs \<union> range BhList"

lemma buffer_nodes_iff [simp]:
  "BbList b \<notin> buffer_nodes" "BbMapped b \<notin> buffer_nodes" "Bucket t j \<notin> buffer_nodes"
  "BbBufs b \<in> buffer_nodes" "BhList i \<in> buffer_nodes"
  by (auto simp: buffer_nodes_def)

lemma buckets_hold_frame:
  assumes "buckets_hold sbi h f M" "same_outside A h h'" "A \<inter> bucket_nodes M = {}"
  shows "buckets_hold sbi h' f M"
  unfolding buckets_hold_def
proof (intro allI impI)
  fix t j :: nat assume "t < 2" "j < 4096"
  then obtain bs where bs: "dll h (Bucket t j) (map BbMapped bs)"
      "set bs = {x \<in> M. bucket_of sbi (f x) = (t, j)}"
    using buckets_holdD [OF assms(1)] by blast
  have "A \<inter> insert (Bucket t j) (set (map BbMapped bs)) = {}"
    using assms(3) bs(2) by (auto simp: bucket_nodes_def)
  then have "dll h' (Bucket t j) (map BbMapped bs)" by (rule dll_frame [OF bs(1) assms(2)])
  with bs(2) show "\<exists>bs. dll h' (Bucket t j) (map BbMapped bs)
      \<and> set bs = {x \<in> M. bucket_of sbi (f x) = (t, j)}" by blast
qed

lemma bm_inv_frame:
  assumes inv: "bm_inv sbi start s ms us" and same: "same_outside A (bm_links s) (bm_links s')"
    and A: "A \<subseteq> buffer_nodes"
    and eq: "bm_blocks s' = bm_blocks s" "LastMappedBlock s' = LastMappedBlock s"
      "bm_next_bb s' = bm_next_bb s" "TailBlkAddr s' = TailBlkAddr s"
  shows "bm_inv sbi start s' ms us"
proof -
  have "dll (bm_links s') (BbList 0) (map BbList (ms @ us))"
    using inv A by (intro ring.rep_frame [OF _ same]) (auto simp: bm_inv_def)
  moreover have "dll (bm_links s') (BbMapped b) []" if "b \<in> set us" for b
    using inv A that by (intro ring.rep_frame [OF _ same]) (auto simp: bm_inv_def)
  moreover have "buckets_hold sbi (bm_links s') (bm_blocks s) (set ms)"
    using inv A by (intro buckets_hold_frame [OF _ same]) (auto simp: bm_inv_def bucket_nodes_def)
  ultimately show ?thesis using inv by (simp add: bm_inv_def eq block_ok_def)
qed

text \<open>Insertion after a member of a ring.\<close>

lemma ListAdd_after:
  assumes "dll h head (xs @ ys)" "e \<notin> insert head (set (xs @ ys))"
  shows "\<exists>h'. ListAdd h (Some e) (Some (last (head # xs))) = Ret h' \<and> dll h' head (xs @ e # ys)
           \<and> same_outside ({e, head} \<union> set (xs @ ys)) h h'"
proof -
  let ?p = "last (head # xs)" and ?n = "hd (ys @ [head])"
  have "?p \<in> insert head (set xs)" "?n \<in> insert head (set ys)" by (auto simp: hd_append)
  with assms(2) have ne: "e \<noteq> ?p" "e \<noteq> ?n" by auto
  then obtain h' where h': "ListAddBetween h (Some e) (Some ?p) (Some ?n) = Ret h'" "linked ?p e ?n h h'"
    using ListAddBetween_linked by metis
  have "lnext h ?p = Some ?n"
  proof (cases xs rule: rev_cases)
    case Nil
    then show ?thesis using dll_next [OF assms(1)] by simp
  next
    case (snoc zs z)
    then show ?thesis using dll_mem_next [of h head zs z ys] assms(1) by simp
  qed
  then have "ListAdd h (Some e) (Some ?p) = Ret h'" using h'(1) by (simp add: ListAdd_def get_next_def)
  with insert_dll [OF assms h'(2)] show ?thesis by blast
qed

section \<open>Allocation\<close>

text \<open>A new block: appended for metadata, put behind the last mapped block for data.\<close>

definition place_new :: "int \<Rightarrow> nat \<Rightarrow> nat list \<Rightarrow> nat list" where
  "place_new ty n us = (if ty = DATA then n # us else us @ [n])"

lemma balloc_new_block_inv:
  assumes inv: "bm_inv sbi start s ms us" and ty: "0 \<le> ty" "ty \<le> META"
  defines "n \<equiv> bm_next_bb s"
  shows "\<exists>s'. balloc_new_block ty s = Ret (n, s') \<and> bm_inv sbi start s' ms (place_new ty n us)
     \<and> dll (bm_links s') (BbBufs n) []
     \<and> bm_blocks s' = (bm_blocks s)(n := \<lparr>bb_BlkAddr = NULL_ADDR, bb_Type = ty, bb_Off = 0, bb_FsPrivate = True\<rparr>)
     \<and> bm_next_bb s' = Suc n \<and> bm_heads s' = bm_heads s \<and> bm_next_bh s' = bm_next_bh s
     \<and> TailBlkAddr s' = TailBlkAddr s \<and> MetaBlkCnt s' = MetaBlkCnt s
     \<and> LastMappedBlock s' = LastMappedBlock s
     \<and> same_outside ({BbBufs n, BbMapped n} \<union> range BbList) (bm_links s) (bm_links s')"
proof -
  let ?nb = "\<lparr>bb_BlkAddr = NULL_ADDR, bb_Type = ty, bb_Off = 0, bb_FsPrivate = True\<rparr>"
  have new: "n \<notin> set (ms @ us)" "n \<noteq> 0" using inv by (auto simp: bm_inv_def block_ok_def n_def)
  have ring0: "dll (bm_links s) (BbList 0) (map BbList ms @ map BbList us)"
    using inv by (simp add: bm_inv_def)
  obtain h1 where h1: "InitListHead (bm_links s) (Some (BbBufs n)) = Ret h1" "dll h1 (BbBufs n) []"
      "same_outside {BbBufs n} (bm_links s) h1"
    using ring.init_rep [of "bm_links s" "BbBufs n"] by blast
  have ring1: "dll h1 (BbList 0) (map BbList ms @ map BbList us)"
    using ring.rep_frame [OF ring0 h1(3)] by auto
  have fresh: "BbList n \<notin> insert (BbList 0) (set (map BbList ms @ map BbList us))" using new by auto
  have "\<exists>h2. (if ty = DATA then ListAdd h1 (Some (BbList n)) (Some (BbList (last (0 # ms))))
              else ListAddTail h1 (Some (BbList n)) (Some (BbList 0))) = Ret h2
           \<and> dll h2 (BbList 0) (map BbList (ms @ place_new ty n us))
           \<and> same_outside (range BbList) h1 h2"
  proof (cases "ty = DATA")
    case True
    have last: "last (BbList 0 # map BbList ms) = BbList (last (0 # ms))"
      by (cases ms rule: rev_cases) auto
    obtain h2 where h2: "ListAdd h1 (Some (BbList n)) (Some (last (BbList 0 # map BbList ms))) = Ret h2"
        "dll h2 (BbList 0) (map BbList ms @ BbList n # map BbList us)"
        "same_outside ({BbList n, BbList 0} \<union> set (map BbList ms @ map BbList us)) h1 h2"
      using ListAdd_after [OF ring1 fresh] by blast
    have "same_outside (range BbList) h1 h2" by (rule same_outside_mono [OF h2(3)]) auto
    with h2 True show ?thesis by (auto simp: place_new_def last simp del: last.simps)
  next
    case False
    obtain h2 where h2: "ListAddTail h1 (Some (BbList n)) (Some (BbList 0)) = Ret h2"
        "dll h2 (BbList 0) ((map BbList ms @ map BbList us) @ [BbList n])"
        "same_outside ({BbList n, BbList 0} \<union> set (map BbList ms @ map BbList us)) h1 h2"
      using ring.add_tail_rep [OF ring1 fresh] by blast
    have "same_outside (range BbList) h1 h2" by (rule same_outside_mono [OF h2(3)]) auto
    with h2 False show ?thesis by (auto simp: place_new_def)
  qed
  then obtain h2 where h2: "(if ty = DATA then ListAdd h1 (Some (BbList n)) (Some (BbList (last (0 # ms))))
              else ListAddTail h1 (Some (BbList n)) (Some (BbList 0))) = Ret h2"
        "dll h2 (BbList 0) (map BbList (ms @ place_new ty n us))" "same_outside (range BbList) h1 h2"
    by blast
  obtain h3 where h3: "InitListHead h2 (Some (BbMapped n)) = Ret h3" "dll h3 (BbMapped n) []"
      "same_outside {BbMapped n} h2 h3"
    using ring.init_rep [of h2 "BbMapped n"] by blast
  let ?s' = "s\<lparr>bm_blocks := (bm_blocks s)(n := ?nb), bm_next_bb := Suc n, bm_links := h3\<rparr>"
  have lm: "LastMappedBlock s = Some (last (0 # ms))" using inv by (simp add: bm_inv_def)
  have run: "balloc_new_block ty s = Ret (n, ?s')"
  proof (cases "ty = DATA")
    case True
    with h1(1) h2(1) h3(1) lm show ?thesis
      by (simp add: balloc_new_block_def new_bblock_def on_links_def n_def del: last.simps)
  next
    case False
    with h1(1) h2(1) h3(1) show ?thesis
      by (simp add: balloc_new_block_def new_bblock_def on_links_def n_def)
  qed
  have "same_outside ({BbBufs n} \<union> range BbList) (bm_links s) h2"
    using h1(3) h2(3) by (rule same_outside_trans) auto
  then have same: "same_outside ({BbBufs n, BbMapped n} \<union> range BbList) (bm_links s) h3"
    using h3(3) by (rule same_outside_trans) auto
  have d3: "dll h3 (BbList 0) (map BbList (ms @ place_new ty n us))"
    using ring.rep_frame [OF h2(2) h3(3)] by auto
  have b3: "dll h3 (BbBufs n) []"
    using ring.rep_frame [OF ring.rep_frame [OF h1(2) h2(3)] h3(3)] by auto
  have m3: "dll h3 (BbMapped b) []" if "b \<in> set us" for b
    using inv that new by (intro ring.rep_frame [OF _ same]) (auto simp: bm_inv_def)
  have "buckets_hold sbi h3 (bm_blocks s) (set ms)"
    using inv new by (intro buckets_hold_frame [OF _ same]) (auto simp: bm_inv_def bucket_nodes_def)
  then have bk: "buckets_hold sbi h3 ((bm_blocks s)(n := ?nb)) (set ms)"
    using new by (subst buckets_hold_cong [of _ sbi _ "bm_blocks s"]) auto
  have lay: "laid_out sbi ((bm_blocks s)(n := ?nb)) start ms (unat (TailBlkAddr s))"
    using inv new by (subst laid_out_cong [of _ _ "bm_blocks s"]) (auto simp: bm_inv_def)
  have mem: "set (place_new ty n us) = insert n (set us)" by (auto simp: place_new_def)
  have ok: "block_ok ?s' b" if "b \<in> set (ms @ place_new ty n us)" for b
  proof (cases "b = n")
    case True
    then show ?thesis using ty new by (simp add: block_ok_def)
  next
    case False
    then have "block_ok s b" using that inv mem by (auto simp: bm_inv_def)
    with False show ?thesis by (simp add: block_ok_def n_def)
  qed
  have un: "bb_BlkAddr (((bm_blocks s)(n := ?nb)) b) = NULL_ADDR \<and> dll h3 (BbMapped b) []"
    if "b \<in> set (place_new ty n us)" for b
    using that mem m3 h3(2) inv by (cases "b = n") (auto simp: bm_inv_def)
  have "bm_inv sbi start ?s' ms (place_new ty n us)"
    unfolding bm_inv_def
  proof (intro conjI)
    show "\<forall>b\<in>set (ms @ place_new ty n us). block_ok ?s' b" using ok by blast
    show "\<forall>b\<in>set (place_new ty n us). bb_BlkAddr (bm_blocks ?s' b) = NULL_ADDR
        \<and> dll (bm_links ?s') (BbMapped b) []" using un by simp
  qed (use inv d3 bk lay new in \<open>auto simp: bm_inv_def simp del: last.simps\<close>)
  with run b3 same show ?thesis by simp
qed

text \<open>The walk of the block list is \<open>List.find\<close>.\<close>

lemma first_fit_loop:
  assumes "chain (bm_links s) a (map BbList bs) (BbList 0)" "0 \<notin> set bs" "length bs < k"
  shows "first_fit k ty need (lnext (bm_links s) a) s
       = Ret (find (\<lambda>b. bb_Type (bm_blocks s b) = ty \<and> need \<le> bb_Off (bm_blocks s b)) bs)"
  using assms
proof (induction bs arbitrary: a k)
  case Nil
  then show ?case by (cases k) auto
next
  case (Cons b bs)
  then obtain k' where k: "k = Suc k'" by (cases k) auto
  have "first_fit k' ty need (lnext (bm_links s) (BbList b)) s
      = Ret (find (\<lambda>b. bb_Type (bm_blocks s b) = ty \<and> need \<le> bb_Off (bm_blocks s b)) bs)"
    using Cons.prems k by (intro Cons.IH) auto
  with Cons.prems k show ?case by (auto simp: ContainerOf1_def BufferBlockFromList_def)
qed

lemma first_fit_find:
  assumes "bm_inv sbi start s ms us" "length (ms @ us) < k"
  shows "first_fit k ty need (lnext (bm_links s) (BbList 0)) s
       = Ret (find (\<lambda>b. bb_Type (bm_blocks s b) = ty \<and> need \<le> bb_Off (bm_blocks s b)) (ms @ us))"
  using assms bm_inv_distinct [OF assms(1)]
  by (intro first_fit_loop) (auto simp: bm_inv_def dll_def)


text \<open>Every block's ring of heads can be appended to (its last pointer is a head or the block).\<close>

definition bufs_linked :: "bufmgr \<Rightarrow> nat list \<Rightarrow> bool" where
  "bufs_linked s bs \<longleftrightarrow> (\<forall>b\<in>set bs. \<exists>p. lprev (bm_links s) (BbBufs b) = Some p
     \<and> (p = BbBufs b \<or> (\<exists>i<bm_next_bh s. p = BhList i)))"

lemma ListAddTail_prev:
  assumes "lprev h head = Some p" "e \<noteq> p" "e \<noteq> head"
  shows "\<exists>h'. ListAddTail h (Some e) (Some head) = Ret h' \<and> linked p e head h h'"
  using ListAddBetween_linked [OF assms(2,3)] assms(1) by (simp add: ListAddTail_def get_prev_def)

text \<open>
  An allocation that skips the search (nothing of the last block would be used, or the type is
  block aligned): a new block joins the list, but the head goes to the \<^emph>\<open>first\<close> block of the
  type whose offset covers the request, at offset \<open>sz\<close>.
\<close>

definition alloc_target :: "int \<Rightarrow> u64 \<Rightarrow> (nat \<Rightarrow> bblock) \<Rightarrow> nat list \<Rightarrow> nat \<Rightarrow> nat" where
  "alloc_target ty need f bs n =
     (case find (\<lambda>b. bb_Type (f b) = ty \<and> need \<le> bb_Off (f b)) bs of Some b \<Rightarrow> b | None \<Rightarrow> n)"

lemma Balloc_no_search:
  assumes inv: "bm_inv sbi start s ms us" and bufs: "bufs_linked s (ms @ us)"
    and al: "GetAlignSize sbi ty0 = (al, ty)" "0 \<le> al" "0 \<le> ty" "ty \<le> META"
    and early: "BfindForAttach fuel sbi ty sz req inl (of_int al) s = Ret (Inr None, s)"
    and fuel: "Suc (length (ms @ us)) < fuel"
  defines "n \<equiv> bm_next_bb s"
  defines "us' \<equiv> place_new ty n us"
  defines "f' \<equiv> (bm_blocks s)(n := \<lparr>bb_BlkAddr = NULL_ADDR, bb_Type = ty, bb_Off = 0, bb_FsPrivate = True\<rparr>)"
  defines "b \<equiv> alloc_target ty (sz + ucast (req + inl) * ucast (of_int al :: u32)) f' (ms @ us') n"
  shows "\<exists>s'. Balloc fuel sbi ty0 sz req inl s
            = Ret (if sz > bb_Off (f' b) then Inl EmptyBufferBlock else Inr (bm_next_bh s), s')
     \<and> bm_inv sbi start s' ms us' \<and> bufs_linked s' (ms @ us') \<and> bm_blocks s' = f' \<and> TailBlkAddr s' = TailBlkAddr s
     \<and> MetaBlkCnt s' = MetaBlkCnt s \<and> bm_next_bb s' = Suc n
     \<and> (sz > bb_Off (f' b) \<or> bm_heads s' = (bm_heads s)(bm_next_bh s := \<lparr>bh_Block = Some b, bh_Off = sz, bh_Op = None\<rparr>)
          \<and> bm_next_bh s' = Suc (bm_next_bh s)
          \<and> (b = n \<longrightarrow> dll (bm_links s') (BbBufs n) [BhList (bm_next_bh s)]))
     \<and> b \<in> set (ms @ us')
     \<and> (\<exists>h. same_outside ({BbBufs n, BbMapped n} \<union> range BbList) (bm_links s) h \<and> dll h (BbBufs n) []
          \<and> (if sz > bb_Off (f' b) then bm_links s' = h \<and> bm_heads s' = bm_heads s \<and> bm_next_bh s' = bm_next_bh s
             else ListAddTail h (Some (BhList (bm_next_bh s))) (Some (BbBufs b)) = Ret (bm_links s')))"
proof -
  let ?i = "bm_next_bh s"
  obtain s1 where s1: "balloc_new_block ty s = Ret (n, s1)" "bm_inv sbi start s1 ms us'"
     "dll (bm_links s1) (BbBufs n) []" "bm_blocks s1 = f'" "bm_next_bb s1 = Suc n"
     "bm_heads s1 = bm_heads s" "bm_next_bh s1 = ?i" "TailBlkAddr s1 = TailBlkAddr s"
     "MetaBlkCnt s1 = MetaBlkCnt s" "LastMappedBlock s1 = LastMappedBlock s"
     "same_outside ({BbBufs n, BbMapped n} \<union> range BbList) (bm_links s) (bm_links s1)"
    using balloc_new_block_inv [OF inv al(3,4)] unfolding n_def us'_def f'_def by blast
  have len: "length (ms @ us') < fuel" using fuel by (simp add: us'_def place_new_def)
  have mem: "set (ms @ us') = insert n (set (ms @ us))" by (auto simp: us'_def place_new_def)
  have new: "n \<notin> set (ms @ us)" using inv by (auto simp: bm_inv_def block_ok_def n_def)
  have fit: "(case first_fit fuel ty (sz + ucast (req + inl) * ucast (of_int al :: u32))
                 (lnext (bm_links s1) (BbList 0)) s1 of Ret r \<Rightarrow> (case r of Some b \<Rightarrow> b | None \<Rightarrow> n) | _ \<Rightarrow> n) = b"
       "\<exists>r. first_fit fuel ty (sz + ucast (req + inl) * ucast (of_int al :: u32))
                 (lnext (bm_links s1) (BbList 0)) s1 = Ret r \<and> (case r of Some b \<Rightarrow> b | None \<Rightarrow> n) = b"
    using first_fit_find [OF s1(2) len] by (simp_all add: b_def alloc_target_def s1(4))
  have bufs1: "bufs_linked s1 (ms @ us')"
    unfolding bufs_linked_def
  proof
    fix c assume c: "c \<in> set (ms @ us')"
    show "\<exists>p. lprev (bm_links s1) (BbBufs c) = Some p \<and> (p = BbBufs c \<or> (\<exists>i<bm_next_bh s1. p = BhList i))"
    proof (cases "c = n")
      case True
      then show ?thesis using dll_prev [OF s1(3)] by simp
    next
      case False
      then have "lprev (bm_links s1) (BbBufs c) = lprev (bm_links s) (BbBufs c)"
        using s1(11) by (auto simp: same_outside_def)
      then show ?thesis using bufs c False mem s1(7) by (auto simp: bufs_linked_def)
    qed
  qed
  have bm: "b \<in> set (ms @ us')"
  proof (cases "find (\<lambda>b. bb_Type (f' b) = ty
      \<and> sz + ucast (req + inl) * ucast (of_int al :: u32) \<le> bb_Off (f' b)) (ms @ us')")
    case None
    then show ?thesis using mem by (simp add: b_def alloc_target_def)
  next
    case (Some c)
    then have "c \<in> set (ms @ us')" by (blast dest: find_SomeD)
    with Some show ?thesis by (simp add: b_def alloc_target_def)
  qed
  obtain r where r: "first_fit fuel ty (sz + ucast (req + inl) * ucast (of_int al :: u32))
                 (lnext (bm_links s1) (BbList 0)) s1 = Ret r" "(case r of Some b \<Rightarrow> b | None \<Rightarrow> n) = b"
    using fit(2) by blast
  have run: "Balloc fuel sbi ty0 sz req inl s
      = (if sz > bb_Off (f' b) then Ret (Inl EmptyBufferBlock, s1)
         else gbind (on_links (\<lambda>h. ListAddTail h (Some (BhList ?i)) (Some (BbBufs b)))
                (s1\<lparr>bm_heads := (bm_heads s)(?i := \<lparr>bh_Block = Some b, bh_Off = sz, bh_Op = None\<rparr>),
                    bm_next_bh := Suc ?i\<rparr>)) (\<lambda>s4. Ret (Inr ?i, s4)))"
    using al early s1(1,4,6,7) r by (simp add: Balloc_def new_bhead_def Let_def)
  show ?thesis
  proof (cases "sz > bb_Off (f' b)")
    case True
    then show ?thesis using run s1 bufs1 bm by auto
  next
    case False
    obtain p where p: "lprev (bm_links s1) (BbBufs b) = Some p" "p = BbBufs b \<or> (\<exists>i<?i. p = BhList i)"
      using bufs1 bm s1(7) by (auto simp: bufs_linked_def)
    have "BhList ?i \<noteq> p" using p(2) by auto
    then obtain h where h: "ListAddTail (bm_links s1) (Some (BhList ?i)) (Some (BbBufs b)) = Ret h"
        "linked p (BhList ?i) (BbBufs b) (bm_links s1) h"
      using ListAddTail_prev [OF p(1)] by blast
    let ?s' = "s1\<lparr>bm_heads := (bm_heads s)(?i := \<lparr>bh_Block = Some b, bh_Off = sz, bh_Op = None\<rparr>),
                  bm_next_bh := Suc ?i, bm_links := h\<rparr>"
    have run': "Balloc fuel sbi ty0 sz req inl s = Ret (Inr ?i, ?s')"
      using run False h(1) by (simp add: on_links_def)
    have "same_outside {p, BhList ?i, BbBufs b} (bm_links s1) h" by (rule linked_same_outside [OF h(2)]) simp
    then have inv': "bm_inv sbi start ?s' ms us'"
      using p(2) by (intro bm_inv_frame [OF s1(2)]) auto
    have "bufs_linked ?s' (ms @ us')"
      unfolding bufs_linked_def
    proof
      fix c assume c: "c \<in> set (ms @ us')"
      show "\<exists>q. lprev (bm_links ?s') (BbBufs c) = Some q
          \<and> (q = BbBufs c \<or> (\<exists>i<bm_next_bh ?s'. q = BhList i))"
      proof (cases "c = b")
        case True
        then show ?thesis using h(2) by (simp add: linked_def)
      next
        case False
        then have "lprev h (BbBufs c) = lprev (bm_links s1) (BbBufs c)"
          using h(2) by (simp add: linked_def)
        then show ?thesis using bufs1 c s1(7) by (auto simp: bufs_linked_def less_Suc_eq)
      qed
    qed
    moreover have "dll h (BbBufs n) [BhList ?i]" if "b = n"
    proof -
      have "p = BbBufs n" using dll_prev [OF s1(3)] p(1) that by simp
      then show ?thesis using h(2) that by (simp add: linked_def dll_def)
    qed
    ultimately show ?thesis using run' inv' False s1 h(1) bm by (intro exI [of _ ?s']) auto
  qed
qed

text \<open>Requests that leave nothing in the last block never reach the search.\<close>

lemma BfindForAttach_early:
  assumes "small_blocks sbi" "((ucast sz + req) AND (ErofsBlkSiz sbi - 1)) + inl = 0 \<or> al = ErofsBlkSiz sbi"
    and "((ucast sz + req) AND (ErofsBlkSiz sbi - 1)) + inl \<le> ErofsBlkSiz sbi"
  shows "BfindForAttach fuel sbi ty sz req inl al s = Ret (Inr None, s)"
  using assms by (auto simp: BfindForAttach_def Let_def)


section \<open>Attaching\<close>

subsection \<open>Block arithmetic\<close>

lemma and_blkmask:
  assumes "small_blocks sbi"
  shows "(x :: u64) AND ucast (ErofsBlkSiz sbi - 1) = take_bit (unat (si_BlkSzBits sbi)) x"
proof -
  let ?b = "unat (si_BlkSzBits sbi)"
  have b: "?b \<le> 12" using assms by (simp add: small_blocks_def)
  have "ErofsBlkSiz sbi - 1 = mask ?b"
    by (simp add: ErofsBlkSiz_def mask_eq_exp_minus_1 push_bit_eq_mult)
  then have "ucast (ErofsBlkSiz sbi - 1) = (mask ?b :: u64)"
    using b by (intro bit_word_eqI) (auto simp: bit_simps)
  then show ?thesis by (simp add: take_bit_eq_mask)
qed

lemma unat_take_bit_mod: "unat (take_bit k (x :: u64)) = unat x mod 2 ^ k"
  unfolding unsigned_take_bit_eq by (simp add: take_bit_eq_mod)

text \<open>The offset inside the last block, from 1 to the block size.\<close>

lemma unat_last_used:
  assumes "small_blocks sbi" "off \<noteq> 0"
  shows "unat (((off - 1) AND ucast (ErofsBlkSiz sbi - 1) :: u64) + 1)
       = (unat off - 1) mod 2 ^ unat (si_BlkSzBits sbi) + 1"
proof -
  have "unat (off - 1) = unat off - 1"
    using assms(2) by (simp add: unat_minus_one)
  moreover have "(unat off - 1) mod 2 ^ unat (si_BlkSzBits sbi) < 4096"
    using block_size_bounds(2) [OF assms(1)]
    by (meson less_le_trans mod_less_divisor zero_less_numeral zero_less_power)
  ultimately show ?thesis
    using assms(1) by (simp add: and_blkmask unat_take_bit_mod unat_add_exact)
qed

lemma occupied_nonneg: "0 \<le> uint (x :: u64)" "\<not> uint (x :: u64) < 0"
  by simp_all

lemma round_up_nat:
  assumes "a dvd b"
  shows "(q * b + p + (a - 1)) div a * a = q * b + (p + (a - 1)) div a * (a :: nat)"
proof (cases "a = 0")
  case False
  obtain c where c: "b = a * c" using assms by (auto simp: dvd_def)
  have "q * b + p + (a - 1) = (p + (a - 1)) + (q * c) * a" by (simp add: c)
  then have "(q * b + p + (a - 1)) div a = q * c + (p + (a - 1)) div a"
    using div_mult_self1 [OF False, of "p + (a - 1)" "q * c"] by metis
  then show ?thesis by (simp add: c algebra_simps)
qed (use assms in simp)

text \<open>A request that fits the rest of the last block does not change the number of blocks: over
  the naturals, with the block size \<open>B\<close> and the alignment \<open>A\<close>.\<close>

lemma fits_same_blocks_nat:
  assumes "A dvd B" "0 < A" "0 < B" "0 < off"
    and fits: "((off - 1) mod B + 1 + (A - 1)) div A * A + incr \<le> (B :: nat)"
  shows "((off + (A - 1)) div A * A + incr + (B - 1)) div B = (off + (B - 1)) div B"
proof -
  define q p where "q = (off - 1) div B" and "p = (off - 1) mod B + 1"
  have off: "off = q * B + p" using assms(4) by (simp add: q_def p_def)
  have p: "0 < p" "p \<le> B" using assms(3) mod_less_divisor [of B "off - 1"] by (simp_all add: p_def Suc_le_eq)
  let ?u = "(p + (A - 1)) div A * A + incr"
  have "p \<le> (p + (A - 1)) div A * A" by (rule le_round_up_nat [OF assms(2)])
  then have "0 < ?u" using p(1) by linarith
  moreover have "?u \<le> B" using fits by (simp only: p_def)
  ultimately have u: "0 < ?u" "?u \<le> B" .
  have one: "(q * B + x + (B - 1)) div B = q + 1" if "0 < x" "x \<le> B" for x
  proof -
    have "q * B + x + (B - 1) = (x - 1) + (q + 1) * B" using that assms(3) by (cases B) auto
    then have "(q * B + x + (B - 1)) div B = (x - 1) div B + (q + 1)"
      using assms(3) by (simp only: div_mult_self1)
    also have "(x - 1) div B = 0" using that by simp
    finally show ?thesis by simp
  qed
  have "(off + (A - 1)) div A * A + incr = q * B + ?u"
    using round_up_nat [OF assms(1), of q p] by (simp add: off)
  then have "((off + (A - 1)) div A * A + incr + (B - 1)) div B = q + 1" using one [OF u] by (simp add: add.assoc)
  also have "\<dots> = (off + (B - 1)) div B" using one [OF p] by (simp add: off)
  finally show ?thesis .
qed

lemma unat_RoundUp_small:
  assumes "unat al = A" "0 < A" "A \<le> 4096" "unat x < 2 ^ 45"
  shows "unat (RoundUp x (ucast (al :: u32))) = (unat x + (A - 1)) div A * A"
    and "unat x \<le> unat (RoundUp x (ucast al))" and "unat (RoundUp x (ucast al)) < unat x + A"
proof -
  have al: "unat (ucast al :: u64) = A" using assms(1) by (simp add: unat_u64_of_u32)
  then have ne: "ucast al \<noteq> (0 :: u64)" using assms(2) by (auto simp: unat_eq_zero [symmetric])
  have nw: "unat x + (unat (ucast al :: u64) - 1) < 2 ^ 64" using assms(3,4) al by simp
  show "unat (RoundUp x (ucast al)) = (unat x + (A - 1)) div A * A"
    using unat_RoundUp [OF ne nw] al by simp
  show "unat x \<le> unat (RoundUp x (ucast al))" "unat (RoundUp x (ucast al)) < unat x + A"
    using RoundUp_props [OF ne nw] al by simp_all
qed

lemma unat_last_used_0:
  assumes "small_blocks sbi"
  shows "unat (((0 - 1) AND ucast (ErofsBlkSiz sbi - 1) :: u64) + 1) = 2 ^ unat (si_BlkSzBits sbi)"
proof -
  let ?b = "unat (si_BlkSzBits sbi)"
  have "(-1 :: u64) AND ucast (ErofsBlkSiz sbi - 1) = ucast (ErofsBlkSiz sbi - 1)" by simp
  moreover have "unat (ucast (ErofsBlkSiz sbi - 1) :: u64) = 2 ^ ?b - 1"
    using block_size_bounds(3) [OF assms] by (simp add: unat_u64_of_u32)
  moreover have "(2::nat) ^ ?b \<le> 4096" "0 < (2::nat) ^ ?b" using block_size_bounds(2) [OF assms] by simp_all
  ultimately show ?thesis by (subst unat_add_exact) (simp_all del: and.left_neutral)
qed

lemma fits_same_blocks:
  assumes sm: "small_blocks sbi" and al: "unat al dvd 2 ^ unat (si_BlkSzBits sbi)"
    and small: "unat (bb_Off bb) + unat incr + 4096 < 2 ^ 44"
    and fits: "att_oob sbi (bb_Off bb) incr al extra \<le> 0"
  shows "nblks sbi (bb\<lparr>bb_Off := RoundUp (bb_Off bb) (ucast al) + incr\<rparr>) = nblks sbi bb"
proof -
  let ?off = "bb_Off bb"
  define A B where "A = unat al" and "B = (2 :: nat) ^ unat (si_BlkSzBits sbi)"
  have B: "B \<le> 4096" "unat (ErofsBlkSiz sbi) = B" "0 < B"
    using block_size_bounds [OF sm] by (simp_all add: B_def)
  have A: "A dvd B" "0 < A" "A \<le> 4096"
    using al B dvd_imp_le [of A B] by (auto simp: A_def B_def intro: Nat.gr0I)
  note up = unat_RoundUp_small [of al A, OF A_def [symmetric] A(2,3)]
  define prev where "prev = ((?off - 1) AND ucast (ErofsBlkSiz sbi - 1) :: u64) + 1"
  have prev_nat: "unat prev = (if ?off = 0 then B else (unat ?off - 1) mod B + 1)"
    unfolding prev_def B_def using unat_last_used [OF sm, of ?off] unat_last_used_0 [OF sm] by auto
  have "(unat ?off - 1) mod B < B" using B(3) by (rule mod_less_divisor)
  then have prevB: "unat prev \<le> B" unfolding prev_nat by simp
  have sum: "unat (RoundUp prev (ucast al) + incr + ucast extra)
      = unat (RoundUp prev (ucast al)) + unat incr + unat extra"
    using small prevB up(3) [of prev] A(3) B(1) unsigned_less [of extra, where ?'a = nat]
    by (simp add: unat_add_exact unat_u64_of_u32)
  have le: "unat (RoundUp prev (ucast al)) + unat incr \<le> B"
  proof -
    have "\<not> ucast (ErofsBlkSiz sbi) < RoundUp prev (ucast al) + incr + ucast extra"
      using fits by (auto simp: att_oob_def Cmpsgn_def prev_def Let_def split: if_splits)
    then show ?thesis using sum B(2) by (simp add: word_less_nat_alt unat_u64_of_u32)
  qed
  have new: "unat (RoundUp ?off (ucast al) + incr) = (unat ?off + (A - 1)) div A * A + unat incr"
    using up(1) [of ?off] up(3) [of ?off] small A(3) by (simp add: unat_add_exact)
  have "nblks sbi (bb\<lparr>bb_Off := RoundUp ?off (ucast al) + incr\<rparr>)
      = ((unat ?off + (A - 1)) div A * A + unat incr + (B - 1)) div B"
    using nblks_eq [OF sm, of "bb\<lparr>bb_Off := RoundUp ?off (ucast al) + incr\<rparr>"] new
      up(1) [of ?off] up(3) [of ?off] small A(3) by (simp add: B_def)
  also have "\<dots> = (unat ?off + (B - 1)) div B"
  proof (cases "?off = 0")
    case True
    then have "unat incr = 0" using le up(2) [of prev] prevB B(1) prev_nat by simp
    then show ?thesis using True A by simp
  next
    case False
    then have "0 < unat ?off" by (simp add: unat_gt_0)
    moreover have "((unat ?off - 1) mod B + 1 + (A - 1)) div A * A + unat incr \<le> B"
      using le up(1) [of prev] prevB B(1) prev_nat False by simp
    ultimately show ?thesis using fits_same_blocks_nat [OF A(1,2) B(3)] by blast
  qed
  also have "\<dots> = nblks sbi bb" using nblks_eq [OF sm, of bb] small by (simp add: B_def)
  finally show ?thesis .
qed


subsection \<open>The tail check\<close>

lemma att_check_unmapped:
  assumes inv: "bm_inv sbi start s ms us" and b: "b \<in> set us"
  shows "att_check sbi b oob s = Ret (Inr False)"
proof -
  have bu: "bb_BlkAddr (bm_blocks s b) = NULL_ADDR" using inv b by (simp add: bm_inv_def)
  obtain xs ys where us: "us = xs @ b # ys" using b by (meson split_list)
  have d: "dll (bm_links s) (BbList 0) (map BbList (ms @ xs) @ BbList b # map BbList ys)"
    using inv us by (simp add: bm_inv_def)
  have "lnext (bm_links s) (BbList b) = Some (BbList (hd (ys @ [0])))"
    using dll_mem_next [OF d] by (cases ys) auto
  then have "ListNextEntryBB s b = Ret (Some (hd (ys @ [0])))"
    by (simp add: ListNextEntryBB_def BufferBlockFromList_def)
  moreover have "bb_BlkAddr (bm_blocks s (hd (ys @ [0]))) = NULL_ADDR"
    using inv us by (cases ys) (auto simp: bm_inv_def)
  ultimately show ?thesis using bu by (simp add: att_check_def Let_def)
qed

lemma att_check_last:
  assumes inv: "bm_inv sbi start s (ms @ [b]) us"
  shows "att_check sbi b oob s = Ret (Inr (0 \<le> oob))"
proof -
  let ?bb = "bm_blocks s b"
  have bm: "bb_BlkAddr ?bb \<noteq> NULL_ADDR" using inv by (simp add: bm_inv_def)
  have "lnext (bm_links s) (BbList b) = Some (BbList (hd (us @ [0])))"
    using next_block [OF inv] by simp
  then have nx: "ListNextEntryBB s b = Ret (Some (hd (us @ [0])))"
    by (simp add: ListNextEntryBB_def BufferBlockFromList_def)
  have nu: "bb_BlkAddr (bm_blocks s (hd (us @ [0]))) = NULL_ADDR"
    using inv by (cases us) (auto simp: bm_inv_def)
  have "unat (TailBlkAddr s) = unat (bb_BlkAddr ?bb) + nblks sbi ?bb"
    using inv by (auto simp: bm_inv_def laid_out_append)
  moreover have "TailBlkAddr s = of_nat (unat (TailBlkAddr s))" by simp
  ultimately have "TailBlkAddr s = of_nat (unat (bb_BlkAddr ?bb) + nblks sbi ?bb)" by metis
  then have "TailBlkAddr s = bb_BlkAddr ?bb + ucast (BlkRoundUp sbi (bb_Off ?bb))"
    by (simp add: nblks_def)
  then show ?thesis using bm nx nu by (simp add: att_check_def Let_def)
qed

text \<open>Inside the layout: growing over the end of the extent is refused.\<close>

lemma att_check_inner:
  assumes inv: "bm_inv sbi start s (ms @ b # c # ms') us"
  shows "att_check sbi b oob s
       = (if oob > 0 then Ret (Inl (- EINVAL))
          else Ret (Inr (oob = 0 \<and> TailBlkAddr s
                 = bb_BlkAddr (bm_blocks s b) + ucast (BlkRoundUp sbi (bb_Off (bm_blocks s b))))))"
proof -
  have d: "dll (bm_links s) (BbList 0) (map BbList ms @ BbList b # map BbList (c # ms' @ us))"
    using inv by (simp add: bm_inv_def)
  have "lnext (bm_links s) (BbList b) = Some (BbList c)"
    using dll_mem_next [OF d] by simp
  then have "ListNextEntryBB s b = Ret (Some c)"
    by (simp add: ListNextEntryBB_def BufferBlockFromList_def)
  moreover have "bb_BlkAddr (bm_blocks s c) \<noteq> NULL_ADDR" "bb_BlkAddr (bm_blocks s b) \<noteq> NULL_ADDR"
    using inv by (auto simp: bm_inv_def)
  ultimately show ?thesis by (auto simp: att_check_def Let_def)
qed

subsection \<open>What an accepted request does\<close>

definition with_off :: "bufmgr \<Rightarrow> nat \<Rightarrow> u64 \<Rightarrow> nat \<Rightarrow> bblock" where
  "with_off s b off = (bm_blocks s)(b := (bm_blocks s b)\<lparr>bb_Off := off\<rparr>)"

lemma with_off_simps [simp]:
  "bb_BlkAddr (with_off s b off x) = bb_BlkAddr (bm_blocks s x)"
  "bb_Type (with_off s b off x) = bb_Type (bm_blocks s x)"
  "bb_FsPrivate (with_off s b off x) = bb_FsPrivate (bm_blocks s x)"
  "x \<noteq> b \<Longrightarrow> with_off s b off x = bm_blocks s x"
  "bb_Off (with_off s b off b) = off"
  by (simp_all add: with_off_def)

text \<open>The links an attachment may change: the ring the head joins, and the buckets.\<close>

definition attach_nodes :: "nat \<Rightarrow> nat option \<Rightarrow> nat list \<Rightarrow> node set" where
  "attach_nodes b bh hs =
     (case bh of None \<Rightarrow> {} | Some i \<Rightarrow> insert (BhList i) (insert (BbBufs b) (BhList ` set hs))) \<union> bucket_nodes UNIV"

text \<open>\<open>attach_room\<close> bounds the sizes: offsets below \<open>2 ^ 44\<close> and block numbers below the null
  address, so that no counter of the manager wraps.\<close>

definition attach_room :: "sbinfo \<Rightarrow> bufmgr \<Rightarrow> nat \<Rightarrow> u64 \<Rightarrow> u32 \<Rightarrow> bool" where
  "attach_room sbi s b incr al \<longleftrightarrow>
     unat (bb_Off (bm_blocks s b)) + unat incr + 4096 < 2 ^ 44
   \<and> unat al dvd 2 ^ unat (si_BlkSzBits sbi)
   \<and> (bb_BlkAddr (bm_blocks s b) \<noteq> NULL_ADDR \<longrightarrow>
        unat (bb_BlkAddr (bm_blocks s b))
          + nblks sbi (with_off s b (RoundUp (bb_Off (bm_blocks s b)) (ucast al) + incr) b) < 2 ^ 32 - 1)"

lemma attach_room_off:
  assumes sm: "small_blocks sbi" and room: "attach_room sbi s b incr al"
  defines "off \<equiv> bb_Off (bm_blocks s b)"
  defines "off' \<equiv> RoundUp off (ucast al) + incr"
  shows "unat off \<le> unat (RoundUp off (ucast al))" "unat off' = unat (RoundUp off (ucast al)) + unat incr"
    "unat off' < 2 ^ 44" "unat al dvd unat (RoundUp off (ucast al))" "0 < unat al" "unat al \<le> 4096"
proof -
  have small: "unat off + unat incr + 4096 < 2 ^ 44" and dv: "unat al dvd 2 ^ unat (si_BlkSzBits sbi)"
    using room by (simp_all add: attach_room_def off_def)
  show al: "0 < unat al" "unat al \<le> 4096"
    using dv block_size_bounds(2) [OF sm] dvd_imp_le [OF dv] by (auto intro: Nat.gr0I)
  note up = unat_RoundUp_small [of al "unat al", OF refl al]
  show "unat off \<le> unat (RoundUp off (ucast al))" using up(2) [of off] small by simp
  show "unat al dvd unat (RoundUp off (ucast al))" using up(1) [of off] small by simp
  show "unat off' = unat (RoundUp off (ucast al)) + unat incr"
    using up(3) [of off] small al by (simp add: off'_def unat_add_exact)
  then show "unat off' < 2 ^ 44" using up(3) [of off] small al by simp
qed

lemma laid_out_grow_last:
  assumes "laid_out sbi f a (xs @ [b]) z" "b \<notin> set xs" "\<And>x. x \<noteq> b \<Longrightarrow> g x = f x"
    and "bb_BlkAddr (g b) = bb_BlkAddr (f b)"
  shows "laid_out sbi g a (xs @ [b]) (unat (bb_BlkAddr (f b)) + nblks sbi (g b))"
proof -
  have "laid_out sbi g a xs m = laid_out sbi f a xs m" for m
    using assms(2,3) by (intro laid_out_cong) metis
  then show ?thesis using assms(1,4) by (auto simp: laid_out_append)
qed

lemma laid_out_same:
  "(\<And>x. x \<in> set bs \<Longrightarrow> bb_BlkAddr (g x) = bb_BlkAddr (f x) \<and> nblks sbi (g x) = nblks sbi (f x)) \<Longrightarrow>
     laid_out sbi g a bs z = laid_out sbi f a bs z"
  by (induction bs arbitrary: a) auto

text \<open>
  Every block of the list, mapped or not: a request is refused with \<open>-EINVAL\<close> and no change (only
  when it would grow an extent that another follows), or it is placed at the next aligned offset.
\<close>

definition new_tail :: "sbinfo \<Rightarrow> bufmgr \<Rightarrow> nat \<Rightarrow> u64 \<Rightarrow> bool \<Rightarrow> u32" where
  "new_tail sbi s b off' t = (if t then bb_BlkAddr (bm_blocks s b) + ucast (BlkRoundUp sbi off') else TailBlkAddr s)"

text \<open>Whatever the head does to the ring of its block, the rest of an attachment keeps the layout.\<close>

lemma BattachInternal_linked:
  assumes inv: "bm_inv sbi start s ms us" and b: "b \<in> set (ms @ us)"
    and chk: "att_check sbi b (att_oob sbi (bb_Off (bm_blocks s b)) incr al ext) s = Ret (Inr t)"
    and room: "attach_room sbi s b incr al"
    and link: "(case bh of None \<Rightarrow> Ret s
               | Some i \<Rightarrow> on_links (\<lambda>h. ListAddTail h (Some (BhList i)) (Some (BbBufs b)))
                   (upd_bh i (\<lambda>x. x\<lparr>bh_Off := RoundUp (bb_Off (bm_blocks s b)) (ucast al), bh_Block := Some b\<rparr>) s))
             = Ret (s\<lparr>bm_heads := hds, bm_links := h1\<rparr>)"
    and same: "same_outside buffer_nodes (bm_links s) h1"
  defines "off' \<equiv> RoundUp (bb_Off (bm_blocks s b)) (ucast al) + incr"
  assumes lay: "laid_out sbi (with_off s b off') start ms (unat (new_tail sbi s b off' t))"
  shows "\<exists>s' r. BattachInternal sbi b bh incr al ext False s = Ret (r, s') \<and> 0 \<le> r
     \<and> bm_inv sbi start s' ms us \<and> bm_blocks s' = with_off s b off' \<and> bm_heads s' = hds
     \<and> bm_next_bb s' = bm_next_bb s \<and> bm_next_bh s' = bm_next_bh s \<and> MetaBlkCnt s' = MetaBlkCnt s
     \<and> TailBlkAddr s' = new_tail sbi s b off' t
     \<and> same_outside (bucket_nodes (set ms)) h1 (bm_links s')"
proof -
  have sm: "small_blocks sbi" using inv by (simp add: bm_inv_def)
  have ok: "block_ok s b" using inv b by (simp add: bm_inv_def)
  note off = attach_room_off [OF sm room, folded off'_def]
  have inv1: "bm_inv sbi start (s\<lparr>bm_heads := hds, bm_links := h1\<rparr>) ms us"
    by (rule bm_inv_frame [OF inv, where A = buffer_nodes]) (use same in simp_all)
  define s3 where "s3 = s\<lparr>bm_heads := hds, bm_links := h1, bm_blocks := with_off s b off',
                          TailBlkAddr := new_tail sbi s b off' t\<rparr>"
  have step: "BattachInternal sbi b bh incr al ext False s
      = gbind (BupdateMapped sbi b s3) (\<lambda>s4. Ret (uint (((off' - 1) AND ucast (ErofsBlkSiz sbi - 1)) + 1), s4))"
    using ok chk link
    by (simp add: BattachInternal_def manager_of_def block_ok_def Let_def off'_def s3_def upd_bb_def
        with_off_def new_tail_def)
  have upd: "\<exists>h. BupdateMapped sbi b s3 = Ret (s3\<lparr>bm_links := h\<rparr>)
     \<and> buckets_hold sbi h (with_off s b off') (set ms) \<and> same_outside (bucket_nodes (set ms)) h1 h"
  proof (cases "b \<in> set ms")
    case True
    have "\<exists>h. BupdateMapped sbi b s3 = Ret (s3\<lparr>bm_links := h\<rparr>)
        \<and> buckets_hold sbi h (bm_blocks s3) (set ms) \<and> same_outside (bucket_nodes (set ms)) (bm_links s3) h"
    proof (rule BupdateMapped_filed [OF _ True])
      show "buckets_hold sbi (bm_links s3) (bm_blocks s) (set ms)"
        using inv1 by (simp add: bm_inv_def s3_def)
    qed (use ok inv True sm in \<open>auto simp: s3_def block_ok_def bm_inv_def\<close>)
    then show ?thesis by (simp add: s3_def)
  next
    case False
    then have bu: "bb_BlkAddr (bm_blocks s b) = NULL_ADDR" using b inv by (auto simp: bm_inv_def)
    have "buckets_hold sbi h1 (with_off s b off') (set ms)"
      using inv1 False by (subst buckets_hold_cong [of _ sbi _ "bm_blocks s"]) (auto simp: bm_inv_def with_off_def)
    moreover have "BupdateMapped sbi b s3 = Ret (s3\<lparr>bm_links := h1\<rparr>)"
      using bu ok by (simp add: BupdateMapped_def manager_of_def s3_def block_ok_def Let_def)
    ultimately show ?thesis by auto
  qed
  then obtain h where h: "BupdateMapped sbi b s3 = Ret (s3\<lparr>bm_links := h\<rparr>)"
     "buckets_hold sbi h (with_off s b off') (set ms)" "same_outside (bucket_nodes (set ms)) h1 h"
    by blast
  have ring0: "dll h (BbList 0) (map BbList (ms @ us))"
    using inv1 by (intro ring.rep_frame [OF _ h(3)]) (auto simp: bm_inv_def bucket_nodes_def)
  have alone: "dll h (BbMapped u) []" if "u \<in> set us" for u
    using inv1 that bm_inv_distinct [OF inv]
    by (intro unmapped_alone_frame [OF h(3)]) (auto simp: bm_inv_def)
  have oks: "block_ok (s3\<lparr>bm_links := h\<rparr>) c" if "c \<in> set (ms @ us)" for c
    using inv that off(3) by (cases "c = b") (auto simp: bm_inv_def block_ok_def s3_def)
  have "bm_inv sbi start (s3\<lparr>bm_links := h\<rparr>) ms us"
    unfolding bm_inv_def
  proof (intro conjI)
    show "\<forall>c\<in>set (ms @ us). block_ok (s3\<lparr>bm_links := h\<rparr>) c" using oks by blast
    show "laid_out sbi (bm_blocks (s3\<lparr>bm_links := h\<rparr>)) start ms (unat (TailBlkAddr (s3\<lparr>bm_links := h\<rparr>)))"
      using lay by (simp add: s3_def)
  qed (use inv ring0 alone h(2) in \<open>auto simp: bm_inv_def s3_def\<close>)
  then show ?thesis
    using step h occupied_nonneg by (intro exI [of _ "s3\<lparr>bm_links := h\<rparr>"] exI conjI) (auto simp: s3_def)
qed

lemma BattachInternal_accepted:
  assumes inv: "bm_inv sbi start s ms us" and b: "b \<in> set (ms @ us)"
    and chk: "att_check sbi b (att_oob sbi (bb_Off (bm_blocks s b)) incr al ext) s = Ret (Inr t)"
    and room: "attach_room sbi s b incr al"
    and bh: "case bh of None \<Rightarrow> True
        | Some i \<Rightarrow> dll (bm_links s) (BbBufs b) (map BhList hs) \<and> i \<notin> set hs"
  defines "off' \<equiv> RoundUp (bb_Off (bm_blocks s b)) (ucast al) + incr"
  assumes lay: "laid_out sbi (with_off s b off') start ms (unat (new_tail sbi s b off' t))"
  shows "\<exists>s' r. BattachInternal sbi b bh incr al ext False s = Ret (r, s') \<and> 0 \<le> r
     \<and> bm_inv sbi start s' ms us \<and> bm_blocks s' = with_off s b off'
     \<and> bm_heads s' = (case bh of None \<Rightarrow> bm_heads s
          | Some i \<Rightarrow> (bm_heads s)(i := (bm_heads s i)\<lparr>bh_Off := RoundUp (bb_Off (bm_blocks s b)) (ucast al),
                                               bh_Block := Some b\<rparr>))
     \<and> (case bh of None \<Rightarrow> True | Some i \<Rightarrow> dll (bm_links s') (BbBufs b) (map BhList (hs @ [i])))
     \<and> bm_next_bb s' = bm_next_bb s \<and> bm_next_bh s' = bm_next_bh s \<and> MetaBlkCnt s' = MetaBlkCnt s
     \<and> TailBlkAddr s' = new_tail sbi s b off' t
     \<and> same_outside (attach_nodes b bh hs) (bm_links s) (bm_links s')"
proof -
  let ?ao = "RoundUp (bb_Off (bm_blocks s b)) (ucast al)"
  let ?hd = "case bh of None \<Rightarrow> bm_heads s
          | Some i \<Rightarrow> (bm_heads s)(i := (bm_heads s i)\<lparr>bh_Off := ?ao, bh_Block := Some b\<rparr>)"
  have "\<exists>h1. (case bh of None \<Rightarrow> Ret s
               | Some i \<Rightarrow> on_links (\<lambda>h. ListAddTail h (Some (BhList i)) (Some (BbBufs b)))
                   (upd_bh i (\<lambda>x. x\<lparr>bh_Off := ?ao, bh_Block := Some b\<rparr>) s))
             = Ret (s\<lparr>bm_heads := ?hd, bm_links := h1\<rparr>)
           \<and> same_outside buffer_nodes (bm_links s) h1 \<and> same_outside (attach_nodes b bh hs) (bm_links s) h1
           \<and> (case bh of None \<Rightarrow> True | Some i \<Rightarrow> dll h1 (BbBufs b) (map BhList (hs @ [i])))"
  proof (cases bh)
    case None
    then show ?thesis by (intro exI [of _ "bm_links s"]) simp
  next
    case (Some i)
    have "BhList i \<notin> insert (BbBufs b) (set (map BhList hs))" using bh Some by auto
    then obtain h1 where h1: "ListAddTail (bm_links s) (Some (BhList i)) (Some (BbBufs b)) = Ret h1"
        "dll h1 (BbBufs b) (map BhList hs @ [BhList i])"
        "same_outside ({BhList i, BbBufs b} \<union> set (map BhList hs)) (bm_links s) h1"
      using ring.add_tail_rep [of "bm_links s" "BbBufs b" "map BhList hs" "BhList i"] bh Some by auto
    have "same_outside buffer_nodes (bm_links s) h1" by (rule same_outside_mono [OF h1(3)]) auto
    moreover have "same_outside (attach_nodes b bh hs) (bm_links s) h1"
      by (rule same_outside_mono [OF h1(3)]) (auto simp: attach_nodes_def Some)
    ultimately show ?thesis using h1 Some by (auto simp: on_links_def upd_bh_def)
  qed
  then obtain h1 where h1: "(case bh of None \<Rightarrow> Ret s
               | Some i \<Rightarrow> on_links (\<lambda>h. ListAddTail h (Some (BhList i)) (Some (BbBufs b)))
                   (upd_bh i (\<lambda>x. x\<lparr>bh_Off := ?ao, bh_Block := Some b\<rparr>) s))
             = Ret (s\<lparr>bm_heads := ?hd, bm_links := h1\<rparr>)"
      "same_outside buffer_nodes (bm_links s) h1"
      "case bh of None \<Rightarrow> True | Some i \<Rightarrow> dll h1 (BbBufs b) (map BhList (hs @ [i]))"
      "same_outside (attach_nodes b bh hs) (bm_links s) h1" by blast
  obtain s' r where s': "BattachInternal sbi b bh incr al ext False s = Ret (r, s')" "0 \<le> r" "bm_inv sbi start s' ms us"
      "bm_blocks s' = with_off s b off'" "bm_heads s' = ?hd" "bm_next_bb s' = bm_next_bb s" "bm_next_bh s' = bm_next_bh s"
      "MetaBlkCnt s' = MetaBlkCnt s" "TailBlkAddr s' = new_tail sbi s b off' t"
      "same_outside (bucket_nodes (set ms)) h1 (bm_links s')"
    using BattachInternal_linked [OF inv b chk room h1(1,2) lay [unfolded off'_def]] unfolding off'_def by blast
  moreover have "case bh of None \<Rightarrow> True | Some i \<Rightarrow> dll (bm_links s') (BbBufs b) (map BhList (hs @ [i]))"
    using h1(3) by (auto split: option.splits intro!: ring.rep_frame [OF _ s'(10)])
  moreover have "same_outside (attach_nodes b bh hs) (bm_links s) (bm_links s')"
    by (rule same_outside_trans [OF h1(4) s'(10)]) (auto simp: attach_nodes_def bucket_nodes_def)
  ultimately show ?thesis by blast
qed

definition attached ::
  "bufmgr \<Rightarrow> nat \<Rightarrow> nat option \<Rightarrow> nat list \<Rightarrow> u64 \<Rightarrow> u64 \<Rightarrow> bufmgr \<Rightarrow> bool" where
  "attached s b bh hs pos incr s' \<longleftrightarrow>
     bm_blocks s' = with_off s b (pos + incr)
   \<and> bm_heads s' = (case bh of None \<Rightarrow> bm_heads s
        | Some i \<Rightarrow> (bm_heads s)(i := (bm_heads s i)\<lparr>bh_Off := pos, bh_Block := Some b\<rparr>))
   \<and> (case bh of None \<Rightarrow> True | Some i \<Rightarrow> dll (bm_links s') (BbBufs b) (map BhList (hs @ [i])))
   \<and> bm_next_bb s' = bm_next_bb s \<and> bm_next_bh s' = bm_next_bh s \<and> MetaBlkCnt s' = MetaBlkCnt s
   \<and> unat (TailBlkAddr s) \<le> unat (TailBlkAddr s')
   \<and> same_outside (attach_nodes b bh hs) (bm_links s) (bm_links s')"

text \<open>The decision, which does not depend on the head.\<close>

lemma attach_choice:
  fixes ext :: u32
  assumes inv: "bm_inv sbi start s ms us" and b: "b \<in> set (ms @ us)"
    and room: "attach_room sbi s b incr al"
  defines "oob \<equiv> att_oob sbi (bb_Off (bm_blocks s b)) incr al ext"
    and "off' \<equiv> RoundUp (bb_Off (bm_blocks s b)) (ucast al) + incr"
  shows "b \<in> set (butlast ms) \<and> 0 < oob \<and> att_check sbi b oob s = Ret (Inl (- EINVAL))
     \<or> (\<exists>t. att_check sbi b oob s = Ret (Inr t)
          \<and> laid_out sbi (with_off s b off') start ms (unat (new_tail sbi s b off' t))
          \<and> unat (TailBlkAddr s) \<le> unat (new_tail sbi s b off' t) \<and> \<not> (b \<in> set (butlast ms) \<and> 0 < oob))"
proof -
  let ?off = "bb_Off (bm_blocks s b)"
  have sm: "small_blocks sbi" using inv by (simp add: bm_inv_def)
  have lay0: "laid_out sbi (bm_blocks s) start ms (unat (TailBlkAddr s))" using inv by (simp add: bm_inv_def)
  have same: "oob \<le> 0 \<Longrightarrow> nblks sbi (with_off s b off' b) = nblks sbi (bm_blocks s b)"
    using fits_same_blocks [OF sm, of al "bm_blocks s b" incr ext] room
    by (simp add: attach_room_def oob_def with_off_def off'_def)
  have lay_same: "laid_out sbi (with_off s b off') start ms (unat (TailBlkAddr s))"
    if "b \<in> set ms \<Longrightarrow> oob \<le> 0"
  proof -
    have "nblks sbi (with_off s b off' x) = nblks sbi (bm_blocks s x)" if "x \<in> set ms" for x
      using same \<open>b \<in> set ms \<Longrightarrow> oob \<le> 0\<close> that by (cases "x = b") auto
    then show ?thesis using lay0 by (subst laid_out_same) auto
  qed
  have go: ?thesis
    if "att_check sbi b oob s = Ret (Inr t)" "laid_out sbi (with_off s b off') start ms (unat (new_tail sbi s b off' t))"
      "unat (TailBlkAddr s) \<le> unat (new_tail sbi s b off' t)" "\<not> (b \<in> set (butlast ms) \<and> 0 < oob)" for t
    using that by blast
  consider (un) "b \<in> set us" | (last) ms' where "ms = ms' @ [b]"
    | (inner) xs c ys where "ms = xs @ b # c # ys"
  proof (cases "b \<in> set us")
    case False
    then have "b \<in> set ms" using b by simp
    then obtain xs zs where "ms = xs @ b # zs" by (meson split_list)
    then show thesis using last inner by (cases zs) auto
  qed blast
  then show ?thesis
  proof cases
    case un
    have "b \<notin> set ms" using bm_inv_distinct [OF inv] un by auto
    then show ?thesis
      using att_check_unmapped [OF inv un] lay_same by (intro go [of False]) (auto simp: new_tail_def dest: in_set_butlastD)
  next
    case last
    have inv': "bm_inv sbi start s (ms' @ [b]) us" using inv last by simp
    have nb: "b \<notin> set ms'" "b \<notin> set (butlast ms)" using bm_inv_distinct [OF inv'] last by auto
    show ?thesis
    proof (rule go [of "0 \<le> oob"])
      show "att_check sbi b oob s = Ret (Inr (0 \<le> oob))" by (rule att_check_last [OF inv'])
      have bm: "bb_BlkAddr (bm_blocks s b) \<noteq> NULL_ADDR" using inv' by (simp add: bm_inv_def)
      have n32: "unat (bb_BlkAddr (bm_blocks s b)) + nblks sbi (with_off s b off' b) < 2 ^ 32 - 1"
        using room bm by (simp add: attach_room_def off'_def)
      have nt: "unat (new_tail sbi s b off' True)
          = unat (bb_BlkAddr (bm_blocks s b)) + nblks sbi (with_off s b off' b)"
      proof -
        have "unat (ucast (BlkRoundUp sbi off') :: u32) = nblks sbi (with_off s b off' b)"
          using n32 by (simp add: nblks_def unsigned_ucast_eq take_bit_nat_eq_self)
        then show ?thesis using n32 by (simp add: new_tail_def unat_add_exact)
      qed
      show "laid_out sbi (with_off s b off') start ms (unat (new_tail sbi s b off' (0 \<le> oob)))"
      proof (cases "0 \<le> oob")
        case True
        have "laid_out sbi (with_off s b off') start (ms' @ [b])
            (unat (bb_BlkAddr (bm_blocks s b)) + nblks sbi (with_off s b off' b))"
          by (rule laid_out_grow_last [OF _ nb(1)]) (use lay0 last in simp_all)
        then show ?thesis using True nt last by simp
      next
        case False
        then show ?thesis using lay_same by (simp add: new_tail_def)
      qed
      have tl: "unat (TailBlkAddr s) = unat (bb_BlkAddr (bm_blocks s b)) + nblks sbi (bm_blocks s b)"
        using lay0 last by (auto simp: laid_out_append)
      have "nblks sbi (bm_blocks s b) \<le> nblks sbi (with_off s b off' b)"
      proof -
        have "unat ?off \<le> unat off'" "unat ?off < 2 ^ 44" "unat off' < 2 ^ 44"
          using attach_room_off [OF sm room] room by (simp_all add: attach_room_def off'_def)
        then show ?thesis
          by (simp add: nblks_eq [OF sm] div_le_mono)
      qed
      then show "unat (TailBlkAddr s) \<le> unat (new_tail sbi s b off' (0 \<le> oob))"
        using tl nt by (cases "0 \<le> oob") (simp_all add: new_tail_def)
    qed (use nb in simp)
  next
    case inner
    have inv': "bm_inv sbi start s (xs @ b # c # ys) us" using inv inner by simp
    note chk = att_check_inner [OF inv', of oob]
    show ?thesis
    proof (cases "oob > 0")
      case True
      have "b \<in> set (butlast ms)" using inner by (simp add: butlast_append)
      then show ?thesis using True chk by simp
    next
      case False
      let ?t = "oob = 0 \<and> TailBlkAddr s
                 = bb_BlkAddr (bm_blocks s b) + ucast (BlkRoundUp sbi (bb_Off (bm_blocks s b)))"
      have "BlkRoundUp sbi off' = BlkRoundUp sbi ?off"
        using same False by (simp add: nblks_def word_unat_eq_iff)
      then have "new_tail sbi s b off' ?t = TailBlkAddr s" by (simp add: new_tail_def)
      then show ?thesis using chk False lay_same by (intro go [of ?t]) auto
    qed
  qed
qed

lemma BattachInternal_spec:
  fixes ext :: u32
  assumes inv: "bm_inv sbi start s ms us" and b: "b \<in> set (ms @ us)"
    and room: "attach_room sbi s b incr al"
    and bh: "case bh of None \<Rightarrow> True
        | Some i \<Rightarrow> dll (bm_links s) (BbBufs b) (map BhList hs) \<and> i \<notin> set hs"
  defines "oob \<equiv> att_oob sbi (bb_Off (bm_blocks s b)) incr al ext"
  shows "\<exists>r s'. BattachInternal sbi b bh incr al ext False s = Ret (r, s')
     \<and> bm_inv sbi start s' ms us
     \<and> (if b \<in> set (butlast ms) \<and> 0 < oob then r = - EINVAL \<and> s' = s
        else 0 \<le> r \<and> attached s b bh hs (RoundUp (bb_Off (bm_blocks s b)) (ucast al)) incr s')"
  using attach_choice [OF inv b room, of ext]
proof (elim disjE exE conjE)
  assume no: "b \<in> set (butlast ms)" "0 < att_oob sbi (bb_Off (bm_blocks s b)) incr al ext"
    "att_check sbi b (att_oob sbi (bb_Off (bm_blocks s b)) incr al ext) s = Ret (Inl (- EINVAL))"
  have "manager_of s b = Ret ()" using inv b by (auto simp: bm_inv_def block_ok_def manager_of_def)
  then have "BattachInternal sbi b bh incr al ext False s = Ret (- EINVAL, s)"
    using no by (simp add: BattachInternal_def Let_def)
  with no inv show ?thesis by (simp add: oob_def)
next
  fix t
  assume "att_check sbi b (att_oob sbi (bb_Off (bm_blocks s b)) incr al ext) s = Ret (Inr t)"
    "laid_out sbi (with_off s b (RoundUp (bb_Off (bm_blocks s b)) (ucast al) + incr)) start ms
       (unat (new_tail sbi s b (RoundUp (bb_Off (bm_blocks s b)) (ucast al) + incr) t))"
    "unat (TailBlkAddr s) \<le> unat (new_tail sbi s b (RoundUp (bb_Off (bm_blocks s b)) (ucast al) + incr) t)"
    "\<not> (b \<in> set (butlast ms) \<and> 0 < att_oob sbi (bb_Off (bm_blocks s b)) incr al ext)"
  then show ?thesis
    using BattachInternal_accepted [OF inv b _ room bh, of ext t] by (auto simp: attached_def oob_def)
qed

text \<open>A dry run answers like the real one and changes nothing.\<close>

lemma BattachInternal_dry:
  assumes inv: "bm_inv sbi start s ms us" and b: "b \<in> set (ms @ us)" and room: "attach_room sbi s b incr al"
  shows "\<exists>r. BattachInternal sbi b bh' incr al ext True s = Ret (r, s)
           \<and> (\<exists>s'. BattachInternal sbi b None incr al ext False s = Ret (r, s'))"
proof -
  obtain r s' where r: "BattachInternal sbi b None incr al ext False s = Ret (r, s')"
    using BattachInternal_spec [OF inv b room, where bh = None and ext = ext and hs = "[]"] by auto
  then have "BattachInternal sbi b bh' incr al ext True s = Ret (r, s)"
    by (auto simp: BattachInternal_def Let_def gbind_eq_Ret split: sum.splits)
  with r show ?thesis by blast
qed


section \<open>Ballooning a head corrupts its block's ring\<close>

text \<open>
  \<open>BhBalloon\<close> hands its head to \<open>BattachInternal\<close>, which appends it to the ring it is the last
  member of.  The head then points to itself in both directions.
\<close>

definition self_looped :: "node links \<Rightarrow> node \<Rightarrow> node links" where
  "self_looped h e = h\<lparr>lprev := (lprev h)(e := Some e), lnext := (lnext h)(e := Some e)\<rparr>"

lemma ListAddTail_again:
  assumes "dll h head (xs @ [e])"
  shows "ListAddTail h (Some e) (Some head) = Ret (self_looped h e)"
proof -
  have "lprev h head = Some e" "e \<noteq> head"
    using dll_prev [OF assms] dll_distinct [OF assms] by auto
  moreover have "(lprev h)(e := Some e, head := Some e) = (lprev h)(e := Some e)"
    using calculation by (auto simp: fun_eq_iff)
  ultimately show ?thesis
    by (simp add: ListAddTail_def ListAddBetween_def link_access_defs self_looped_def)
qed

text \<open>A walk that enters the head never comes back to the ring's anchor.\<close>

lemma self_looped_walk:
  assumes "e \<noteq> head" "\<And>st. lk st = h" "lnext h e = Some e"
  shows "ListForEachInList_loop n lk (\<lambda>p st. Ret (True, st)) (Some head) (Some e) st = NoFuel"
  using assms by (induction n) (auto simp: get_next_def)

lemma MapBh_unmapped_block:
  assumes "bm_inv sbi start s ms (us @ u # rest)"
    and "unat (TailBlkAddr s) + mapped_size sbi s (us @ [u]) < 2 ^ 32 - 1" "length us + 1 < fuel"
  shows "\<exists>s'. MapBh fuel sbi given (Some u) s = Ret (TailBlkAddr s', s')
     \<and> bm_inv sbi start s' (ms @ us @ [u]) rest
     \<and> unat (TailBlkAddr s') = unat (TailBlkAddr s) + mapped_size sbi s (us @ [u])
     \<and> bm_heads s' = bm_heads s \<and> MetaBlkCnt s' = MetaBlkCnt s
     \<and> (\<forall>b. bm_blocks s' b = (bm_blocks s b)\<lparr>bb_BlkAddr := bb_BlkAddr (bm_blocks s' b)\<rparr>)
     \<and> (\<forall>b. b \<notin> set (us @ [u]) \<longrightarrow> bm_blocks s' b = bm_blocks s b)
     \<and> bm_next_bb s' = bm_next_bb s \<and> bm_next_bh s' = bm_next_bh s
     \<and> same_outside (bucket_nodes (set (ms @ us @ [u]))) (bm_links s) (bm_links s')"
proof -
  have inv: "bm_inv sbi start s ms ((us @ [u]) @ rest)" using assms(1) by simp
  have u: "bb_BlkAddr (bm_blocks s u) = NULL_ADDR" "bb_FsPrivate (bm_blocks s u)"
    using assms(1) by (auto simp: bm_inv_def block_ok_def)
  have lm: "LastMappedBlock s = Some (last (0 # ms))" using assms(1) by (simp add: bm_inv_def)
  have "MapBh fuel sbi given (Some u) s = MapBh_loop fuel sbi (Some u) (Some (last (0 # ms))) s"
    using u lm by (simp add: MapBh_def manager_of_def)
  then show ?thesis
    using MapBh_loop_maps [OF inv assms(2), of fuel "Some u"] assms(3) by simp
qed

lemma MapBh_all:
  assumes inv: "bm_inv sbi start s ms us"
    and "unat (TailBlkAddr s) + mapped_size sbi s us < 2 ^ 32 - 1" "length us < fuel"
  shows "\<exists>s'. MapBh fuel sbi True None s = Ret (TailBlkAddr s', s')
     \<and> bm_inv sbi start s' (ms @ us) []
     \<and> unat (TailBlkAddr s') = unat (TailBlkAddr s) + mapped_size sbi s us
     \<and> bm_heads s' = bm_heads s \<and> MetaBlkCnt s' = MetaBlkCnt s
     \<and> (\<forall>b. bm_blocks s' b = (bm_blocks s b)\<lparr>bb_BlkAddr := bb_BlkAddr (bm_blocks s' b)\<rparr>)
     \<and> (\<forall>b. b \<notin> set us \<longrightarrow> bm_blocks s' b = bm_blocks s b)
     \<and> bm_next_bb s' = bm_next_bb s \<and> bm_next_bh s' = bm_next_bh s
     \<and> same_outside (bucket_nodes (set (ms @ us))) (bm_links s) (bm_links s')"
proof -
  have "bm_inv sbi start s ms (us @ [])" using inv by simp
  moreover have "LastMappedBlock s = Some (last (0 # ms))" using inv by (simp add: bm_inv_def)
  ultimately show ?thesis
    using MapBh_loop_maps [of sbi start s ms us "[]" fuel None] assms(2,3) by (simp add: MapBh_def)
qed

section \<open>Reserving the superblock\<close>

text \<open>
  On a fresh manager: one metadata block of 1152 bytes, mapped at block 0, with one head at
  offset 0 whose ring is already corrupted.
\<close>

definition sb_blocks :: "sbinfo \<Rightarrow> nat" where
  "sb_blocks sbi = (1152 + (2 ^ unat (si_BlkSzBits sbi) - 1)) div 2 ^ unat (si_BlkSzBits sbi)"

definition sb_reserved :: "sbinfo \<Rightarrow> bufmgr \<Rightarrow> bool" where
  "sb_reserved sbi s \<longleftrightarrow> bm_inv sbi 0 s [1] []
   \<and> bm_blocks s 1 = \<lparr>bb_BlkAddr = 0, bb_Type = META, bb_Off = 1152, bb_FsPrivate = True\<rparr>
   \<and> bm_heads s 0 = \<lparr>bh_Block = Some 1, bh_Off = 0, bh_Op = Some SkipWriteOps\<rparr>
   \<and> unat (TailBlkAddr s) = sb_blocks sbi \<and> MetaBlkCnt s = 0
   \<and> lnext (bm_links s) (BbBufs 1) = Some (BhList 0) \<and> lprev (bm_links s) (BbBufs 1) = Some (BhList 0)
   \<and> lnext (bm_links s) (BhList 0) = Some (BhList 0) \<and> lprev (bm_links s) (BhList 0) = Some (BhList 0)"

lemma sb_blocks_bounds:
  assumes "small_blocks sbi"
  shows "0 < sb_blocks sbi" "sb_blocks sbi < 2 ^ 20"
proof -
  have B: "(2::nat) ^ unat (si_BlkSzBits sbi) \<le> 4096" by (rule block_size_bounds(2) [OF assms])
  have "2 ^ unat (si_BlkSzBits sbi) \<le> 1152 + (2 ^ unat (si_BlkSzBits sbi) - 1 :: nat)"
    by linarith
  then show "0 < sb_blocks sbi" unfolding sb_blocks_def by (simp add: div_greater_zero_iff)
  have "sb_blocks sbi \<le> 1152 + (2 ^ unat (si_BlkSzBits sbi) - 1)"
    unfolding sb_blocks_def by (rule div_le_dividend)
  then show "sb_blocks sbi < 2 ^ 20" using B by simp
qed

lemma BhBalloon_unmapped:
  assumes inv: "bm_inv sbi start s ms us" and b: "b \<in> set us"
    and bh: "bh_Block (bm_heads s i) = Some b" "dll (bm_links s) (BbBufs b) (xs @ [BhList i])"
    and off: "unat (bb_Off (bm_blocks s b)) + unat incr < 2 ^ 44"
  defines "s' \<equiv> s\<lparr>bm_heads := (bm_heads s)(i := (bm_heads s i)\<lparr>bh_Off := bb_Off (bm_blocks s b), bh_Block := Some b\<rparr>),
                   bm_links := self_looped (bm_links s) (BhList i),
                   bm_blocks := with_off s b (bb_Off (bm_blocks s b) + incr)\<rparr>"
  shows "\<exists>r. 0 \<le> r \<and> BhBalloon sbi i incr s = Ret (r, s') \<and> bm_inv sbi start s' ms us"
proof -
  have nx: "lnext (bm_links s) (BhList i) = Some (BbBufs b)"
    using dll_mem_next [of "bm_links s" "BbBufs b" xs "BhList i" "[]"] bh(2) by simp
  have ok: "block_ok s b" "bb_BlkAddr (bm_blocks s b) = NULL_ADDR" "b \<notin> set ms"
    using inv b bm_inv_distinct [OF inv] by (auto simp: bm_inv_def)
  have same: "same_outside {BhList i} (bm_links s) (self_looped (bm_links s) (BhList i))"
    by (simp add: same_outside_def self_looped_def)
  have run: "BhBalloon sbi i incr s
      = Ret (uint (((bb_Off (bm_blocks s b) + incr - 1) AND ucast (ErofsBlkSiz sbi - 1)) + 1), s')"
    using ok bh(1) nx att_check_unmapped [OF inv b] ListAddTail_again [OF bh(2)]
    by (simp add: BhBalloon_def BattachInternal_def manager_of_def block_ok_def Let_def on_links_def
        upd_bh_def upd_bb_def BupdateMapped_def with_off_def s'_def)
  have uo: "unat (bb_Off (bm_blocks s b) + incr) < 2 ^ 44"
    using off by (simp add: unat_add_exact)
  let ?s1 = "s\<lparr>bm_heads := bm_heads s', bm_links := bm_links s'\<rparr>"
  have inv1: "bm_inv sbi start ?s1 ms us"
    by (rule bm_inv_frame [OF inv, where A = "{BhList i}"]) (use same in \<open>simp_all add: s'_def\<close>)
  have "block_ok s' c" if "c \<in> set (ms @ us)" for c
    using inv that uo by (cases "c = b") (auto simp: bm_inv_def block_ok_def s'_def)
  moreover have "laid_out sbi (bm_blocks s') start ms (unat (TailBlkAddr s'))"
    using inv1 ok(3) by (subst laid_out_cong [of _ _ "bm_blocks s"]) (auto simp: bm_inv_def s'_def with_off_def)
  moreover have "buckets_hold sbi (bm_links s') (bm_blocks s') (set ms)"
    using inv1 ok(3) by (subst buckets_hold_cong [of _ sbi _ "bm_blocks s"]) (auto simp: bm_inv_def s'_def with_off_def)
  ultimately have "bm_inv sbi start s' ms us"
    using inv1 ok by (auto simp: bm_inv_def s'_def)
  with run occupied_nonneg show ?thesis by blast
qed


text \<open>On any block, mapped or not: the request is refused, or the block grows and the head points to itself.\<close>

lemma BhBalloon_last:
  assumes inv: "bm_inv sbi start s ms us" and b: "b \<in> set (ms @ us)"
    and bh: "bh_Block (bm_heads s i) = Some b" "dll (bm_links s) (BbBufs b) (xs @ [BhList i])"
    and room: "attach_room sbi s b incr 1"
  shows "\<exists>r s'. BhBalloon sbi i incr s = Ret (r, s') \<and> bm_inv sbi start s' ms us
     \<and> (r = - EINVAL \<and> s' = s
      \<or> 0 \<le> r \<and> bm_blocks s' = with_off s b (RoundUp (bb_Off (bm_blocks s b)) 1 + incr)
        \<and> (\<forall>j. bh_Block (bm_heads s' j) = bh_Block (bm_heads s j))
        \<and> bm_next_bb s' = bm_next_bb s \<and> bm_next_bh s' = bm_next_bh s
        \<and> same_outside (insert (BhList i) (bucket_nodes (set ms))) (bm_links s) (bm_links s')
        \<and> lprev (bm_links s') (BbBufs b) = Some (BhList i) \<and> lprev (bm_links s') (BhList i) = Some (BhList i))"
proof -
  have nx: "lnext (bm_links s) (BhList i) = Some (BbBufs b)" "lprev (bm_links s) (BbBufs b) = Some (BhList i)"
    using dll_mem_next [of "bm_links s" "BbBufs b" xs "BhList i" "[]"] dll_prev [OF bh(2)] bh(2) by simp_all
  let ?h1 = "self_looped (bm_links s) (BhList i)"
  have same1: "same_outside {BhList i} (bm_links s) ?h1" by (simp add: same_outside_def self_looped_def)
  have run: "BhBalloon sbi i incr s = BattachInternal sbi b (Some i) incr 1 0 False s"
    using bh(1) nx by (simp add: BhBalloon_def)
  let ?hds = "(bm_heads s)(i := (bm_heads s i)\<lparr>bh_Off := RoundUp (bb_Off (bm_blocks s b)) (ucast (1 :: u32)), bh_Block := Some b\<rparr>)"
  have link: "(case Some i of None \<Rightarrow> Ret s
               | Some i \<Rightarrow> on_links (\<lambda>h. ListAddTail h (Some (BhList i)) (Some (BbBufs b)))
                   (upd_bh i (\<lambda>x. x\<lparr>bh_Off := RoundUp (bb_Off (bm_blocks s b)) (ucast (1 :: u32)), bh_Block := Some b\<rparr>) s))
             = Ret (s\<lparr>bm_heads := ?hds, bm_links := ?h1\<rparr>)"
    using ListAddTail_again [OF bh(2)] by (simp add: on_links_def upd_bh_def)
  have same: "same_outside buffer_nodes (bm_links s) ?h1" by (rule same_outside_mono [OF same1]) simp
  show ?thesis
    using attach_choice [OF inv b room, of 0]
  proof (elim disjE exE conjE)
    assume no: "att_check sbi b (att_oob sbi (bb_Off (bm_blocks s b)) incr 1 0) s = Ret (Inl (- EINVAL))"
    have "manager_of s b = Ret ()" using inv b by (auto simp: bm_inv_def block_ok_def manager_of_def)
    then have "BhBalloon sbi i incr s = Ret (- EINVAL, s)"
      using no run by (simp add: BattachInternal_def Let_def)
    with inv show ?thesis by blast
  next
    fix t
    assume "att_check sbi b (att_oob sbi (bb_Off (bm_blocks s b)) incr 1 0) s = Ret (Inr t)"
      "laid_out sbi (with_off s b (RoundUp (bb_Off (bm_blocks s b)) (ucast (1 :: u32)) + incr)) start ms
         (unat (new_tail sbi s b (RoundUp (bb_Off (bm_blocks s b)) (ucast (1 :: u32)) + incr) t))"
    then obtain s' r where s': "BhBalloon sbi i incr s = Ret (r, s')" "0 \<le> r" "bm_inv sbi start s' ms us"
        "bm_blocks s' = with_off s b (RoundUp (bb_Off (bm_blocks s b)) (ucast (1 :: u32)) + incr)" "bm_heads s' = ?hds"
        "bm_next_bb s' = bm_next_bb s" "bm_next_bh s' = bm_next_bh s" "same_outside (bucket_nodes (set ms)) ?h1 (bm_links s')"
      using BattachInternal_linked [OF inv b _ room link same, of 0 t] run by auto
    have "same_outside (insert (BhList i) (bucket_nodes (set ms))) (bm_links s) (bm_links s')"
      by (rule same_outside_trans [OF same1 s'(8)]) auto
    moreover have "lprev (bm_links s') (BbBufs b) = Some (BhList i)" "lprev (bm_links s') (BhList i) = Some (BhList i)"
      using s'(8) nx(2) by (auto simp: same_outside_def self_looped_def)
    ultimately show ?thesis using s' bh(1) by (intro exI [of _ r] exI [of _ s']) auto
  qed
qed

text \<open>The steps of \<open>ReserveSuperblock\<close> on a new manager: one metadata block with one head, the
  reservation of \<open>n\<close> bytes for it, its placement.\<close>

lemma Balloc_first:
  assumes sm: "small_blocks sbi" and init: "ErofsBufferInit 0 = Ret s" and fuel: "2 < fuel"
  shows "\<exists>s1. Balloc fuel sbi META 0 0 0 s = Ret (Inr 0, s1) \<and> bm_inv sbi 0 s1 [] [1] \<and> bufs_linked s1 [1]
     \<and> bm_blocks s1 1 = \<lparr>bb_BlkAddr = NULL_ADDR, bb_Type = META, bb_Off = 0, bb_FsPrivate = True\<rparr>
     \<and> TailBlkAddr s1 = 0 \<and> MetaBlkCnt s1 = 0 \<and> bm_next_bb s1 = 2 \<and> bm_next_bh s1 = 1
     \<and> bm_heads s1 0 = \<lparr>bh_Block = Some 1, bh_Off = 0, bh_Op = None\<rparr>
     \<and> dll (bm_links s1) (BbBufs 1) [BhList 0]"
proof -
  have s: "bm_inv sbi 0 s [] []" "TailBlkAddr s = 0" "MetaBlkCnt s = 0" "bm_next_bb s = 1" "bm_next_bh s = 0"
    using ErofsBufferInit_inv [OF sm, of 0] init by auto
  have al: "GetAlignSize sbi META = (1, META)" by (simp add: GetAlignSize_def)
  have early: "BfindForAttach fuel sbi META 0 0 0 (of_int 1) s = Ret (Inr None, s)"
    by (rule BfindForAttach_early [OF sm]) simp_all
  have nl: "place_new META 1 [] = [1]" by (simp add: place_new_def)
  have tgt: "alloc_target META (0 + ucast (0 + 0 :: u32) * ucast (of_int 1 :: u32))
      ((bm_blocks s)(1 := \<lparr>bb_BlkAddr = NULL_ADDR, bb_Type = META, bb_Off = 0, bb_FsPrivate = True\<rparr>)) [1] 1 = 1"
    by (simp add: alloc_target_def)
  show ?thesis
    using Balloc_no_search [OF s(1) _ al _ _ _ early] fuel tgt nl s(2-5)
    by (auto simp: bufs_linked_def)
qed

lemma BhBalloon_first:
  assumes inv: "bm_inv sbi 0 s [] [1]" and off: "bb_Off (bm_blocks s 1) = 0" "unat n < 2 ^ 44"
    and bh: "bh_Block (bm_heads s 0) = Some 1" "dll (bm_links s) (BbBufs 1) [BhList 0]"
  shows "\<exists>r s'. BhBalloon sbi 0 n s = Ret (r, s') \<and> 0 \<le> r \<and> bm_inv sbi 0 s' [] [1]
     \<and> bm_blocks s' 1 = (bm_blocks s 1)\<lparr>bb_Off := n\<rparr>
     \<and> bm_heads s' 0 = (bm_heads s 0)\<lparr>bh_Off := 0, bh_Block := Some 1\<rparr>
     \<and> bm_links s' = self_looped (bm_links s) (BhList 0)
     \<and> TailBlkAddr s' = TailBlkAddr s \<and> MetaBlkCnt s' = MetaBlkCnt s
     \<and> bm_next_bb s' = bm_next_bb s \<and> bm_next_bh s' = bm_next_bh s"
  using BhBalloon_unmapped [OF inv _ bh(1), of "[]" n] bh off by (auto simp: with_off_def)

lemma MapBh_first:
  assumes inv: "bm_inv sbi 0 s [] [1]" and tail: "TailBlkAddr s = 0"
    and size: "nblks sbi (bm_blocks s 1) < 2 ^ 32 - 1" and fuel: "1 < fuel"
  shows "\<exists>s'. MapBh fuel sbi False (Some 1) s = Ret (TailBlkAddr s', s') \<and> bm_inv sbi 0 s' [1] []
     \<and> unat (TailBlkAddr s') = nblks sbi (bm_blocks s 1) \<and> bm_blocks s' 1 = (bm_blocks s 1)\<lparr>bb_BlkAddr := 0\<rparr>
     \<and> bm_heads s' = bm_heads s \<and> MetaBlkCnt s' = MetaBlkCnt s
     \<and> bm_next_bb s' = bm_next_bb s \<and> bm_next_bh s' = bm_next_bh s
     \<and> same_outside (bucket_nodes {1}) (bm_links s) (bm_links s')"
proof -
  have "bm_inv sbi 0 s [] ([] @ 1 # [])" using inv by simp
  moreover have "unat (TailBlkAddr s) + mapped_size sbi s ([] @ [1]) < 2 ^ 32 - 1"
    using tail size by (simp add: mapped_size_def)
  moreover have "length ([] :: nat list) + 1 < fuel" using fuel by simp
  ultimately obtain s' where s': "MapBh fuel sbi False (Some 1) s = Ret (TailBlkAddr s', s')"
     "bm_inv sbi 0 s' ([] @ [] @ [1]) []"
     "unat (TailBlkAddr s') = unat (TailBlkAddr s) + mapped_size sbi s ([] @ [1])"
     "bm_heads s' = bm_heads s" "MetaBlkCnt s' = MetaBlkCnt s"
     "\<forall>b. bm_blocks s' b = (bm_blocks s b)\<lparr>bb_BlkAddr := bb_BlkAddr (bm_blocks s' b)\<rparr>"
     "bm_next_bb s' = bm_next_bb s" "bm_next_bh s' = bm_next_bh s"
     "same_outside (bucket_nodes (set ([] @ [] @ [1]))) (bm_links s) (bm_links s')"
    using MapBh_unmapped_block by blast
  have "unat (bb_BlkAddr (bm_blocks s' 1)) = 0" using s'(2) by (simp add: bm_inv_def)
  then have "bb_BlkAddr (bm_blocks s' 1) = 0" by (simp add: unat_eq_zero)
  then have "bm_blocks s' 1 = (bm_blocks s 1)\<lparr>bb_BlkAddr := 0\<rparr>" using s'(6) by metis
  with s' tail show ?thesis by (simp add: mapped_size_def)
qed

lemma ReserveSuperblock_calls:
  assumes sm: "small_blocks sbi" and init: "ErofsBufferInit 0 = Ret s" and fuel: "2 < fuel"
  shows "\<exists>s1 r s3 s'. Balloc fuel sbi META 0 0 0 s = Ret (Inr 0, s1)
     \<and> BhBalloon sbi 0 1152 (upd_bh 0 (\<lambda>x. x\<lparr>bh_Op := Some SkipWriteOps\<rparr>) s1) = Ret (r, s3)
     \<and> MapBh fuel sbi False (Some 1) s3 = Ret (TailBlkAddr s', s')
     \<and> ReserveSuperblock fuel sbi s = Ret (Inr 0, s') \<and> sb_reserved sbi s' \<and> bm_next_bb s' = 2 \<and> bm_next_bh s' = 1
     \<and> bm_blocks s1 1 = \<lparr>bb_BlkAddr = NULL_ADDR, bb_Type = META, bb_Off = 0, bb_FsPrivate = True\<rparr> \<and> bm_next_bb s1 = 2
     \<and> bm_heads s1 0 = \<lparr>bh_Block = Some 1, bh_Off = 0, bh_Op = None\<rparr> \<and> dll (bm_links s1) (BbBufs 1) [BhList 0]
     \<and> TailBlkAddr s3 = 0 \<and> bm_next_bb s3 = 2 \<and> nblks sbi (bm_blocks s3 1) = sb_blocks sbi"
proof -
  obtain s1 where s1: "Balloc fuel sbi META 0 0 0 s = Ret (Inr 0, s1)" "bm_inv sbi 0 s1 [] [1]"
     "bm_blocks s1 1 = \<lparr>bb_BlkAddr = NULL_ADDR, bb_Type = META, bb_Off = 0, bb_FsPrivate = True\<rparr>"
     "TailBlkAddr s1 = 0" "MetaBlkCnt s1 = 0" "bm_next_bb s1 = 2" "bm_next_bh s1 = 1"
     "bm_heads s1 0 = \<lparr>bh_Block = Some 1, bh_Off = 0, bh_Op = None\<rparr>" "dll (bm_links s1) (BbBufs 1) [BhList 0]"
    using Balloc_first [OF sm init fuel] by auto
  define s2 where "s2 = upd_bh 0 (\<lambda>x. x\<lparr>bh_Op := Some SkipWriteOps\<rparr>) s1"
  have s2: "bm_links s2 = bm_links s1" "bm_blocks s2 = bm_blocks s1" "TailBlkAddr s2 = 0" "MetaBlkCnt s2 = 0"
      "bm_next_bb s2 = 2" "bm_next_bh s2 = 1"
      "bm_heads s2 0 = \<lparr>bh_Block = Some 1, bh_Off = 0, bh_Op = Some SkipWriteOps\<rparr>"
    using s1 by (simp_all add: s2_def upd_bh_def)
  have inv2: "bm_inv sbi 0 s2 [] [1]"
    by (rule bm_inv_frame [OF s1(2), where A = "{}"]) (simp_all add: s2_def upd_bh_def)
  obtain r s3 where s3: "BhBalloon sbi 0 1152 s2 = Ret (r, s3)" "0 \<le> r" "bm_inv sbi 0 s3 [] [1]"
      "bm_blocks s3 1 = (bm_blocks s1 1)\<lparr>bb_Off := 1152\<rparr>" "bm_heads s3 0 = bm_heads s2 0"
      "bm_links s3 = self_looped (bm_links s1) (BhList 0)" "TailBlkAddr s3 = 0" "MetaBlkCnt s3 = 0"
      "bm_next_bb s3 = 2" "bm_next_bh s3 = 1"
    using BhBalloon_first [OF inv2, of 1152] s1(3,9) s2 by auto
  have nb: "nblks sbi (bm_blocks s3 1) = sb_blocks sbi"
    using nblks_eq [OF sm, of "bm_blocks s3 1"] by (simp add: s3(4) s1(3) sb_blocks_def del: One_nat_def)
  obtain s4 where s4: "MapBh fuel sbi False (Some 1) s3 = Ret (TailBlkAddr s4, s4)" "bm_inv sbi 0 s4 [1] []"
     "unat (TailBlkAddr s4) = sb_blocks sbi" "bm_blocks s4 1 = (bm_blocks s3 1)\<lparr>bb_BlkAddr := 0\<rparr>"
     "bm_heads s4 0 = bm_heads s2 0" "MetaBlkCnt s4 = 0" "bm_next_bb s4 = 2" "bm_next_bh s4 = 1"
     "same_outside (bucket_nodes {1}) (bm_links s3) (bm_links s4)"
    using MapBh_first [OF s3(3,7), of fuel] fuel nb sb_blocks_bounds [OF sm] s3(5,8-10) by auto
  have bb4: "bm_blocks s4 1 = \<lparr>bb_BlkAddr = 0, bb_Type = META, bb_Off = 1152, bb_FsPrivate = True\<rparr>"
    by (simp add: s4(4) s3(4) s1(3) del: One_nat_def)
  have bufs: "lnext (bm_links s4) (BbBufs 1) = Some (BhList 0)" "lprev (bm_links s4) (BbBufs 1) = Some (BhList 0)"
       "lnext (bm_links s4) (BhList 0) = Some (BhList 0)" "lprev (bm_links s4) (BhList 0) = Some (BhList 0)"
    using s4(9) s1(9) by (simp_all add: same_outside_def s3(6) self_looped_def dll_def)
  have "sb_reserved sbi s4"
    using s4(2,3,5,6) bb4 s2(7) bufs by (simp add: sb_reserved_def)
  moreover have "ReserveSuperblock fuel sbi s = Ret (Inr 0, s4)"
    using s1(1) s3(1,2,5) s4(1,5) bb4 s2(7)
    by (simp add: ReserveSuperblock_def s2_def [symmetric] BhTell_def manager_of_def ErofsPos_def del: One_nat_def)
  ultimately show ?thesis
    using s1(1,3,6,8,9) s3(1,7,9) nb s4(1,7,8) s2_def by (intro exI [of _ s1] exI [of _ r] exI [of _ s3] exI [of _ s4]) simp
qed

lemma ReserveSuperblock_fresh:
  assumes "small_blocks sbi" "ErofsBufferInit 0 = Ret s" "2 < fuel"
  shows "\<exists>s'. ReserveSuperblock fuel sbi s = Ret (Inr 0, s') \<and> sb_reserved sbi s'
           \<and> bm_next_bb s' = 2 \<and> bm_next_bh s' = 1"
  using ReserveSuperblock_calls [OF assms] by blast

end
