(* ===== verification/BufMgrFaults.thy ===== *)
theory BufMgrFaults
  imports BufMgrOps
begin

text \<open>
  The remaining behaviour of the buffer manager: the search for a block to attach to, which
  panics on a bucket that is not empty and otherwise walks for ever, because \<open>ContainerOf\<close> never
  yields a block of the manager nor the anchor of the list; heads dropped and
  blocks freed; and the flush of a manager that holds only the superblock.
\<close>

section \<open>The search for a block to share\<close>

lemma ContainerOf_fresh:
  assumes "ContainerOf p m s = (b, s1)"
  shows "b = bm_next_bb s" "bm_blocks s1 b = zero_bblock" "bm_next_bb s1 = Suc (bm_next_bb s)"
    "LastMappedBlock s1 = LastMappedBlock s"
    "bm_links s1 = (bm_links s)\<lparr>lprev := (lprev (bm_links s))(BbList b := container_addr m p),
                               lnext := (lnext (bm_links s))(BbList b := None)\<rparr>"
  using assms by (auto simp: ContainerOf_def new_bblock_def)

text \<open>From a block that \<open>ContainerOf\<close> made, the walk only ever meets more of them.\<close>

lemma find_from_last_fresh:
  assumes "cur \<noteq> 0" "bb_Off (bm_blocks s cur) = 0" "0 < bm_next_bb s"
  shows "find_from_last k sbi btype sz req inl al used0 cur best s = NoFuel"
  using assms
proof (induction k arbitrary: s cur best)
  case (Suc k)
  obtain nx s1 where nx: "ContainerOf (lnext (bm_links s) (BbList cur)) Member_List s = (nx, s1)"
    by (cases "ContainerOf (lnext (bm_links s) (BbList cur)) Member_List s")
  have "nx \<noteq> 0" "bb_Off (bm_blocks s1 nx) = 0" "0 < bm_next_bb s1"
    using ContainerOf_fresh [OF nx] Suc.prems(3) by (simp_all add: zero_bblock_def)
  then show ?case using Suc.IH Suc.prems nx by simp
qed simp

text \<open>The walk starts at the last mapped block, where the dry attachment always answers.\<close>

lemma BattachInternal_dry_last:
  assumes "bm_inv sbi start s (ms @ [b]) us"
  shows "\<exists>r. BattachInternal sbi b bh incr al ext True s = Ret (r, s)"
proof -
  have "manager_of s b = Ret ()" using assms by (simp add: bm_inv_def block_ok_def manager_of_def)
  then show ?thesis by (simp add: BattachInternal_def att_check_last [OF assms] Let_def)
qed

lemma find_from_last_inv:
  assumes inv: "bm_inv sbi start s ms us" and ms: "ms \<noteq> []"
  shows "find_from_last k sbi btype sz req inl al used0 (last ms) best s = NoFuel"
proof (cases k)
  case (Suc k')
  let ?cur = "last ms"
  have cur: "?cur \<noteq> 0" "0 < bm_next_bb s" using inv ms by (auto simp: bm_inv_def block_ok_def)
  have "bm_inv sbi start s (butlast ms @ [?cur]) us" using inv ms by simp
  then obtain r where dry: "BattachInternal sbi ?cur None sz al (req + inl) True s = Ret (r, s)"
    using BattachInternal_dry_last by blast
  have adv: "(let (nx, s1) = ContainerOf (lnext (bm_links s) (BbList ?cur)) Member_List s
               in find_from_last k' sbi btype sz req inl al used0 nx best s1) = NoFuel" for best
  proof -
    obtain nx s1 where nx: "ContainerOf (lnext (bm_links s) (BbList ?cur)) Member_List s = (nx, s1)"
      by (cases "ContainerOf (lnext (bm_links s) (BbList ?cur)) Member_List s")
    have "find_from_last k' sbi btype sz req inl al used0 nx best s1 = NoFuel"
      using ContainerOf_fresh [OF nx] cur(2) by (intro find_from_last_fresh) (simp_all add: zero_bblock_def)
    then show ?thesis using nx by simp
  qed
  show ?thesis using cur(1) dry adv by (simp add: Suc Let_def)
qed simp

text \<open>A bucket that is not empty stops the search: \<open>ContainerOf\<close> yields a zero block, of type \<open>DATA\<close>, whose
  successor is a zero block at address 0.\<close>

definition filed_below :: "sbinfo \<Rightarrow> bufmgr \<Rightarrow> nat list \<Rightarrow> nat \<Rightarrow> bool" where
  "filed_below sbi s ms n \<longleftrightarrow> (\<exists>b\<in>set ms. bb_Type (bm_blocks s b) = META
     \<and> 0 < unat (bb_Off (bm_blocks s b) AND ucast (ErofsBlkSiz sbi - 1))
     \<and> unat (bb_Off (bm_blocks s b) AND ucast (ErofsBlkSiz sbi - 1)) \<le> n)"

lemma find_mapped_inv:
  assumes inv: "bm_inv sbi start s ms us" and n: "n < 4096"
  shows "find_mapped sbi META sz exts al n s
     = (if filed_below sbi s ms n then Panic (Bug ''cur.Type != btype'') else Ret (None, 0, s))"
  using n
proof (induction n)
  case 0
  then show ?case by (auto simp: filed_below_def)
next
  case (Suc n)
  let ?bt = "Bucket 1 (Suc n)"
  obtain bs where bs: "dll (bm_links s) ?bt (map BbMapped bs)"
      "set bs = {b \<in> set ms. bucket_of sbi (bm_blocks s b) = (1, Suc n)}"
    using inv Suc.prems buckets_holdD [of sbi "bm_links s" "bm_blocks s" "set ms" 1 "Suc n"] by (auto simp: bm_inv_def)
  have types: "0 \<le> bb_Type (bm_blocks s b)" if "b \<in> set ms" for b using inv that by (simp add: bm_inv_def block_ok_def)
  have level: "bucket_of sbi (bm_blocks s b) = (1, Suc n) \<longleftrightarrow> bb_Type (bm_blocks s b) = META
      \<and> unat (bb_Off (bm_blocks s b) AND ucast (ErofsBlkSiz sbi - 1)) = Suc n" if "b \<in> set ms" for b
    using types [OF that] by (auto simp: bucket_of_def nat_eq_iff)
  have below: "filed_below sbi s ms (Suc n) \<longleftrightarrow> filed_below sbi s ms n \<or> bs \<noteq> []"
  proof -
    have "bs \<noteq> [] \<longleftrightarrow> (\<exists>b\<in>set ms. bucket_of sbi (bm_blocks s b) = (1, Suc n))"
      using bs(2) by (cases bs) auto
    then show ?thesis using level by (auto simp: filed_below_def le_Suc_eq)
  qed
  have e: "IsListEmpty (bm_links s) (Some ?bt) = Ret (bs = [])" using IsListEmpty_dll [OF bs(1)] by simp
  show ?case
  proof (cases "bs = []")
    case True
    then show ?thesis using Suc e below by simp
  next
    case False
    obtain cur s1' where c: "ContainerOf (lnext (bm_links s) ?bt) Member_MappedList s = (cur, s1')"
      by (cases "ContainerOf (lnext (bm_links s) ?bt) Member_MappedList s")
    obtain nx s2 where x: "ContainerOf (lnext (bm_links s1') (BbList cur)) Member_List s1' = (nx, s2)"
      by (cases "ContainerOf (lnext (bm_links s1') (BbList cur)) Member_List s1'")
    have "bm_blocks s2 nx = zero_bblock" "bm_blocks s2 cur = zero_bblock"
      using ContainerOf_fresh [OF c] ContainerOf_fresh [OF x] x
      by (auto simp: ContainerOf_def new_bblock_def)
    then show ?thesis using Suc.prems e False below c x by (simp add: zero_bblock_def Let_def)
  qed
qed

text \<open>The fill levels whose buckets are searched: those that leave room for the request.\<close>

definition searched_levels :: "sbinfo \<Rightarrow> int \<Rightarrow> u64 \<Rightarrow> u32 \<Rightarrow> u32 \<Rightarrow> nat" where
  "searched_levels sbi al sz req inl =
     (let room = unat (ErofsBlkSiz sbi) - (unat sz + unat req + unat inl) in room - room mod nat al)"

definition shares_block :: "sbinfo \<Rightarrow> int \<Rightarrow> u64 \<Rightarrow> u32 \<Rightarrow> u32 \<Rightarrow> bool" where
  "shares_block sbi al sz req inl \<longleftrightarrow>
     (let rest = ((ucast sz + req) AND (ErofsBlkSiz sbi - 1)) + inl
      in rest \<noteq> 0 \<and> rest \<le> ErofsBlkSiz sbi \<and> of_int al \<noteq> ErofsBlkSiz sbi)
     \<and> unat sz + unat req + unat inl < 2 ^ 32"

lemma shares_block_total:
  assumes "shares_block sbi al sz req inl"
  shows "unat (ucast sz + req + inl :: u32) = unat sz + unat req + unat inl" "0 < unat sz + unat req + unat inl"
proof -
  let ?n = "unat sz + unat req + unat inl"
  have lt: "?n < 2 ^ 32" using assms by (simp add: shares_block_def)
  then have "unat (ucast sz :: u32) = unat sz" by (simp add: unsigned_ucast_eq take_bit_nat_eq_self)
  then have "of_nat ?n = (ucast sz + req + inl :: u32)" by simp
  then show "unat (ucast sz + req + inl :: u32) = ?n" by (rule of_nat_inverse) (use lt in simp)
  show "0 < ?n"
  proof (rule ccontr)
    assume "\<not> 0 < ?n"
    then have "sz = 0" "req = 0" "inl = 0" by (simp_all add: unat_eq_zero)
    then show False using assms by (simp add: shares_block_def)
  qed
qed

text \<open>Without a panic of the bucket search the walk follows, from the last mapped block or, when there is
  none, from the zero block that \<open>ContainerOf\<close> makes of the anchor's successor.\<close>

lemma BfindForAttach_shares:
  assumes inv: "bm_inv sbi start s ms us" and req: "shares_block sbi al sz req inl" and al: "0 < al" "al < 2 ^ 31"
  shows "BfindForAttach fuel sbi META sz req inl (of_int al) s
     = (if filed_below sbi s ms (searched_levels sbi al sz req inl) then Panic (Bug ''cur.Type != btype'') else NoFuel)"
proof -
  let ?u = "((ucast sz + req) AND (ErofsBlkSiz sbi - 1)) + inl" and ?n = "searched_levels sbi al sz req inl"
  let ?blk = "unat (ErofsBlkSiz sbi)" and ?t = "unat sz + unat req + unat inl"
  have sm: "small_blocks sbi" using inv by (simp add: bm_inv_def)
  note b = block_size_bounds(1,2) [OF sm]
  have used0: "?u \<noteq> 0" "\<not> ?u > ErofsBlkSiz sbi" "of_int al \<noteq> ErofsBlkSiz sbi"
    using req by (simp_all add: shares_block_def Let_def not_less)
  note total = shares_block_total [OF req]
  have ge: "ucast sz + req + inl \<ge> ErofsBlkSiz sbi \<longleftrightarrow> ?blk \<le> ?t" by (simp only: word_le_nat_alt total(1))
  have ual: "uint (of_int al :: u32) = al" using al by (simp add: uint_word_of_int)
  have "?blk - ?t < 4096" using b total(2) by linarith
  then have n: "?n < 4096" unfolding searched_levels_def Let_def by (rule less_imp_diff_less)
  let ?pre = "if ucast sz + req + inl \<ge> ErofsBlkSiz sbi then Ret (None, 0, s)
      else gbind (RoundDown (uint (ErofsBlkSiz sbi - (ucast sz + req + inl))) (uint (of_int al :: u32))) (\<lambda>usedBefore.
        find_mapped sbi META sz (req + inl) (of_int al) (unat (of_int usedBefore :: u32)) s)"
  have pre: "?pre = find_mapped sbi META sz (req + inl) (of_int al) ?n s"
  proof (cases "?blk \<le> ?t")
    case True
    then show ?thesis using ge by (simp add: searched_levels_def)
  next
    case False
    let ?r = "?blk - ?t"
    have "unat (ErofsBlkSiz sbi - (ucast sz + req + inl)) = ?r"
      using False ge unat_sub [of "ucast sz + req + inl" "ErofsBlkSiz sbi"] total(1) by auto
    then have r: "uint (ErofsBlkSiz sbi - (ucast sz + req + inl)) = int ?r" by (simp only: uint_nat)
    have "RoundDown (int k) al = Ret (int (k - k mod nat al))" for k
      using al by (cases k) (simp_all add: RoundDown_def go_rem_def of_nat_diff zmod_int)
    then have "RoundDown (int ?r) al = Ret (int ?n)" by (simp only: searched_levels_def Let_def)
    then show ?thesis using False ge r ual n by (simp add: unsigned_of_nat take_bit_nat_eq_self)
  qed
  have walk: "gbind (deref (LastMappedBlock s)) (\<lambda>last.
        let (cur, s2) = (if last = 0
                         then ContainerOf (lnext (bm_links s) (BbList last)) Member_List s
                         else (last, s))
        in gbind (find_from_last fuel sbi META sz req inl (of_int al) ?u cur best s2)
             (\<lambda>(r, s3). Ret (Inr r :: int + nat option, s3))) = NoFuel" for best :: "nat option \<times> u32"
  proof (cases "ms = []")
    case True
    obtain nx s1 where nx: "ContainerOf (lnext (bm_links s) (BbList 0)) Member_List s = (nx, s1)"
      by (cases "ContainerOf (lnext (bm_links s) (BbList 0)) Member_List s")
    have "find_from_last fuel sbi META sz req inl (of_int al) ?u nx best s1 = NoFuel"
      using ContainerOf_fresh [OF nx] inv by (intro find_from_last_fresh) (simp_all add: zero_bblock_def bm_inv_def)
    then show ?thesis using True nx inv by (simp add: bm_inv_def)
  next
    case False
    then have "last ms \<noteq> 0" "LastMappedBlock s = Some (last ms)" using inv by (auto simp: bm_inv_def block_ok_def)
    then show ?thesis using find_from_last_inv [OF inv False] by simp
  qed
  have eq: "BfindForAttach fuel sbi META sz req inl (of_int al) s
      = gbind ?pre (\<lambda>(bb, usedmax, s1). gbind (deref (LastMappedBlock s1)) (\<lambda>last.
        let (cur, s2) = (if last = 0
                         then ContainerOf (lnext (bm_links s1) (BbList last)) Member_List s1
                         else (last, s1))
        in gbind (find_from_last fuel sbi META sz req inl (of_int al) ?u cur (bb, usedmax) s2)
             (\<lambda>(r, s3). Ret (Inr r, s3))))"
    using used0 by (simp add: BfindForAttach_def Let_def)
  show ?thesis
    unfolding eq pre find_mapped_inv [OF inv n] using walk [of "(None, 0)"] by simp
qed

text \<open>No type that shares blocks is ever given one.\<close>

lemma Balloc_shares:
  assumes inv: "bm_inv sbi start s ms us" and ty: "ty0 \<in> {META, INODE, XATTR, DEVT}"
    and req: "shares_block sbi (fst (GetAlignSize sbi ty0)) sz req inl"
  shows "Balloc fuel sbi ty0 sz req inl s
     = (if filed_below sbi s ms (searched_levels sbi (fst (GetAlignSize sbi ty0)) sz req inl)
        then Panic (Bug ''cur.Type != btype'') else NoFuel)"
proof -
  obtain al where al: "GetAlignSize sbi ty0 = (al, META)" "0 < al" "al < 2 ^ 31"
    using ty by (auto simp: GetAlignSize_def)
  then have "BfindForAttach fuel sbi META sz req inl (of_int al) s
     = (if filed_below sbi s ms (searched_levels sbi al sz req inl) then Panic (Bug ''cur.Type != btype'') else NoFuel)"
    using BfindForAttach_shares [OF inv _ al(2,3)] req by simp
  then show ?thesis using al by (simp add: Balloc_def Let_def)
qed

section \<open>Dropping heads\<close>

text \<open>
  A dropped head leaves its ring.  When it was the last one, \<open>ErofsBfree\<close> is called on a block
  without heads and returns at once: no block ever leaves the list this way, and a tail that is
  rolled back moves below an extent that is still mapped.
\<close>

lemma BDrop_spec:
  fixes revoke :: bool
  assumes inv: "bm_inv sbi start s ms us" and b: "b \<in> set (ms @ us)"
    and bh: "bh_Block (bm_heads s i) = Some b" "dll (bm_links s) (BbBufs b) (map BhList (xs @ i # ys))"
  defines "gone \<equiv> xs @ ys = []"
  defines "rollback \<equiv> revoke \<and> bb_BlkAddr (bm_blocks s b) \<noteq> NULL_ADDR
     \<and> TailBlkAddr s = bb_BlkAddr (bm_blocks s b) + ucast (BlkRoundUp sbi (bb_Off (bm_blocks s b)))"
  shows "\<exists>s'. BDrop sbi i revoke s = Ret s'
     \<and> dll (bm_links s') (BbBufs b) (map BhList (xs @ ys))
     \<and> dll (bm_links s') (BbList 0) (map BbList (ms @ us))
     \<and> bm_blocks s' = bm_blocks s \<and> LastMappedBlock s' = LastMappedBlock s
     \<and> TailBlkAddr s' = (if gone \<and> rollback then bb_BlkAddr (bm_blocks s b) else TailBlkAddr s)
     \<and> (\<not> (gone \<and> rollback) \<longrightarrow> bm_inv sbi start s' ms us)
     \<and> same_outside ({BhList i, BbBufs b} \<union> BhList ` set (xs @ ys)) (bm_links s) (bm_links s')
     \<and> (\<forall>j. bh_Block (bm_heads s' j) = bh_Block (bm_heads s j))
     \<and> bm_next_bb s' = bm_next_bb s \<and> bm_next_bh s' = bm_next_bh s"
proof -
  have ok: "bb_FsPrivate (bm_blocks s b)" using inv b by (auto simp: bm_inv_def block_ok_def)
  define s1 where "s1 = upd_bh i (\<lambda>x. x\<lparr>bh_Op := Some DropDirectlyBhops\<rparr>) s"
  have ring1: "dll (bm_links s1) (BbBufs b) (map BhList xs @ BhList i # map BhList ys)"
    using bh(2) by (simp add: s1_def upd_bh_def)
  obtain h where h: "ListDel (bm_links s1) (Some (BhList i)) = Ret h"
      "dll h (BbBufs b) (map BhList xs @ map BhList ys)"
      "same_outside ({BhList i, BbBufs b} \<union> set (map BhList xs @ map BhList ys)) (bm_links s1) h"
    using ring.del_rep [OF ring1] by blast
  have same: "same_outside buffer_nodes (bm_links s) h"
  proof -
    have "same_outside buffer_nodes (bm_links s1) h"
      by (rule same_outside_mono [OF h(3)]) (auto simp: buffer_nodes_def)
    then show ?thesis by (simp add: s1_def upd_bh_def)
  qed
  have em: "IsListEmpty h (Some (BbBufs b)) = Ret gone"
    using IsListEmpty_dll [OF h(2)] by (simp add: gone_def)
  define nb :: u32 where "nb = ucast (BlkRoundUp sbi (bb_Off (bm_blocks s b)))"
  define s3 where "s3 = (if gone \<and> \<not> rollback \<and> bb_Type (bm_blocks s b) \<noteq> DATA
      then s1\<lparr>bm_links := h, MetaBlkCnt := MetaBlkCnt s + nb\<rparr> else s1\<lparr>bm_links := h\<rparr>)"
  define s' where "s' = (if gone \<and> rollback then s3\<lparr>TailBlkAddr := bb_BlkAddr (bm_blocks s b)\<rparr> else s3)"
  have run: "BDrop sbi i revoke s = Ret s'"
    using ok bh(1) h(1) em
    by (simp add: BDrop_def manager_of_def BhFlushGenericEnd_def on_links_def ErofsBfree_def
        Let_def s'_def s3_def s1_def [symmetric] rollback_def nb_def)
      (simp add: s1_def upd_bh_def)
  have f: "bm_links s' = h" "bm_blocks s' = bm_blocks s" "LastMappedBlock s' = LastMappedBlock s"
     "bm_next_bb s' = bm_next_bb s"
     "TailBlkAddr s' = (if gone \<and> rollback then bb_BlkAddr (bm_blocks s b) else TailBlkAddr s)"
     "bm_next_bh s' = bm_next_bh s" "\<And>j. bh_Block (bm_heads s' j) = bh_Block (bm_heads s j)"
    by (simp_all add: s'_def s3_def s1_def upd_bh_def)
  have "dll h (BbList 0) (map BbList (ms @ us))"
    using inv by (intro ring.rep_frame [OF _ same]) (auto simp: bm_inv_def)
  moreover have "bm_inv sbi start s' ms us" if "\<not> (gone \<and> rollback)"
    by (rule bm_inv_frame [OF inv, where A = buffer_nodes]) (use same f that in auto)
  moreover have "same_outside ({BhList i, BbBufs b} \<union> BhList ` set (xs @ ys)) (bm_links s) h"
  proof -
    have "same_outside ({BhList i, BbBufs b} \<union> BhList ` set (xs @ ys)) (bm_links s1) h"
      by (rule same_outside_mono [OF h(3)]) auto
    then show ?thesis by (simp add: s1_def upd_bh_def)
  qed
  ultimately show ?thesis using run h(2) by (intro exI [of _ s'] conjI) (simp_all add: f)
qed

text \<open>Dropping the reserved superblock: the corrupted ring keeps the block from ever being empty.\<close>

lemma BDrop_sb_reserved:
  assumes "sb_reserved sbi s"
  shows "\<exists>s'. BDrop sbi 0 revoke s = Ret s' \<and> bm_blocks s' = bm_blocks s
     \<and> TailBlkAddr s' = TailBlkAddr s \<and> MetaBlkCnt s' = MetaBlkCnt s
     \<and> lnext (bm_links s') (BbBufs 1) = Some (BhList 0) \<and> lnext (bm_links s') (BhList 0) = None"
  using assms
  by (simp add: sb_reserved_def BDrop_def manager_of_def BhFlushGenericEnd_def on_links_def upd_bh_def
      link_defs Let_def del: One_nat_def)

section \<open>Walks that enter a self-loop\<close>

lemma walk_into_loop:
  assumes "lnext h e = Some e" "e \<noteq> head" "head \<notin> set xs"
    and "lk st = h" "chain g a (xs @ [e]) b" "\<And>x. x \<noteq> e \<Longrightarrow> lnext h x = lnext g x" "e \<notin> set xs" "a \<noteq> e"
  shows "ListForEachInList_loop n lk (\<lambda>p st. Ret (True, st)) (Some head) (lnext h a) st = NoFuel"
  using assms
proof (induction xs arbitrary: a n)
  case Nil
  have "ListForEachInList_loop n lk (\<lambda>p st. Ret (True, st)) (Some head) (Some e) st = NoFuel" for n
    using Nil.prems(1,2,4) by (induction n) (auto simp: link_access_defs)
  then show ?case using Nil.prems by simp
next
  case (Cons x xs)
  show ?case
  proof (cases n)
    case (Suc k)
    have "ListForEachInList_loop k lk (\<lambda>p st. Ret (True, st)) (Some head) (lnext h x) st = NoFuel"
      using Cons.prems by (intro Cons.IH) auto
    then show ?thesis using Cons.prems Suc by (auto simp: link_access_defs)
  qed simp
qed

lemma BhBalloon_walk:
  assumes "dll (bm_links s) (BbBufs b) (xs @ [BhList i])" "bm_links s' = self_looped (bm_links s) (BhList i)"
  shows "ListForEachInList n bm_links (\<lambda>p st. Ret (True, st)) (Some (BbBufs b)) s' = NoFuel"
proof -
  have d: "BbBufs b \<notin> set (xs @ [BhList i])" "BhList i \<notin> set xs"
    and c: "chain (bm_links s) (BbBufs b) (xs @ [BhList i]) (BbBufs b)"
    using assms(1) by (auto simp: dll_def)
  have "ListForEachInList_loop n bm_links (\<lambda>p st. Ret (True, st)) (Some (BbBufs b))
      (lnext (self_looped (bm_links s) (BhList i)) (BbBufs b)) s' = NoFuel"
    by (rule walk_into_loop [where e = "BhList i" and g = "bm_links s" and xs = xs, OF _ _ _ _ c])
       (use d assms(2) in \<open>auto simp: self_looped_def\<close>)
  then show ?thesis using assms(2) by (simp add: ListForEachInList_def link_access_defs)
qed

section \<open>Freeing the last mapped block\<close>

text \<open>
  \<open>ErofsBfree\<close> replaces \<open>LastMappedBlock\<close> by what \<open>ListEntry\<close> returns, an unlinked zero block:
  the next request to map anything dereferences its \<open>nil\<close> successor.
\<close>

lemma ErofsBfree_last:
  assumes inv: "bm_inv sbi start s (ms @ [b]) us" and bufs: "IsListEmpty (bm_links s) (Some (BbBufs b)) = Ret False"
  shows "\<exists>s'. ErofsBfree b s = Ret s' \<and> dll (bm_links s') (BbList 0) (map BbList (ms @ us))
     \<and> LastMappedBlock s' = Some (bm_next_bb s)
     \<and> lnext (bm_links s') (BbList (bm_next_bb s)) = None"
proof -
  let ?n = "bm_next_bb s"
  have oks: "\<forall>c\<in>set ((ms @ [b]) @ us). block_ok s c" using inv by (simp add: bm_inv_def)
  have ok: "bb_FsPrivate (bm_blocks s b)" using oks by (auto simp: block_ok_def)
  have lm: "Some b = LastMappedBlock s" using inv by (simp add: bm_inv_def)
  obtain prev s1 where c: "ContainerOf (lprev (bm_links s) (BbMapped b)) Member_MappedList s = (prev, s1)"
    by (cases "ContainerOf (lprev (bm_links s) (BbMapped b)) Member_MappedList s")
  note cf = ContainerOf_fresh [OF c]
  have new: "?n \<notin> set ((ms @ [b]) @ us)" "?n \<noteq> 0"
    using oks inv by (auto simp: block_ok_def bm_inv_def)
  have same1: "same_outside {BbList ?n} (bm_links s) (bm_links s1)"
    using cf(5) by (simp add: same_outside_def cf(1))
  have ring1: "dll (bm_links s1) (BbList 0) (map BbList ms @ BbList b # map BbList us)"
  proof (rule ring.rep_frame [OF _ same1])
    show "dll (bm_links s) (BbList 0) (map BbList ms @ BbList b # map BbList us)"
      using inv by (simp add: bm_inv_def)
  qed (use new in auto)
  have hold: "buckets_hold sbi (bm_links s1) (bm_blocks s) (set (ms @ [b]))"
    using inv by (intro buckets_hold_frame [OF _ same1]) (auto simp: bm_inv_def)
  have sm: "small_blocks sbi" using inv by (simp add: bm_inv_def)
  obtain t j where tj: "bucket_of sbi (bm_blocks s b) = (t, j)" by (cases "bucket_of sbi (bm_blocks s b)")
  have lt: "t < 2" "j < 4096"
    using tj oks bucket_index_small [OF sm] by (auto simp: bucket_of_def block_ok_def)
  obtain h2 where h2: "ListDel (bm_links s1) (Some (BbMapped b)) = Ret h2"
      "same_outside (bucket_nodes (set (ms @ [b]))) (bm_links s1) h2"
    using bucket_remove [OF hold _ tj lt] by auto
  have ring2: "dll h2 (BbList 0) (map BbList ms @ BbList b # map BbList us)"
    using ring.rep_frame [OF ring1 h2(2)] by (auto simp: bucket_nodes_def)
  obtain h3 where h3: "ListDel h2 (Some (BbList b)) = Ret h3"
      "dll h3 (BbList 0) (map BbList ms @ map BbList us)"
      "same_outside ({BbList b, BbList 0} \<union> set (map BbList ms @ map BbList us)) h2 h3"
    using ring.del_rep [OF ring2] by blast
  have "lnext h3 (BbList ?n) = lnext (bm_links s1) (BbList ?n)"
    using h3(3) h2(2) new by (auto simp: same_outside_def)
  then have nx: "lnext h3 (BbList ?n) = None" using cf(1,5) by simp
  have "ErofsBfree b s = Ret (s1\<lparr>LastMappedBlock := Some prev, bm_links := h3\<rparr>)"
    using ok bufs lm c h2(1) h3(1)
    by (simp add: ErofsBfree_def manager_of_def on_links_def)
  then show ?thesis using h3(2) nx cf(1) by simp
qed

lemma MapBh_after_free:
  assumes "LastMappedBlock s = Some n" "lnext (bm_links s) (BbList n) = None"
  shows "MapBh (Suc k) sbi True None s = Panic NilDeref"
  using assms by (simp add: MapBh_def ContainerOf1_def BufferBlockFromList_def)

section \<open>Flushing a manager that holds the superblock\<close>

lemma sb_reserved_list:
  assumes "sb_reserved sbi s"
  shows "lnext (bm_links s) (BbList 0) = Some (BbList 1)" "lnext (bm_links s) (BbList 1) = Some (BbList 0)"
proof -
  have d: "dll (bm_links s) (BbList 0) [BbList 1]" using assms by (simp add: sb_reserved_def bm_inv_def)
  show "lnext (bm_links s) (BbList 0) = Some (BbList 1)" "lnext (bm_links s) (BbList 1) = Some (BbList 0)"
    using d by (simp_all add: dll_def)
qed

lemma ErofsBflush_sb_reserved:
  assumes r: "sb_reserved sbi s" and fuel: "0 < fuel"
  shows "ErofsBflush fuel sbi None s w = Ret (0, s, w)"
proof -
  obtain k where k: "fuel = Suc k" using fuel by (cases fuel) auto
  have inv: "bm_inv sbi 0 s [1] []" using r by (simp add: sb_reserved_def)
  obtain a where a: "MapBhInternal sbi 1 s = Ret (a, s)"
    using MapBhInternal_mapped [OF inv, of 1] by auto
  have heads: "flush_heads fuel 1 (Some 0) False s = Ret (Inr True, s)"
    using r k by (simp add: sb_reserved_def BufferHeadFromList_def)
  have "flush_block fuel sbi 1 s w = Ret (Inr (), s, w)"
    using a heads r
    by (simp add: flush_block_def sb_reserved_def link_defs BufferHeadFromList_def del: One_nat_def)
  then show ?thesis
    using sb_reserved_list [OF r] k
    by (simp add: ErofsBflush_def link_defs BufferBlockFromList_def del: One_nat_def)
qed

lemma MapBh_sb_reserved:
  assumes r: "sb_reserved sbi s" and fuel: "0 < fuel"
  shows "MapBh fuel sbi True None s = Ret (TailBlkAddr s, s)"
proof -
  obtain k where k: "fuel = Suc k" using fuel by (cases fuel) auto
  have "LastMappedBlock s = Some 1" using r by (simp add: sb_reserved_def bm_inv_def)
  then show ?thesis
    using sb_reserved_list [OF r] k
    by (simp add: MapBh_def ContainerOf1_def BufferBlockFromList_def del: One_nat_def)
qed

lemma BhTell_sb_reserved: "sb_reserved sbi s \<Longrightarrow> BhTell sbi 0 False s = Ret 0"
  by (simp add: sb_reserved_def BhTell_def manager_of_def ErofsPos_def del: One_nat_def)

end
