(* ===== verification/Compress.thy ===== *)
theory Compress
  imports Codec Config BufMgrFaults
begin

text \<open>
  \<open>pkg/compression/compress.go\<close> and \<open>lz4.go\<close>: the choice of compressors for a run and the compression
  records stored behind the superblock.  The table of algorithms and \<open>ErofsCCfg\<close> are lists; a
  pointer to an algorithm is its index in the table.  The stream compressor of \<open>pierrec/lz4\<close> is a
  function supplied by the environment.
\<close>

section \<open>Compressors\<close>

record compress =
  cp_CompressThreshold :: nat
  cp_CompressionLevel :: int
  cp_DictSize :: u64
  cp_Alg :: "nat option"

record compress_cfg =
  cc_Handle :: compress
  cc_AlgorithmType :: nat
  cc_Enable :: bool

text \<open>A compressor's operations get the handle and the superblock information it points to.\<close>

record compressor =
  cm_SetLevel :: "(compress \<Rightarrow> int \<Rightarrow> int \<times> compress) option"
  cm_SetDictSize :: "(compress \<Rightarrow> u32 \<Rightarrow> int \<times> compress) option"
  cm_Init :: "compress \<Rightarrow> sbinfo \<Rightarrow> int \<times> compress \<times> sbinfo"

record algorithm =
  al_Name :: string
  al_C :: "compressor option"
  al_ID :: nat

definition maxU16 :: "u16 \<Rightarrow> u16 \<Rightarrow> u16" where
  "maxU16 a b = (if a > b then a else b)"

definition CompressorLz4Init :: "compress \<Rightarrow> sbinfo \<Rightarrow> int \<times> compress \<times> sbinfo" where
  "CompressorLz4Init c sbi = (0, c, sbi\<lparr>Lz4_MaxDistance := maxU16 (Lz4_MaxDistance sbi) LZ4_DISTANCE_MAX\<rparr>)"

definition CompressorLz4Exit :: "compress \<Rightarrow> int" where
  "CompressorLz4Exit c = 0"

definition ErofsCompressorLz4 :: compressor where
  "ErofsCompressorLz4 = \<lparr>cm_SetLevel = None, cm_SetDictSize = None, cm_Init = CompressorLz4Init\<rparr>"

definition erofsAlgs :: "algorithm list" where
  "erofsAlgs = [\<lparr>al_Name = ''lz4'', al_C = Some ErofsCompressorLz4, al_ID = Z_EROFS_COMPRESSION_LZ4\<rparr>]"

definition zero_compress_cfg :: compress_cfg where
  "zero_compress_cfg = \<lparr>cc_Handle = \<lparr>cp_CompressThreshold = 0, cp_CompressionLevel = 0, cp_DictSize = 0, cp_Alg = None\<rparr>,
     cc_AlgorithmType = 0, cc_Enable = False\<rparr>"

definition ErofsCCfg :: "compress_cfg list" where
  "ErofsCCfg = replicate (unat EROFS_MAX_COMPR_CFGS) zero_compress_cfg"

text \<open>One round per algorithm from index \<open>i\<close>; \<open>ret\<close> is the result so far.\<close>

primrec compressor_init_loop ::
  "algorithm list \<Rightarrow> nat \<Rightarrow> string \<Rightarrow> int \<Rightarrow> u32 \<Rightarrow> int \<Rightarrow> compress \<Rightarrow> sbinfo \<Rightarrow> int \<times> compress \<times> sbinfo" where
  "compressor_init_loop [] i algName level dictSize ret c sbi = (ret, c, sbi)"
| "compressor_init_loop (a # algs) i algName level dictSize ret c sbi =
     (if algName \<noteq> al_Name a then compressor_init_loop algs (Suc i) algName level dictSize ret c sbi
      else case al_C a of
        None \<Rightarrow> compressor_init_loop algs (Suc i) algName level dictSize ret c sbi
      | Some cm \<Rightarrow>
          (let (r1, c1) = (case cm_SetLevel cm of
                 Some f \<Rightarrow> f c level
               | None \<Rightarrow> (if level \<ge> 0 then - EINVAL else 0, c))
           in if r1 \<noteq> 0 then (r1, c1, sbi)
              else let (r2, c2) = (case cm_SetDictSize cm of
                       Some f \<Rightarrow> f c1 dictSize
                     | None \<Rightarrow> (if dictSize > 0 then - EINVAL else 0, c1))
                in if r2 \<noteq> 0 then (r2, c2, sbi)
                   else let (r3, c3, sbi1) = cm_Init cm c2 sbi
                     in if r3 \<noteq> 0 then (r3, c3, sbi1)
                        else (0, c3\<lparr>cp_Alg := Some i\<rparr>, sbi1)))"

definition erofsCompressorInit ::
  "sbinfo \<Rightarrow> compress \<Rightarrow> string \<Rightarrow> int \<Rightarrow> u32 \<Rightarrow> int \<times> compress \<times> sbinfo" where
  "erofsCompressorInit sbi c algName level dictSize =
     (let c1 = c\<lparr>cp_CompressThreshold := 100, cp_CompressionLevel := -1, cp_DictSize := 0\<rparr>
      in if algName = '''' then (0, c1\<lparr>cp_Alg := None\<rparr>, sbi)
         else compressor_init_loop erofsAlgs 0 algName level dictSize (- EINVAL) c1 sbi)"

definition zErofsGetCompressAlgorithmID :: "compress \<Rightarrow> nat option" where
  "zErofsGetCompressAlgorithmID c = map_option (\<lambda>i. al_ID (erofsAlgs ! i)) (cp_Alg c)"

section \<open>Compression records behind the superblock\<close>

text \<open>The shared tail of the four sections of \<open>ZErofsBuildComprCfgs\<close>: attach, map, write, hand over.\<close>

definition write_cfg ::
  "nat \<Rightarrow> sbinfo \<Rightarrow> nat \<Rightarrow> bytes \<Rightarrow> bufmgr \<Rightarrow> io \<Rightarrow> ((int + int) \<times> bufmgr \<times> io) go" where
  "write_cfg fuel sbi sbBh bs s w =
     gbind (Battach sbi sbBh META (of_nat (length bs)) s) (\<lambda>((nbh, err), s1).
     if err < 0 then Ret (Inl err, s1, w)
     else gbind (deref nbh) (\<lambda>i.
       gbind (MapBh fuel sbi False (bh_Block (bm_heads s1 i)) s1) (\<lambda>(_, s2).
       gbind (BhTell sbi i False s2) (\<lambda>pos.
       gbind (ErofsDevWrite w bs (length bs) pos (int (length bs))) (\<lambda>(ret, w1).
       Ret (Inr ret, upd_bh i (\<lambda>x. x\<lparr>bh_Op := Some DropDirectlyBhops\<rparr>) s2, w1))))))"

definition lz4_cfg :: "config \<Rightarrow> sbinfo \<Rightarrow> bytes" where
  "lz4_cfg cfg sbi =
     (let blks = drop_bit (unat (si_BlkSzBits sbi)) (cf_MkfsPclusterSizeMax cfg)
      in PutUint16 14 @ PutUint16 (Lz4_MaxDistance sbi) @ [ucast (ucast blks :: u16)] @ replicate 11 0)"

definition TrailingZeros32 :: "u32 \<Rightarrow> nat" where
  "TrailingZeros32 x = length (takeWhile (\<lambda>i. \<not> bit x i) [0..<32])"

definition deflate_cfg :: "u32 list \<Rightarrow> bytes" where
  "deflate_cfg maxDict =
     PutUint16 6 @ PutUint32 (ucast (of_nat (TrailingZeros32 (maxDict ! Z_EROFS_COMPRESSION_DEFLATE)) :: u8)) @ [0, 0]"

definition lzma_cfg :: "u32 list \<Rightarrow> bytes" where
  "lzma_cfg maxDict = PutUint16 16 @ PutUint32 (maxDict ! Z_EROFS_COMPRESSION_DEFLATE) @ replicate 14 0"

definition zstd_cfg :: "u32 list \<Rightarrow> bytes" where
  "zstd_cfg maxDict =
     PutUint16 6 @ [of_int (int (TrailingZeros32 (maxDict ! Z_EROFS_COMPRESSION_ZSTD)) - 10)] @ replicate 5 0"

definition HaveLibLZMA :: bool where "HaveLibLZMA = False"
definition HaveLibZSTD :: bool where "HaveLibZSTD = False"

text \<open>The sections in order: an attach error ends the function, a write error is overwritten by the
  next section's result.\<close>

primrec write_cfgs ::
  "nat \<Rightarrow> sbinfo \<Rightarrow> nat \<Rightarrow> (bool \<times> bytes) list \<Rightarrow> int \<Rightarrow> bufmgr \<Rightarrow> io \<Rightarrow> (int \<times> bufmgr \<times> io) go" where
  "write_cfgs fuel sbi sbBh [] ret s w = Ret (ret, s, w)"
| "write_cfgs fuel sbi sbBh (p # ps) ret s w =
     (if fst p
      then gbind (write_cfg fuel sbi sbBh (snd p) s w) (\<lambda>(r, s1, w1).
        case r of Inl err \<Rightarrow> Ret (err, s1, w1) | Inr ret1 \<Rightarrow> write_cfgs fuel sbi sbBh ps ret1 s1 w1)
      else write_cfgs fuel sbi sbBh ps ret s w)"

definition ZErofsBuildComprCfgs ::
  "nat \<Rightarrow> config \<Rightarrow> sbinfo \<Rightarrow> nat \<Rightarrow> u32 list \<Rightarrow> bufmgr \<Rightarrow> io \<Rightarrow> (int \<times> bufmgr \<times> io) go" where
  "ZErofsBuildComprCfgs fuel cfg sbi sbBh maxDict s w =
     (let on = (\<lambda>k. AvailableComprAlgs sbi AND push_bit k 1 \<noteq> 0)
      in write_cfgs fuel sbi sbBh
           [(on Z_EROFS_COMPRESSION_LZ4, lz4_cfg cfg sbi),
            (HaveLibLZMA \<and> on Z_EROFS_COMPRESSION_LZMA, lzma_cfg maxDict),
            (on Z_EROFS_COMPRESSION_DEFLATE, deflate_cfg maxDict),
            (HaveLibZSTD \<and> on Z_EROFS_COMPRESSION_ZSTD, zstd_cfg maxDict)] 0 s w)"

section \<open>Initialisation\<close>

record comp_state =
  cs_ccfgs :: "compress_cfg list"
  cs_sbi :: sbinfo
  cs_avail :: u32
  cs_maxDict :: "u32 list"

text \<open>The loop over the configured options; \<open>Inl\<close> is an early return.\<close>

primrec init_algs :: "compression_option list \<Rightarrow> nat \<Rightarrow> comp_state \<Rightarrow> ((int + unit) \<times> comp_state) go" where
  "init_algs [] i st = Ret (Inr (), st)"
| "init_algs (opt # opts) i st =
     (if co_Algorithm opt = '''' then init_algs opts (Suc i) st
      else let cc = cs_ccfgs st ! i;
               (ret, c, sbi1) = erofsCompressorInit (cs_sbi st) (cc_Handle cc) (co_Algorithm opt) (co_Level opt) (co_DictSize opt);
               st1 = st\<lparr>cs_ccfgs := (cs_ccfgs st)[i := cc\<lparr>cc_Handle := c\<rparr>], cs_sbi := sbi1\<rparr>
        in if ret \<noteq> 0 then Ret (Inl ret, st1)
           else case zErofsGetCompressAlgorithmID c of
             None \<Rightarrow> Ret (Inl (-1), st1)
           | Some k \<Rightarrow>
               gbind (gguard (k < length (cs_maxDict st)) IndexRange) (\<lambda>_.
               init_algs opts (Suc i)
                 (st1\<lparr>cs_ccfgs := (cs_ccfgs st1)[i := cc\<lparr>cc_Handle := c, cc_AlgorithmType := k, cc_Enable := True\<rparr>],
                      cs_avail := cs_avail st OR push_bit k 1,
                      cs_sbi := (if k \<noteq> Z_EROFS_COMPRESSION_LZ4 then ErofsSbSetComprCfgs sbi1 else sbi1),
                      cs_maxDict := (if (ucast (cp_DictSize c) :: u32) > cs_maxDict st ! k
                        then (cs_maxDict st)[k := ucast (cp_DictSize c)] else cs_maxDict st)\<rparr>)))"

definition ZErofsCompressInit ::
  "nat \<Rightarrow> config \<Rightarrow> compress_cfg list \<Rightarrow> sbinfo \<Rightarrow> nat option \<Rightarrow> bufmgr \<Rightarrow> io
     \<Rightarrow> (int \<times> compress_cfg list \<times> sbinfo \<times> bufmgr \<times> io) go" where
  "ZErofsCompressInit fuel cfg ccfgs sbi sbBh s w =
     (let opts = cf_CompressionOptions cfg;
          st0 = \<lparr>cs_ccfgs = ccfgs, cs_sbi = sbi, cs_avail = 0, cs_maxDict = replicate Z_EROFS_COMPRESSION_MAX 0\<rparr>
      in if opts = [] then Ret (-1, ccfgs, sbi, s, w)
         else if length ccfgs < length opts then Ret (-1, ccfgs, sbi, s, w)
         else gbind (init_algs opts 0 st0) (\<lambda>(r, st).
           case r of Inl ret \<Rightarrow> Ret (ret, cs_ccfgs st, cs_sbi st, s, w)
           | Inr _ \<Rightarrow>
             let avail = cs_avail st;
                 sbi1 = (if avail = 0 \<or> cf_LegacyCompress cfg \<and> avail = 1
                         then ErofsSbClearLz40Padding (cs_sbi st) else cs_sbi st);
                 done = (\<lambda>ret sbi2. Ret (ret, cs_ccfgs st, sbi2, s, w))
             in if avail = 0 then done 0 sbi1
                else if sbBh = None \<and> avail AND NOT (ucast (AvailableComprAlgs sbi1)) \<noteq> 0
                then done (- EOPNOTSUPP) sbi1
                else if sbBh = None \<and> avail AND push_bit Z_EROFS_COMPRESSION_LZ4 1 \<noteq> 0
                  \<and> push_bit (unat (si_BlkSzBits sbi1)) (ucast (Lz4_MaxPclusterBlks sbi1)) < cf_MkfsPclusterSizeMax cfg
                then done (- EOPNOTSUPP) sbi1
                else let sbi2 = (if sbBh = None then sbi1 else sbi1\<lparr>AvailableComprAlgs := ucast avail\<rparr>);
                         big = cf_MkfsPclusterSizeMax cfg > ErofsBlkSiz sbi2
                  in if big \<and> cf_MkfsPclusterSizeMax cfg > Z_EROFS_PCLUSTER_MAX_SIZE then done (- EINVAL) sbi2
                     else let sbi3 = (if big then ErofsSbSetBigPcluster sbi2 else sbi2)
                       in if cf_MkfsPclusterSizePacked cfg > cf_MkfsPclusterSizeMax cfg then done (- EINVAL) sbi3
                          else case sbBh of
                            None \<Rightarrow> done 0 sbi3
                          | Some bh \<Rightarrow>
                              if ErofsSbHasComprCfgs sbi3
                              then gbind (ZErofsBuildComprCfgs fuel cfg sbi3 bh (cs_maxDict st) s w)
                                (\<lambda>(ret, s1, w1). Ret (ret, cs_ccfgs st, sbi3, s1, w1))
                              else done 0 sbi3))"

section \<open>The LZ4 destination-size adapter\<close>

text \<open>
  \<open>limitWriter_Write\<close> is the method's body, with the receiver it leaves: the bytes are in the shared buffer and
  the position is advanced.  The receiver is a value, so a call works on a copy of it: what the caller's writer keeps
  is the buffer (\<open>limitWriter_call\<close>), never the position.
\<close>

record limitWriter =
  lw_buf :: bytes
  lw_pos :: int
  lw_limit :: int

definition limitWriter_Write :: "limitWriter \<Rightarrow> bytes \<Rightarrow> ((int \<times> int option) \<times> limitWriter) go" where
  "limitWriter_Write w p =
     (let remaining = lw_limit w - lw_pos w
      in if remaining \<le> 0 then Ret ((0, None), w)
         else let p1 = (if int (length p) > remaining then take (nat remaining) p else p)
           in gbind (gguard (0 \<le> lw_pos w \<and> lw_pos w \<le> int (length (lw_buf w))) SliceBounds) (\<lambda>_.
              let n = min (length (lw_buf w) - nat (lw_pos w)) (length p1)
              in Ret ((int n, None), w\<lparr>lw_buf := splice (lw_buf w) (nat (lw_pos w)) (take n p1),
                                       lw_pos := lw_pos w + int n\<rparr>)))"

definition limitWriter_call :: "limitWriter \<Rightarrow> bytes \<Rightarrow> ((int \<times> int option) \<times> limitWriter) go" where
  "limitWriter_call w p =
     gbind (limitWriter_Write w p) (\<lambda>(r, receiver). Ret (r, w\<lparr>lw_buf := lw_buf receiver\<rparr>))"

text \<open>The stream compressor of the \<open>lz4\<close> package, which is not part of the repository: the compressor that
  \<open>NewWriter\<close> and \<open>Reset\<close> give, and its methods \<open>Write\<close> and \<open>Close\<close>, each with the call it makes on the writer
  it was reset to, and that writer.\<close>

type_synonym write_call = "limitWriter \<Rightarrow> bytes \<Rightarrow> ((int \<times> int option) \<times> limitWriter) go"

record 'c lz4_lib =
  lz_new :: 'c
  lz_Write :: "write_call \<Rightarrow> limitWriter \<Rightarrow> 'c \<Rightarrow> bytes \<Rightarrow> ((int \<times> int option) \<times> 'c \<times> limitWriter) go"
  lz_Close :: "write_call \<Rightarrow> limitWriter \<Rightarrow> 'c \<Rightarrow> (int option \<times> limitWriter) go"

text \<open>The answer is the return code, the new \<open>*srcsize\<close> and the destination buffer.\<close>

definition Lz4CompressDestsize ::
  "'c lz4_lib \<Rightarrow> bytes \<Rightarrow> u64 \<Rightarrow> bytes \<Rightarrow> u64 \<Rightarrow> (int \<times> u64 \<times> bytes) go" where
  "Lz4CompressDestsize lz src srcsize dst dstsize =
     (let srcSize = sint srcsize; w = \<lparr>lw_buf = dst, lw_pos = 0, lw_limit = sint dstsize\<rparr>
      in gbind (gguard (0 \<le> srcSize \<and> nat srcSize \<le> length src) SliceBounds) (\<lambda>_.
         gbind (lz_Write lz limitWriter_call w (lz_new lz) (take (nat srcSize) src)) (\<lambda>((n, err), compressor, w1).
         if err \<noteq> None then Ret (- EFAULT, srcsize, lw_buf w1)
         else gbind (lz_Close lz limitWriter_call w1 compressor) (\<lambda>(rc, w2).
           if rc \<noteq> None then Ret (- EFAULT, srcsize, lw_buf w2)
           else Ret (int (length dst), of_int n, lw_buf w2)))))"

section \<open>Lemmas\<close>

text \<open>Only \<open>lz4\<close> without level and dictionary passes; the superblock keeps everything but the maximal distance.\<close>

lemma maxU16_top [simp]: "maxU16 x 65535 = 65535"
proof -
  have "x \<le> 65535" using unsigned_less [of x, where 'a = nat] by (simp add: word_le_nat_alt)
  then show ?thesis by (auto simp: maxU16_def)
qed

lemma erofsCompressorInit_spec:
  assumes "alg \<noteq> ''''"
  shows "erofsCompressorInit sbi c alg level dict =
     (let c1 = c\<lparr>cp_CompressThreshold := 100, cp_CompressionLevel := -1, cp_DictSize := 0\<rparr>
      in if alg = ''lz4'' \<and> level < 0 \<and> dict = 0
         then (0, c1\<lparr>cp_Alg := Some 0\<rparr>, sbi\<lparr>Lz4_MaxDistance := 65535\<rparr>)
         else (- EINVAL, c1, sbi))"
  using assms
  by (auto simp: erofsCompressorInit_def erofsAlgs_def ErofsCompressorLz4_def CompressorLz4Init_def Let_def
      word_gt_0)

text \<open>What a compressor does with its writer: it hands over its output in chunks, one after the other, and goes on
  as long as each is taken whole.\<close>

primrec feed :: "write_call \<Rightarrow> bytes list \<Rightarrow> limitWriter \<Rightarrow> limitWriter option" where
  "feed W [] w = Some w"
| "feed W (p # ps) w = (case W w p of
      Ret ((n, err), w1) \<Rightarrow> if n = int (length p) \<and> err = None then feed W ps w1 else None
    | _ \<Rightarrow> None)"

definition emits :: "'c lz4_lib \<Rightarrow> bytes \<Rightarrow> bytes list \<Rightarrow> bytes list \<Rightarrow> int \<Rightarrow> bool" where
  "emits lz inp ps qs n \<longleftrightarrow> (\<forall>W w w1. feed W ps w = Some w1 \<longrightarrow>
     (\<exists>c. lz_Write lz W w (lz_new lz) inp = Ret ((n, None), c, w1)
        \<and> (\<forall>w2. feed W qs w1 = Some w2 \<longrightarrow> lz_Close lz W w1 c = Ret (None, w2))))"

text \<open>Each call stores its chunk at the position the writer has had from the start.\<close>

lemma limitWriter_call_simp:
  assumes "lw_pos w = 0" "0 < lw_limit w" "length p \<le> length (lw_buf w)" "int (length p) \<le> lw_limit w"
  shows "limitWriter_call w p = Ret ((int (length p), None), w\<lparr>lw_buf := splice (lw_buf w) 0 p\<rparr>)"
  using assms by (simp add: limitWriter_call_def limitWriter_Write_def min_def Let_def)

lemma feed_overlay:
  assumes "lw_pos w = 0" "0 < lw_limit w" "\<forall>p\<in>set ps. length p \<le> length (lw_buf w) \<and> int (length p) \<le> lw_limit w"
  shows "feed limitWriter_call ps w = Some (w\<lparr>lw_buf := foldl (\<lambda>d p. splice d 0 p) (lw_buf w) ps\<rparr>)"
  using assms
proof (induction ps arbitrary: w)
  case (Cons p ps)
  then show ?case using Cons.IH [of "w\<lparr>lw_buf := splice (lw_buf w) 0 p\<rparr>"] by (simp add: limitWriter_call_simp)
qed simp

lemma length_overlay:
  assumes "\<forall>p\<in>set ps. length p \<le> length d"
  shows "length (foldl (\<lambda>d p. splice d 0 p) d ps) = length d"
  using assms by (induction ps arbitrary: d) simp_all

lemma Lz4CompressDestsize_overlay:
  assumes lz: "emits lz (take (nat (sint srcsize)) src) ps qs n"
    and src: "0 \<le> sint srcsize" "nat (sint srcsize) \<le> length src" and dst: "0 < sint dstsize"
    and fit: "\<forall>p\<in>set (ps @ qs). length p \<le> length dst \<and> int (length p) \<le> sint dstsize"
  shows "Lz4CompressDestsize lz src srcsize dst dstsize
     = Ret (int (length dst), of_int n, foldl (\<lambda>d p. splice d 0 p) dst (ps @ qs))"
proof -
  let ?w = "\<lparr>lw_buf = dst, lw_pos = 0, lw_limit = sint dstsize\<rparr>"
  let ?w1 = "?w\<lparr>lw_buf := foldl (\<lambda>d p. splice d 0 p) dst ps\<rparr>"
  have w1: "feed limitWriter_call ps ?w = Some ?w1"
    using feed_overlay [of ?w ps] dst fit by simp
  have "length (lw_buf ?w1) = length dst" using length_overlay [of ps dst] fit by simp
  then have "feed limitWriter_call qs ?w1 = Some (?w\<lparr>lw_buf := foldl (\<lambda>d p. splice d 0 p) dst (ps @ qs)\<rparr>)"
    using feed_overlay [of ?w1 qs] dst fit by simp
  with lz w1 src show ?thesis unfolding emits_def Lz4CompressDestsize_def Let_def by fastforce
qed

text \<open>The last chunk is what the destination starts with.\<close>

lemma overlay_last:
  assumes "ps \<noteq> []" "\<forall>p\<in>set ps. length p \<le> length d"
  shows "take (length (last ps)) (foldl (\<lambda>d p. splice d 0 p) d ps) = last ps"
proof -
  obtain qs q where ps: "ps = qs @ [q]" using assms(1) by (cases ps rule: rev_cases) auto
  then have "length (foldl (\<lambda>d p. splice d 0 p) d qs) = length d" using assms(2) by (intro length_overlay) simp
  then show ?thesis using ps assms(2) by (simp add: splice_def)
qed

subsection \<open>Initialising the configured algorithms\<close>

definition usable :: "compression_option \<Rightarrow> bool" where
  "usable opt \<longleftrightarrow> co_Algorithm opt = ''lz4'' \<and> co_Level opt < 0 \<and> co_DictSize opt = 0"

definition named :: "compression_option list \<Rightarrow> bool" where
  "named opts \<longleftrightarrow> (\<exists>opt\<in>set opts. co_Algorithm opt \<noteq> '''')"

definition comp_ready :: "comp_state \<Rightarrow> bool" where
  "comp_ready st \<longleftrightarrow> cs_maxDict st = replicate 4 0"

lemma init_algs_step:
  assumes "usable opt" "comp_ready st"
  shows "\<exists>st1. init_algs (opt # opts) i st = init_algs opts (Suc i) st1 \<and> comp_ready st1
     \<and> cs_avail st1 = cs_avail st OR 1 \<and> cs_sbi st1 = cs_sbi st\<lparr>Lz4_MaxDistance := 65535\<rparr>
     \<and> length (cs_ccfgs st1) = length (cs_ccfgs st)
     \<and> (\<forall>j. j \<noteq> i \<longrightarrow> cs_ccfgs st1 ! j = cs_ccfgs st ! j)
     \<and> (i < length (cs_ccfgs st) \<longrightarrow> cc_Enable (cs_ccfgs st1 ! i) \<and> cp_Alg (cc_Handle (cs_ccfgs st1 ! i)) = Some 0)"
  using assms
  by (auto simp: usable_def comp_ready_def erofsCompressorInit_spec zErofsGetCompressAlgorithmID_def erofsAlgs_def
      Let_def)

lemma init_algs_usable:
  assumes "\<forall>opt\<in>set opts. co_Algorithm opt = '''' \<or> usable opt" "comp_ready st"
  shows "\<exists>st'. init_algs opts i st = Ret (Inr (), st') \<and> comp_ready st'
     \<and> cs_avail st' = cs_avail st OR (if named opts then 1 else 0)
     \<and> cs_sbi st' = (if named opts then cs_sbi st\<lparr>Lz4_MaxDistance := 65535\<rparr> else cs_sbi st)
     \<and> length (cs_ccfgs st') = length (cs_ccfgs st)
     \<and> (\<forall>j < i. cs_ccfgs st' ! j = cs_ccfgs st ! j)
     \<and> (\<forall>j < length opts. i + length opts \<le> length (cs_ccfgs st) \<and> co_Algorithm (opts ! j) \<noteq> '''' \<longrightarrow>
          cc_Enable (cs_ccfgs st' ! (i + j)))"
  using assms
proof (induction opts arbitrary: i st)
  case (Cons opt opts)
  show ?case
  proof (cases "co_Algorithm opt = ''''")
    case True
    have "named (opt # opts) = named opts" using True by (simp add: named_def)
    moreover have "init_algs (opt # opts) i st = init_algs opts (Suc i) st" using True by simp
    moreover obtain st' where st': "init_algs opts (Suc i) st = Ret (Inr (), st')" "comp_ready st'"
        "cs_avail st' = cs_avail st OR (if named opts then 1 else 0)"
        "cs_sbi st' = (if named opts then cs_sbi st\<lparr>Lz4_MaxDistance := 65535\<rparr> else cs_sbi st)"
        "length (cs_ccfgs st') = length (cs_ccfgs st)" "\<forall>j < Suc i. cs_ccfgs st' ! j = cs_ccfgs st ! j"
        "\<forall>j < length opts. Suc i + length opts \<le> length (cs_ccfgs st) \<and> co_Algorithm (opts ! j) \<noteq> [] \<longrightarrow>
          cc_Enable (cs_ccfgs st' ! (Suc i + j))"
      using Cons.IH [of st "Suc i"] Cons.prems by auto
    moreover have "cc_Enable (cs_ccfgs st' ! (i + j))"
      if "j < length (opt # opts)" "i + length (opt # opts) \<le> length (cs_ccfgs st)" "co_Algorithm ((opt # opts) ! j) \<noteq> []"
      for j
      using that True st'(7) by (cases j) auto
    ultimately show ?thesis by (intro exI [of _ st']) auto
  next
    case False
    then have u: "usable opt" using Cons.prems(1) by simp
    obtain st1 where st1: "init_algs (opt # opts) i st = init_algs opts (Suc i) st1" "comp_ready st1"
        "cs_avail st1 = cs_avail st OR 1" "cs_sbi st1 = cs_sbi st\<lparr>Lz4_MaxDistance := 65535\<rparr>"
        "length (cs_ccfgs st1) = length (cs_ccfgs st)" "\<forall>j. j \<noteq> i \<longrightarrow> cs_ccfgs st1 ! j = cs_ccfgs st ! j"
        "i < length (cs_ccfgs st) \<longrightarrow> cc_Enable (cs_ccfgs st1 ! i)"
      using init_algs_step [OF u Cons.prems(2), of opts i] by blast
    obtain st2 where st2: "init_algs opts (Suc i) st1 = Ret (Inr (), st2)" "comp_ready st2"
        "cs_avail st2 = cs_avail st1 OR (if named opts then 1 else 0)"
        "cs_sbi st2 = (if named opts then cs_sbi st1\<lparr>Lz4_MaxDistance := 65535\<rparr> else cs_sbi st1)"
        "length (cs_ccfgs st2) = length (cs_ccfgs st1)" "\<forall>j < Suc i. cs_ccfgs st2 ! j = cs_ccfgs st1 ! j"
        "\<forall>j < length opts. Suc i + length opts \<le> length (cs_ccfgs st1) \<and> co_Algorithm (opts ! j) \<noteq> '''' \<longrightarrow>
          cc_Enable (cs_ccfgs st2 ! (Suc i + j))"
      using Cons.IH [of st1 "Suc i"] st1(2) Cons.prems(1) by auto
    have "named (opt # opts)" using False by (simp add: named_def)
    moreover have "cs_avail st2 = cs_avail st OR 1" using st2(3) st1(3) by (simp add: or.assoc)
    moreover have "cs_sbi st2 = cs_sbi st\<lparr>Lz4_MaxDistance := 65535\<rparr>" using st2(4) st1(4) by simp
    moreover have "cc_Enable (cs_ccfgs st2 ! (i + j))"
      if "j < length (opt # opts)" "i + length (opt # opts) \<le> length (cs_ccfgs st)" "co_Algorithm ((opt # opts) ! j) \<noteq> ''''"
      for j
      using that st1(5,7) st2(6,7) by (cases j) auto
    ultimately show ?thesis using st1 st2 by (intro exI [of _ st2]) auto
  qed
qed (simp add: named_def)

lemma init_algs_unusable:
  assumes "\<forall>opt\<in>set good. co_Algorithm opt = '''' \<or> usable opt" "comp_ready st"
    and "co_Algorithm bad \<noteq> ''''" "\<not> usable bad"
  shows "\<exists>st'. init_algs (good @ bad # rest) i st = Ret (Inl (- EINVAL), st')"
  using assms(1,2)
proof (induction good arbitrary: i st)
  case Nil
  with assms(3,4) show ?case
    by (auto simp: usable_def erofsCompressorInit_spec Let_def split: if_splits)
next
  case (Cons opt good)
  show ?case
  proof (cases "co_Algorithm opt = ''''")
    case False
    then have "usable opt" using Cons.prems(1) by simp
    with init_algs_step [OF _ Cons.prems(2), of opt "good @ bad # rest" i] Cons.IH Cons.prems(1) show ?thesis
      by (metis append_Cons list.set_intros(2))
  qed (use Cons in auto)
qed

text \<open>
  With the superblock's ring damaged by \<open>BhBalloon\<close>, nothing can be attached behind it; and the flag
  for big clusters is the flag for compression records, so big clusters always ask for them.
\<close>

lemma Battach_sb_reserved:
  assumes "sb_reserved sbi s"
  shows "Battach sbi 0 ty sz s = Ret ((None, - EINVAL), s)"
  using assms by (simp add: sb_reserved_def Battach_def manager_of_def split: prod.split)

lemma sb_reserved_cong:
  assumes "si_BlkSzBits sbi' = si_BlkSzBits sbi"
  shows "sb_reserved sbi' s = sb_reserved sbi s"
proof -
  have b: "BlkRoundUp sbi' off = BlkRoundUp sbi off" "ErofsBlkSiz sbi' = ErofsBlkSiz sbi" for off
    by (simp_all add: BlkRoundUp_def ErofsBlkSiz_def assms)
  have n: "nblks sbi' = nblks sbi" by (simp add: fun_eq_iff nblks_def b)
  have l: "laid_out sbi' f a bs z = laid_out sbi f a bs z" for f a bs z
    by (induction bs arbitrary: a) (simp_all add: n)
  have "buckets_hold sbi' = buckets_hold sbi"
    by (simp add: fun_eq_iff buckets_hold_def bucket_of_def b)
  then show ?thesis
    by (simp add: sb_reserved_def sb_blocks_def bm_inv_def small_blocks_def assms l n)
qed

lemma ZErofsCompressInit_default:
  fixes cfg :: config and ccfgs :: "compress_cfg list"
  defines "opts \<equiv> cf_CompressionOptions cfg"
  assumes opts: "opts \<noteq> []" "length opts \<le> length ccfgs" "\<forall>opt\<in>set opts. co_Algorithm opt = '''' \<or> usable opt" "named opts"
    and cfg: "\<not> cf_LegacyCompress cfg" "cf_MkfsPclusterSizePacked cfg \<le> cf_MkfsPclusterSizeMax cfg"
    and sb: "sb_reserved sbi s" "\<not> ErofsSbHasComprCfgs sbi"
  defines "sbi1 \<equiv> sbi\<lparr>Lz4_MaxDistance := 65535, AvailableComprAlgs := 1\<rparr>"
  shows "\<exists>ccfgs'. ZErofsCompressInit fuel cfg ccfgs sbi (Some 0) s w
     = Ret (if cf_MkfsPclusterSizeMax cfg \<le> ErofsBlkSiz sbi then (0, ccfgs', sbi1, s, w)
            else if cf_MkfsPclusterSizeMax cfg > Z_EROFS_PCLUSTER_MAX_SIZE then (- EINVAL, ccfgs', sbi1, s, w)
            else (- EINVAL, ccfgs', ErofsSbSetBigPcluster sbi1, s, w))
     \<and> (\<forall>j < length opts. co_Algorithm (opts ! j) \<noteq> '''' \<longrightarrow> cc_Enable (ccfgs' ! j))"
proof -
  define st0 where "st0 = \<lparr>cs_ccfgs = ccfgs, cs_sbi = sbi, cs_avail = 0, cs_maxDict = replicate 4 0\<rparr>"
  obtain st where st: "init_algs opts 0 st0 = Ret (Inr (), st)" "cs_avail st = 1"
      "cs_sbi st = sbi\<lparr>Lz4_MaxDistance := 65535\<rparr>"
      "\<forall>j < length opts. length opts \<le> length ccfgs \<and> co_Algorithm (opts ! j) \<noteq> [] \<longrightarrow> cc_Enable (cs_ccfgs st ! j)"
    using init_algs_usable [OF opts(3), of st0 0] opts(4) by (auto simp: st0_def comp_ready_def)
  have big: "ErofsSbHasComprCfgs (ErofsSbSetBigPcluster sbi1)"
    by (simp add: ErofsSbHasComprCfgs_def ErofsSbSetBigPcluster_def flag_defs bit_simps)
  have bs: "si_BlkSzBits (ErofsSbSetBigPcluster sbi1) = si_BlkSzBits sbi"
    by (simp add: ErofsSbSetBigPcluster_def flag_defs sbi1_def)
  have av: "AvailableComprAlgs (ErofsSbSetBigPcluster sbi1) = 1"
    by (simp add: ErofsSbSetBigPcluster_def flag_defs sbi1_def)
  have build: "ZErofsBuildComprCfgs fuel cfg (ErofsSbSetBigPcluster sbi1) 0 (cs_maxDict st) s w = Ret (- EINVAL, s, w)"
    using Battach_sb_reserved [of "ErofsSbSetBigPcluster sbi1" s] sb(1) sb_reserved_cong [OF bs]
    by (simp add: ZErofsBuildComprCfgs_def write_cfg_def av)
  have no: "\<not> ErofsSbHasComprCfgs sbi1" using sb(2) by (simp add: ErofsSbHasComprCfgs_def flag_defs sbi1_def)
  have blk: "ErofsBlkSiz sbi1 = ErofsBlkSiz sbi" by (simp add: ErofsBlkSiz_def sbi1_def)
  show ?thesis
    using opts(1,2) cfg st build big no blk
    by (intro exI [of _ "cs_ccfgs st"])
       (auto simp: ZErofsCompressInit_def opts_def [symmetric] st0_def [symmetric] Let_def sbi1_def [symmetric] not_less)
qed

end
