(* ===== verification/Hints.thy ===== *)
theory Hints
  imports Compress
begin

text \<open>
  Compression hints: \<open>ErofsLoadCompressHints\<close> and \<open>ErofsInsertCompressHints\<close> of
  \<open>pkg/compression/compress.go\<close>.  The file system is a map from paths to contents, and whether a
  pattern is a valid regular expression is a predicate supplied by the environment (a compiled
  expression is represented by its pattern).  A line is its bytes; \<open>strings.Fields\<close> reads them as UTF-8 and splits
  at Unicode white space.
\<close>

section \<open>The list of hints\<close>

datatype hint_node = HintsHead | HintEntry nat

record hint =
  hi_Reg :: string
  hi_PhysicalClusterblks :: u64
  hi_AlgorithmType :: u8

record hints =
  hs_links :: "hint_node links"
  hs_table :: "nat \<Rightarrow> hint"
  hs_next :: nat

text \<open>The package variable \<open>CompressHintsHead\<close> as the program starts: a zero list head.\<close>

definition no_hints :: hints where
  "no_hints = \<lparr>hs_links = \<lparr>lprev = Map.empty, lnext = Map.empty\<rparr>,
     hs_table = (\<lambda>_. \<lparr>hi_Reg = '''', hi_PhysicalClusterblks = 0, hi_AlgorithmType = 0\<rparr>), hs_next = 0\<rparr>"

definition ErofsInsertCompressHints ::
  "(string \<Rightarrow> bool) \<Rightarrow> string \<Rightarrow> u64 \<Rightarrow> u64 \<Rightarrow> hints \<Rightarrow> (int \<times> hints) go" where
  "ErofsInsertCompressHints regexp_ok pat blks algorithmType hs =
     (let n = hs_next hs;
          ch = \<lparr>hi_Reg = pat, hi_PhysicalClusterblks = blks, hi_AlgorithmType = ucast algorithmType\<rparr>
      in gbind (InitListHead (hs_links hs) (Some (HintEntry n))) (\<lambda>h1.
         let hs1 = hs\<lparr>hs_links := h1, hs_table := (hs_table hs)(n := ch), hs_next := Suc n\<rparr>
         in if \<not> regexp_ok pat then Ret (- EINVAL, hs1)
            else gbind (ListAddTail h1 (Some (HintEntry n)) (Some HintsHead)) (\<lambda>h2.
              Ret (0, hs1\<lparr>hs_links := h2\<rparr>))))"

section \<open>Reading a hints file\<close>

text \<open>\<open>bufio.Scanner\<close>: lines without their end (\<open>LF\<close> or \<open>CR LF\<close>); a line that does not fit the scanner's
  64 KiB buffer ends the scan silently.\<close>

primrec raw_lines :: "string \<Rightarrow> string \<Rightarrow> string list" where
  "raw_lines acc [] = (if acc = [] then [] else [rev acc])"
| "raw_lines acc (c # cs) =
     (if of_char c = (10 :: nat) then rev acc # raw_lines [] cs else raw_lines (c # acc) cs)"

definition drop_cr :: "string \<Rightarrow> string" where
  "drop_cr l = (if l \<noteq> [] \<and> of_char (last l) = (13 :: nat) then butlast l else l)"

definition scan_lines :: "string \<Rightarrow> string list" where
  "scan_lines text = map drop_cr (takeWhile (\<lambda>l. length l < 65536) (raw_lines [] text))"

text \<open>One step of Go's \<open>range\<close> over a string: the rune at the start of the bytes and its width; bytes that are not
  UTF-8 are a replacement character of width 1.\<close>

definition rune_tail :: "int \<Rightarrow> int \<Rightarrow> int list \<Rightarrow> bool" where
  "rune_tail lo hi bs \<longleftrightarrow> (case bs of [] \<Rightarrow> False
     | b # cs \<Rightarrow> lo \<le> b \<and> b \<le> hi \<and> (\<forall>c\<in>set cs. 0x80 \<le> c \<and> c \<le> 0xBF))"

definition DecodeRune :: "int list \<Rightarrow> int \<times> nat" where
  "DecodeRune bs =
     (let b = hd bs; value = (\<lambda>lead k. foldl (\<lambda>r c. r * 64 + (c - 0x80)) lead (take k (tl bs)));
          tail = (\<lambda>k lo hi. k < length bs \<and> rune_tail lo hi (take k (tl bs)))
      in if b < 0x80 then (b, 1)
         else if 0xC2 \<le> b \<and> b \<le> 0xDF \<and> tail 1 0x80 0xBF then (value (b - 0xC0) 1, 2)
         else if 0xE0 \<le> b \<and> b \<le> 0xEF \<and> tail 2 (if b = 0xE0 then 0xA0 else 0x80) (if b = 0xED then 0x9F else 0xBF)
         then (value (b - 0xE0) 2, 3)
         else if 0xF0 \<le> b \<and> b \<le> 0xF4 \<and> tail 3 (if b = 0xF0 then 0x90 else 0x80) (if b = 0xF4 then 0x8F else 0xBF)
         then (value (b - 0xF0) 3, 4)
         else (0xFFFD, 1))"

text \<open>\<open>unicode.IsSpace\<close>\<close>

definition is_space :: "int \<Rightarrow> bool" where
  "is_space r \<longleftrightarrow> r \<in> set [9, 10, 11, 12, 13, 32, 0x85, 0xA0, 0x1680, 0x2028, 0x2029, 0x202F, 0x205F, 0x3000]
     \<or> 0x2000 \<le> r \<and> r \<le> 0x200A"

lemma DecodeRune_width: "0 < snd (DecodeRune bs)"
  by (simp add: DecodeRune_def Let_def)

function fields_from :: "string \<Rightarrow> string \<Rightarrow> string list" where
  "fields_from acc s =
     (if s = [] then (if acc = [] then [] else [acc])
      else let (r, width) = DecodeRune (map of_char s)
        in if is_space r then (if acc = [] then [] else [acc]) @ fields_from [] (drop width s)
           else fields_from (acc @ take width s) (drop width s))"
  by pat_completeness auto
termination
proof (relation "measure (\<lambda>(acc, s). length s)", goal_cases)
  case (2 acc s x r width)
  then have "0 < width" using DecodeRune_width [of "map of_char s"] by (metis snd_conv)
  with 2 show ?case by (cases s) simp_all
next
  case (3 acc s x r width)
  then have "0 < width" using DecodeRune_width [of "map of_char s"] by (metis snd_conv)
  with 3 show ?case by (cases s) simp_all
qed simp

declare fields_from.simps [simp del]

definition Fields :: "string \<Rightarrow> string list" where
  "Fields = fields_from []"

text \<open>A no-break space splits a line as a blank does; a continuation byte on its own does not.\<close>

lemma Fields_unicode:
  "Fields (''4096 a'' @ map char_of [0xC2, 0xA0 :: nat] @ ''.*'') = [''4096'', ''a'', ''.*'']"
  "Fields (''4096 a'' @ map char_of [0xA0 :: nat] @ ''.*'') = [''4096'', ''a'' @ map char_of [0xA0 :: nat] @ ''.*'']"
  by code_simp+

definition digits_value :: "string \<Rightarrow> nat option" where
  "digits_value cs =
     (if cs \<noteq> [] \<and> (\<forall>c\<in>set cs. 48 \<le> (of_char c :: nat) \<and> (of_char c :: nat) \<le> 57)
      then Some (foldl (\<lambda>n c. 10 * n + (of_char c - 48)) 0 cs) else None)"

definition Atoi :: "string \<Rightarrow> int option" where
  "Atoi s =
     (let (neg, ds) = (case s of [] \<Rightarrow> (False, [])
          | c # cs \<Rightarrow> if c = CHR ''-'' then (True, cs) else if c = CHR ''+'' then (False, cs) else (False, c # cs))
      in case digits_value ds of
           None \<Rightarrow> None
         | Some n \<Rightarrow> let v = (if neg then - int n else int n)
             in if - (2 ^ 63) \<le> v \<and> v < 2 ^ 63 then Some v else None)"

definition go_quo :: "int \<Rightarrow> int \<Rightarrow> int" where
  "go_quo x y = sgn x * sgn y * (\<bar>x\<bar> div \<bar>y\<bar>)"

text \<open>What one line comes to: skipped, an error that ends the load, a run-time panic, or a hint with
  its cluster size, pattern and configuration number.\<close>

datatype hint_line = Skip | Reject int | Crash panic | Hint int string nat

definition hint_cfg :: "config \<Rightarrow> string \<Rightarrow> hint_line + nat" where
  "hint_cfg cfg alg =
     (if alg = '''' then Inr 0
      else case Atoi alg of
        None \<Rightarrow> Inl (Reject (- EINVAL))
      | Some v \<Rightarrow>
          if v < 0 then Inl (Reject (- EINVAL))
          else if v \<ge> uint EROFS_MAX_COMPR_CFGS then Inl (Reject (- EINVAL))
          else if nat v \<ge> length (cf_CompressionOptions cfg) then Inl (Crash IndexRange)
          else if co_Algorithm (cf_CompressionOptions cfg ! nat v) = '''' then Inl (Reject (- EINVAL))
          else Inr (nat v))"

definition parse_hint :: "config \<Rightarrow> sbinfo \<Rightarrow> string \<Rightarrow> hint_line" where
  "parse_hint cfg sbi line =
     (if line = '''' \<or> hd line = CHR ''#'' \<or> of_char (hd line) = (10 :: nat) then Skip
      else if length line > unat PATH_MAX + 100 then Crash SliceBounds
      else let fields = Fields line in
        if length fields < 2 then Reject (- EINVAL)
        else case Atoi (fields ! 0) of
          None \<Rightarrow> Reject (- EINVAL)
        | Some pcs \<Rightarrow>
            let (alg, pat) = (if length fields = 2 then ('''', fields ! 1) else (fields ! 1, fields ! 2))
            in if pat = '''' then Reject (- EINVAL)
               else case hint_cfg cfg alg of
                 Inl out \<Rightarrow> out
               | Inr ccfg \<Rightarrow>
                   if ErofsBlkSiz sbi = 0 then Crash DivideByZero
                   else if (of_int pcs :: u32) mod ErofsBlkSiz sbi \<noteq> 0 then Skip
                   else Hint pcs pat ccfg)"

text \<open>The scan; \<open>ErofsInsertCompressHints\<close>'s result is not looked at.  \<open>Inl\<close> carries an early result.\<close>

primrec load_lines ::
  "(string \<Rightarrow> bool) \<Rightarrow> config \<Rightarrow> sbinfo \<Rightarrow> string list \<Rightarrow> u64 \<Rightarrow> hints \<Rightarrow> ((int + u64) \<times> hints) go" where
  "load_lines regexp_ok cfg sbi [] mx hs = Ret (Inr mx, hs)"
| "load_lines regexp_ok cfg sbi (l # ls) mx hs =
     (case parse_hint cfg sbi l of
        Skip \<Rightarrow> load_lines regexp_ok cfg sbi ls mx hs
      | Reject ret \<Rightarrow> Ret (Inl ret, hs)
      | Crash p \<Rightarrow> Panic p
      | Hint pcs pat ccfg \<Rightarrow>
          gbind (ErofsInsertCompressHints regexp_ok pat (of_int (go_quo pcs (uint (ErofsBlkSiz sbi)))) (of_nat ccfg) hs)
            (\<lambda>(_, hs1).
              load_lines regexp_ok cfg sbi ls (if of_int pcs > mx then of_int pcs else mx) hs1))"

definition ErofsLoadCompressHints ::
  "(string \<Rightarrow> bool) \<Rightarrow> (string \<Rightarrow> string option) \<Rightarrow> config \<Rightarrow> sbinfo \<Rightarrow> hints \<Rightarrow> (int \<times> config \<times> hints) go" where
  "ErofsLoadCompressHints regexp_ok files cfg sbi hs =
     (if cf_CompressHintsFile cfg = '''' then Ret (0, cfg, hs)
      else case files (cf_CompressHintsFile cfg) of
        None \<Rightarrow> Ret (- ENOENT, cfg, hs)
      | Some text \<Rightarrow>
          gbind (load_lines regexp_ok cfg sbi (scan_lines text) 0 hs) (\<lambda>(r, hs1).
          case r of
            Inl ret \<Rightarrow> Ret (ret, cfg, hs1)
          | Inr mx \<Rightarrow>
              if cf_MkfsPclusterSizeMax cfg < ucast mx
              then Ret (0, cfg\<lparr>cf_MkfsPclusterSizeMax := ucast mx\<rparr>, hs1)
              else Ret (0, cfg, hs1)))"

section \<open>Lemmas\<close>

text \<open>The head is a zero value and nothing initialises it: the first hint with a valid pattern
  dereferences its \<open>nil\<close> predecessor.\<close>

lemma insert_into_zero_head:
  assumes "regexp_ok pat" "lprev (hs_links hs) HintsHead = None"
  shows "ErofsInsertCompressHints regexp_ok pat blks alg hs = Panic NilDeref"
  using assms by (simp add: ErofsInsertCompressHints_def link_defs Let_def)

lemma load_zero_head:
  assumes "regexp_ok pat" "lprev (hs_links hs) HintsHead = None"
    and "\<forall>l\<in>set ls. parse_hint cfg sbi l = Skip" "parse_hint cfg sbi l = Hint pcs pat ccfg"
  shows "load_lines regexp_ok cfg sbi (ls @ l # rest) mx hs = Panic NilDeref"
  using assms by (induction ls) (simp_all add: insert_into_zero_head)

text \<open>What the file asks for: the hints of its lines whose pattern is valid, in order.\<close>

primrec wanted :: "(string \<Rightarrow> bool) \<Rightarrow> config \<Rightarrow> sbinfo \<Rightarrow> string list \<Rightarrow> hint list" where
  "wanted regexp_ok cfg sbi [] = []"
| "wanted regexp_ok cfg sbi (l # ls) =
     (case parse_hint cfg sbi l of
        Hint pcs pat ccfg \<Rightarrow>
          (if regexp_ok pat
           then [\<lparr>hi_Reg = pat, hi_PhysicalClusterblks = of_int (go_quo pcs (uint (ErofsBlkSiz sbi))),
                  hi_AlgorithmType = of_nat ccfg\<rparr>] else [])
      | _ \<Rightarrow> []) @ wanted regexp_ok cfg sbi ls"

primrec largest :: "config \<Rightarrow> sbinfo \<Rightarrow> string list \<Rightarrow> u64 \<Rightarrow> u64" where
  "largest cfg sbi [] mx = mx"
| "largest cfg sbi (l # ls) mx =
     (case parse_hint cfg sbi l of
        Hint pcs pat ccfg \<Rightarrow> largest cfg sbi ls (max mx (of_int pcs))
      | _ \<Rightarrow> largest cfg sbi ls mx)"

definition hints_are :: "hints \<Rightarrow> hint list \<Rightarrow> bool" where
  "hints_are hs xs \<longleftrightarrow> (\<exists>ids. dll (hs_links hs) HintsHead (map HintEntry ids) \<and> map (hs_table hs) ids = xs
     \<and> (\<forall>i\<in>set ids. i < hs_next hs))"

lemma hints_are_empty: "\<exists>hs. hints_are hs []"
proof -
  obtain h where "InitListHead (hs_links no_hints) (Some HintsHead) = Ret h" "dll h HintsHead []"
    using InitListHead_Ret [of "hs_links no_hints" HintsHead] by blast
  then show ?thesis by (auto simp: hints_are_def intro!: exI [of _ "no_hints\<lparr>hs_links := h\<rparr>"])
qed

lemma insert_hint:
  assumes "hints_are hs xs" "regexp_ok pat"
  shows "\<exists>hs'. ErofsInsertCompressHints regexp_ok pat blks alg hs = Ret (0, hs')
     \<and> hints_are hs' (xs @ [\<lparr>hi_Reg = pat, hi_PhysicalClusterblks = blks, hi_AlgorithmType = ucast alg\<rparr>])"
proof -
  obtain ids where ids: "dll (hs_links hs) HintsHead (map HintEntry ids)" "map (hs_table hs) ids = xs"
      "\<forall>i\<in>set ids. i < hs_next hs"
    using assms(1) by (auto simp: hints_are_def)
  let ?n = "hs_next hs"
  obtain h1 where h1: "InitListHead (hs_links hs) (Some (HintEntry ?n)) = Ret h1"
      "same_outside {HintEntry ?n} (hs_links hs) h1"
    using InitListHead_Ret [of "hs_links hs" "HintEntry ?n"] by blast
  have new: "HintEntry ?n \<notin> insert HintsHead (set (map HintEntry ids))" using ids(3) by auto
  have d1: "dll h1 HintsHead (map HintEntry ids)"
    by (rule dll_frame [OF ids(1) h1(2)]) (use new in auto)
  obtain h2 where h2: "ListAddTail h1 (Some (HintEntry ?n)) (Some HintsHead) = Ret h2"
      "dll h2 HintsHead (map HintEntry ids @ [HintEntry ?n])"
    using ListAddTail_dll [OF d1 new] by blast
  have "?n \<notin> set ids" using ids(3) by auto
  then have "map ((hs_table hs)(?n := x)) ids = xs" for x using ids(2) by auto
  with h1(1) h2 assms(2) ids(3) show ?thesis
    by (auto simp: ErofsInsertCompressHints_def hints_are_def Let_def less_Suc_eq intro!: exI [of _ "ids @ [?n]"])
qed

lemma insert_invalid_hint:
  assumes "hints_are hs xs" "\<not> regexp_ok pat"
  shows "\<exists>hs'. ErofsInsertCompressHints regexp_ok pat blks alg hs = Ret (- EINVAL, hs') \<and> hints_are hs' xs"
proof -
  obtain ids where ids: "dll (hs_links hs) HintsHead (map HintEntry ids)" "map (hs_table hs) ids = xs"
      "\<forall>i\<in>set ids. i < hs_next hs"
    using assms(1) by (auto simp: hints_are_def)
  let ?n = "hs_next hs"
  obtain h1 where h1: "InitListHead (hs_links hs) (Some (HintEntry ?n)) = Ret h1"
      "same_outside {HintEntry ?n} (hs_links hs) h1"
    using InitListHead_Ret [of "hs_links hs" "HintEntry ?n"] by blast
  have d1: "dll h1 HintsHead (map HintEntry ids)"
    by (rule dll_frame [OF ids(1) h1(2)]) (use ids(3) in auto)
  have "?n \<notin> set ids" using ids(3) by auto
  then have "map ((hs_table hs)(?n := x)) ids = xs" for x using ids(2) by auto
  with h1(1) d1 assms(2) ids(3) show ?thesis
    by (auto simp: ErofsInsertCompressHints_def hints_are_def Let_def less_Suc_eq intro!: exI [of _ ids])
qed

lemma load_lines_accepted:
  assumes "hints_are hs xs" "\<forall>l\<in>set ls. parse_hint cfg sbi l = Skip \<or> (\<exists>pcs pat k. parse_hint cfg sbi l = Hint pcs pat k)"
  shows "\<exists>hs'. load_lines regexp_ok cfg sbi ls mx hs = Ret (Inr (largest cfg sbi ls mx), hs')
     \<and> hints_are hs' (xs @ wanted regexp_ok cfg sbi ls)"
  using assms
proof (induction ls arbitrary: mx hs xs)
  case (Cons l ls)
  show ?case
  proof (cases "parse_hint cfg sbi l")
    case Skip
    with Cons.IH [OF Cons.prems(1)] Cons.prems(2) show ?thesis by simp
  next
    case (Hint pcs pat k)
    let ?b = "of_int (go_quo pcs (uint (ErofsBlkSiz sbi))) :: u64"
    let ?x = "\<lparr>hi_Reg = pat, hi_PhysicalClusterblks = ?b, hi_AlgorithmType = of_nat k\<rparr> :: hint"
    have k: "ucast (of_nat k :: u64) = (of_nat k :: u8)" by (simp add: unsigned_of_nat word_of_nat_eq_iff)
    have "\<exists>r hs1. ErofsInsertCompressHints regexp_ok pat ?b (of_nat k) hs = Ret (r, hs1)
        \<and> hints_are hs1 (xs @ (if regexp_ok pat then [?x] else []))"
    proof (cases "regexp_ok pat")
      case True
      with insert_hint [OF Cons.prems(1), of regexp_ok pat ?b "of_nat k"] k show ?thesis by auto
    next
      case False
      with insert_invalid_hint [OF Cons.prems(1), of regexp_ok pat ?b "of_nat k"] show ?thesis by auto
    qed
    then obtain r hs1 where hs1: "ErofsInsertCompressHints regexp_ok pat ?b (of_nat k) hs = Ret (r, hs1)"
        "hints_are hs1 (xs @ (if regexp_ok pat then [?x] else []))"
      by blast
    have m: "(if of_int pcs > mx then of_int pcs else mx) = max mx (of_int pcs)" by (auto simp: max_def)
    obtain hs2 where "load_lines regexp_ok cfg sbi ls (max mx (of_int pcs)) hs1
          = Ret (Inr (largest cfg sbi ls (max mx (of_int pcs))), hs2)"
        "hints_are hs2 ((xs @ (if regexp_ok pat then [?x] else [])) @ wanted regexp_ok cfg sbi ls)"
      using Cons.IH [OF hs1(2)] Cons.prems(2) by auto
    with hs1(1) m Hint show ?thesis by (auto simp: split: if_splits)
  qed (use Cons.prems(2) in auto)
qed simp

text \<open>A first bad line ends the load with its error, after the hints before it were inserted.\<close>

lemma load_lines_reject:
  assumes "hints_are hs xs" "\<forall>l\<in>set ls. parse_hint cfg sbi l = Skip \<or> (\<exists>pcs pat k. parse_hint cfg sbi l = Hint pcs pat k)"
    and "parse_hint cfg sbi bad = Reject ret"
  shows "\<exists>hs'. load_lines regexp_ok cfg sbi (ls @ bad # rest) mx hs = Ret (Inl ret, hs')
     \<and> hints_are hs' (xs @ wanted regexp_ok cfg sbi ls)"
proof -
  have app: "load_lines regexp_ok cfg sbi (as @ bs) mx hs
      = gbind (load_lines regexp_ok cfg sbi as mx hs) (\<lambda>(r, hs1).
          case r of Inl ret \<Rightarrow> Ret (Inl ret, hs1) | Inr mx1 \<Rightarrow> load_lines regexp_ok cfg sbi bs mx1 hs1)"
    for as bs mx hs
  proof (induction as arbitrary: mx hs)
    case (Cons a as)
    then show ?case by (auto split: hint_line.splits intro!: arg_cong [of _ _ "gbind _"])
  qed simp
  obtain hs1 where "load_lines regexp_ok cfg sbi ls mx hs = Ret (Inr (largest cfg sbi ls mx), hs1)"
      "hints_are hs1 (xs @ wanted regexp_ok cfg sbi ls)"
    using load_lines_accepted [OF assms(1,2)] by blast
  with assms(3) show ?thesis by (simp add: app)
qed

end
