(* ===== verification/Diskbuf.thy ===== *)
theory Diskbuf
  imports Device
begin

text \<open>
  \<open>pkg/util/diskbuf.go\<close>: opening the image (\<open>DevOpen\<close>), and the path-based writes \<open>DevWrite\<close>, \<open>BlkWrite\<close>
  and \<open>DevResize\<close>.  What the operating system answers to each call is an input; the file itself is an
  \<open>osfile\<close>, found under its path before the call.
\<close>

section \<open>Opening the image\<close>

datatype file_kind = Regular | DeviceFile | OtherFile

record os_answers =
  os_open :: "int option"
  os_stat :: "int option"
  os_kind :: file_kind
  os_statfs :: "int option"
  os_remove :: "int option"
  os_reopen :: "int option"
  os_truncate :: "int option"
  os_fstat :: "int + int"
  os_getsize64 :: "int + u64"
  os_getsize :: "int + u64"
  os_discard :: int

datatype open_error = OsError int | NotEmpty | BadFileType | DeviceSize int

text \<open>\<open>GetBlockDeviceSize\<close> gives its result and what \<open>*bytes\<close> becomes: a \<^emph>\<open>failing\<close> first call ends it with
  success, a successful one is followed by the second.\<close>

definition GetBlockDeviceSize :: "os_answers \<Rightarrow> u64 \<Rightarrow> int \<times> u64" where
  "GetBlockDeviceSize os bytes0 =
     (case os_getsize64 os of
        Inl errno \<Rightarrow> (0, bytes0)
      | Inr n \<Rightarrow> (case os_getsize os of
            Inr sectors \<Rightarrow> (0, push_bit 9 sectors)
          | Inl errno \<Rightarrow> (- EOPNOTSUPP, n)))"

definition BDevDiscard :: "os_answers \<Rightarrow> int" where
  "BDevDiscard os = (if os_discard os \<noteq> 0 then - os_discard os else 0)"

record dev_open =
  do_err :: "open_error option"
  do_sbi :: sbinfo
  do_file :: "osfile option"
  do_removed :: bool

definition empty_file :: "osfile \<Rightarrow> osfile" where
  "empty_file f = f\<lparr>f_data := []\<rparr>"

definition EXT4_MAGIC :: int where [simp]: "EXT4_MAGIC = 0xEF53"
definition BTRFS_MAGIC :: int where [simp]: "BTRFS_MAGIC = 0x9123683E"

text \<open>\<open>os.Remove\<close> takes the file from its path, or fails and leaves it there.  \<open>os.OpenFile\<close> with \<open>O_CREATE\<close>
  opens the file under the path, or makes \<open>fresh\<close> when there is none.\<close>

definition os_Remove :: "os_answers \<Rightarrow> osfile option \<Rightarrow> int option \<times> osfile option" where
  "os_Remove os file = (case os_remove os of Some e \<Rightarrow> (Some e, file) | None \<Rightarrow> (None, None))"

definition open_or_create :: "osfile option \<Rightarrow> osfile \<Rightarrow> osfile" where
  "open_or_create file fresh = (case file of Some f \<Rightarrow> f | None \<Rightarrow> fresh)"

text \<open>The code behind the label \<open>repeat\<close>, for a file of non-zero size.  \<open>f\<close> is the file under the path, which is
  also the one that is open; \<open>removed\<close> records that \<open>os.Remove\<close> worked, whose error the code drops.  The
  jump back is the recursive call, with \<open>again\<close> set.\<close>

function open_repeat :: "bool \<Rightarrow> bool \<Rightarrow> os_answers \<Rightarrow> sbinfo \<Rightarrow> osfile \<Rightarrow> osfile \<Rightarrow> dev_open + osfile \<times> bool" where
  "open_repeat again removed os sbi fresh f =
     (let fail = (\<lambda>e file removed. Inl \<lparr>do_err = Some e, do_sbi = sbi, do_file = file, do_removed = removed\<rparr>)
      in if \<not> again \<and> (os_statfs os = Some EXT4_MAGIC \<or> os_statfs os = Some BTRFS_MAGIC)
         then let (err, file1) = os_Remove os (Some f)
              in case os_reopen os of
                   Some e \<Rightarrow> fail (OsError e) file1 (err = None)
                 | None \<Rightarrow> open_repeat True (err = None) os sbi fresh (open_or_create file1 fresh)
         else if again then fail NotEmpty (Some f) removed
         else case os_truncate os of
             Some e \<Rightarrow> fail (OsError e) (Some f) removed
           | None \<Rightarrow> Inr (empty_file f, removed))"
  by pat_completeness auto
termination by (relation "measure (\<lambda>(again, _). if again then 0 else 1)") auto

declare open_repeat.simps [simp del]

text \<open>The regular-file branch of a truncating open; the size is tested once, before the label.\<close>

definition open_regular :: "os_answers \<Rightarrow> sbinfo \<Rightarrow> osfile \<Rightarrow> osfile \<Rightarrow> dev_open" where
  "open_regular os sbi fresh f =
     (case (if f_data f \<noteq> [] then open_repeat False False os sbi fresh f else Inr (f, False)) of
        Inl failed \<Rightarrow> failed
      | Inr (g, removed) \<Rightarrow> (case os_fstat os of
            Inl e \<Rightarrow> \<lparr>do_err = Some (OsError e), do_sbi = sbi, do_file = Some g, do_removed = removed\<rparr>
          | Inr blksize \<Rightarrow> \<lparr>do_err = None, do_sbi = sbi\<lparr>DevBlkSz := blksize\<rparr>, do_file = Some g, do_removed = removed\<rparr>))"

definition open_device :: "os_answers \<Rightarrow> sbinfo \<Rightarrow> osfile \<Rightarrow> dev_open go" where
  "open_device os sbi f =
     (let (ret, n) = GetBlockDeviceSize os (Devsz sbi)
      in if ret \<noteq> 0 then Panic NilDeref
         else gbind (roundDown n (ErofsBlockSize sbi)) (\<lambda>sz.
           if BDevDiscard os \<noteq> 0 then Panic NilDeref
           else Ret \<lparr>do_err = None, do_sbi = sbi\<lparr>Devsz := sz\<rparr>, do_file = Some f, do_removed = False\<rparr>))"

text \<open>\<open>fresh\<close> is the file that \<open>O_CREATE\<close> makes when there is none; a read-only open creates nothing.  The
  device branch formats a nil error, which panics, when a call fails.\<close>

definition DevOpen :: "os_answers \<Rightarrow> sbinfo \<Rightarrow> osfile option \<Rightarrow> osfile \<Rightarrow> u32 \<Rightarrow> dev_open go" where
  "DevOpen os sbi existing fresh flags =
     (let ro = (flags AND 3 = 0); truncate = (flags AND 512 \<noteq> 0);
          fail = (\<lambda>e file. Ret \<lparr>do_err = Some e, do_sbi = sbi, do_file = file, do_removed = False\<rparr>)
      in case os_open os of
           Some e \<Rightarrow> fail (OsError e) existing
         | None \<Rightarrow>
           (case (existing, ro) of
              (None, True) \<Rightarrow> fail (OsError ENOENT) None
            | _ \<Rightarrow>
              let f = open_or_create existing fresh
              in if ro \<or> \<not> truncate
                 then Ret \<lparr>do_err = None, do_sbi = sbi, do_file = Some f, do_removed = False\<rparr>
                 else case os_stat os of
                   Some e \<Rightarrow> fail (OsError e) (Some f)
                 | None \<Rightarrow>
                   (case os_kind os of
                      DeviceFile \<Rightarrow> open_device os sbi f
                    | Regular \<Rightarrow> Ret (open_regular os sbi fresh f)
                    | OtherFile \<Rightarrow> fail BadFileType (Some f))))"

section \<open>Writing through the path\<close>

text \<open>
  Go's \<open>File.Write\<close> repeats the system call after an interruption and after a short transfer; a transfer
  of nothing is an error.  The result carries the error, the file's bytes and the rest of the script.
\<close>

primrec write_script ::
  "sysresp list \<Rightarrow> sysresp \<Rightarrow> bytes \<Rightarrow> nat \<Rightarrow> bytes \<Rightarrow> (int option \<times> bytes \<times> sysresp list) go" where
  "write_script [] rest data p bs =
     (case rest of
        Full \<Rightarrow> Ret (None, write_at data p bs, [])
      | Part k \<Rightarrow> if k = 0 \<and> bs \<noteq> [] then Ret (Some EIO, data, []) else Ret (None, write_at data p bs, [])
      | Intr \<Rightarrow> NoFuel
      | Fail e \<Rightarrow> Ret (Some e, data, []))"
| "write_script (r # rs) rest data p bs =
     (case r of
        Full \<Rightarrow> Ret (None, write_at data p bs, rs)
      | Part k \<Rightarrow>
          if length bs \<le> k then Ret (None, write_at data p bs, rs)
          else if k = 0 then Ret (Some EIO, data, rs)
          else write_script rs rest (write_at data p (take k bs)) (p + k) (drop k bs)
      | Intr \<Rightarrow> write_script rs rest data p bs
      | Fail e \<Rightarrow> Ret (Some e, data, rs))"

text \<open>Each call opens the file anew, without creating it, and moves to the offset as \<open>int64\<close>.\<close>

definition util_DevWrite :: "os_answers \<Rightarrow> osfile option \<Rightarrow> bytes \<Rightarrow> u64 \<Rightarrow> u64 \<Rightarrow> (int option \<times> osfile option) go" where
  "util_DevWrite os file buf offset len =
     (case os_open os of Some e \<Rightarrow> Ret (Some e, file)
      | None \<Rightarrow> (case file of None \<Rightarrow> Ret (Some ENOENT, None)
        | Some f \<Rightarrow>
          if sint offset < 0 then Ret (Some EINVAL, file)
          else gbind (gguard (unat len \<le> length buf) SliceBounds) (\<lambda>_.
            gbind (write_script (f_script f) (f_rest f) (f_data f) (unat offset) (take (unat len) buf))
              (\<lambda>(err, data, rs). Ret (err, Some (f\<lparr>f_data := data, f_script := rs\<rparr>))))))"

definition util_BlkWrite :: "os_answers \<Rightarrow> sbinfo \<Rightarrow> osfile option \<Rightarrow> bytes \<Rightarrow> u32 \<Rightarrow> u32 \<Rightarrow> (int option \<times> osfile option) go" where
  "util_BlkWrite os sbi file buf blkAddr nblocks =
     util_DevWrite os file buf (push_bit (unat (si_BlkSzBits sbi)) (ucast blkAddr))
       (push_bit (unat (si_BlkSzBits sbi)) (ucast nblocks))"

definition util_DevResize :: "os_answers \<Rightarrow> sbinfo \<Rightarrow> osfile option \<Rightarrow> u32 \<Rightarrow> int option \<times> osfile option" where
  "util_DevResize os sbi file blocks =
     (let len = push_bit (unat (si_BlkSzBits sbi)) (ucast blocks) :: u64 in
      case os_open os of Some e \<Rightarrow> (Some e, file)
      | None \<Rightarrow> (case file of None \<Rightarrow> (Some ENOENT, None)
        | Some f \<Rightarrow>
          if sint len < 0 then (Some EINVAL, file)
          else case os_truncate os of Some e \<Rightarrow> (Some e, file)
            | None \<Rightarrow> (None, Some (f\<lparr>f_data := resize (f_data f) (unat len)\<rparr>))))"

section \<open>Lemmas\<close>

lemma open_or_create_simps [simp]: "open_or_create (Some f) fresh = f" "open_or_create None fresh = fresh"
  by (simp_all add: open_or_create_def)

lemma DevOpen_read_write:
  assumes "flags AND 3 \<noteq> 0" "flags AND 512 = 0"
  shows "DevOpen os sbi existing fresh flags =
     Ret (case os_open os of
       Some e \<Rightarrow> \<lparr>do_err = Some (OsError e), do_sbi = sbi, do_file = existing, do_removed = False\<rparr>
     | None \<Rightarrow> \<lparr>do_err = None, do_sbi = sbi, do_file = Some (open_or_create existing fresh), do_removed = False\<rparr>)"
  using assms by (simp add: DevOpen_def Let_def split: option.split)

lemma DevOpen_truncate:
  assumes "flags AND 3 \<noteq> 0" "flags AND 512 \<noteq> 0" "os_open os = None" "os_stat os = None" "os_kind os = Regular"
  shows "DevOpen os sbi existing fresh flags = Ret (open_regular os sbi fresh (open_or_create existing fresh))"
  using assms by (cases existing) (simp_all add: DevOpen_def Let_def)

text \<open>After a reopening nothing but the error is left; the passes over \<open>repeat\<close> are at most two.\<close>

lemma open_repeat_again:
  "open_repeat True removed os sbi fresh f
     = Inl \<lparr>do_err = Some NotEmpty, do_sbi = sbi, do_file = Some f, do_removed = removed\<rparr>"
  by (simp add: open_repeat.simps [of True])

lemma open_repeat_removing:
  assumes "os_statfs os = Some EXT4_MAGIC \<or> os_statfs os = Some BTRFS_MAGIC"
  shows "open_repeat False removed os sbi fresh f = Inl \<lparr>do_err = Some (case os_reopen os of Some e \<Rightarrow> OsError e | None \<Rightarrow> NotEmpty),
     do_sbi = sbi, do_file = (if os_remove os \<noteq> None then Some f else if os_reopen os = None then Some fresh else None),
     do_removed = (os_remove os = None)\<rparr>"
  using assms
  by (auto simp: open_repeat.simps [of False] open_repeat_again os_Remove_def Let_def split: option.split)

lemma open_repeat_truncating:
  assumes "os_statfs os \<noteq> Some EXT4_MAGIC" "os_statfs os \<noteq> Some BTRFS_MAGIC"
  shows "open_repeat False removed os sbi fresh f = (case os_truncate os of
       Some e \<Rightarrow> Inl \<lparr>do_err = Some (OsError e), do_sbi = sbi, do_file = Some f, do_removed = removed\<rparr>
     | None \<Rightarrow> Inr (empty_file f, removed))"
  using assms by (auto simp: open_repeat.simps [of False] split: option.split)

lemma write_at_split:
  assumes "0 < k" "k < length bs"
  shows "byte_at (write_at (write_at data p (take k bs)) (p + k) (drop k bs)) = byte_at (write_at data p bs)"
  using assms by (auto simp: byte_at_write_at fun_eq_iff)

lemma write_script_complete:
  assumes "\<forall>r\<in>set rs. reads_ok r" "rest = Full"
  shows "\<exists>data' rs'. write_script rs rest data p bs = Ret (None, data', rs')
     \<and> byte_at data' = byte_at (write_at data p bs)"
  using assms
proof (induction rs arbitrary: data p bs)
  case (Cons r rs)
  show ?case
  proof (cases r)
    case (Part k)
    then have k: "0 < k" using Cons.prems(1) by (simp add: reads_ok_def)
    show ?thesis
    proof (cases "length bs \<le> k")
      case False
      then obtain data' rs' where "write_script rs rest (write_at data p (take k bs)) (p + k) (drop k bs) = Ret (None, data', rs')"
          "byte_at data' = byte_at (write_at (write_at data p (take k bs)) (p + k) (drop k bs))"
        using Cons.IH [of "write_at data p (take k bs)" "p + k" "drop k bs"] Cons.prems by auto
      with Part k False write_at_split [of k bs data p] show ?thesis by auto
    qed (use Part in simp)
  qed (use Cons in \<open>auto simp: reads_ok_def\<close>)
qed simp

text \<open>The path-based writer stores the bytes of its blocks even when the kernel cuts a transfer short.\<close>

lemma util_BlkWrite_complete:
  fixes blkAddr nblocks :: u32
  assumes "os_open os = None" "unat (si_BlkSzBits sbi) \<le> 12"
    and "\<forall>r\<in>set (f_script f). reads_ok r" "f_rest f = Full"
    and "unat nblocks * 2 ^ unat (si_BlkSzBits sbi) \<le> length buf"
  shows "\<exists>f'. util_BlkWrite os sbi (Some f) buf blkAddr nblocks = Ret (None, Some f')
     \<and> byte_at (f_data f') = byte_at (write_at (f_data f) (unat blkAddr * 2 ^ unat (si_BlkSzBits sbi))
          (take (unat nblocks * 2 ^ unat (si_BlkSzBits sbi)) buf))"
proof -
  let ?b = "unat (si_BlkSzBits sbi)"
  note u = block_bytes [OF assms(2)]
  have "\<not> sint (push_bit ?b (ucast blkAddr) :: u64) < 0"
    using sint_nonneg [of "push_bit ?b (ucast blkAddr)"] u [of blkAddr] by simp
  moreover obtain data' rs' where
    "write_script (f_script f) (f_rest f) (f_data f) (unat blkAddr * 2 ^ ?b) (take (unat nblocks * 2 ^ ?b) buf)
      = Ret (None, data', rs')"
    "byte_at data' = byte_at (write_at (f_data f) (unat blkAddr * 2 ^ ?b) (take (unat nblocks * 2 ^ ?b) buf))"
    using write_script_complete [OF assms(3,4)] by blast
  ultimately show ?thesis
    using assms(1,5) by (simp add: util_BlkWrite_def util_DevWrite_def u)
qed


text \<open>The device of an image whose next transfer the kernel cuts off after \<open>n\<close> bytes.\<close>

definition dev_short :: "io \<Rightarrow> nat \<Rightarrow> bool" where
  "dev_short w n \<longleftrightarrow> \<not> io_DryRun w \<and> 3 \<le> io_fuel w \<and> vf_Ops (io_BDev w) = None \<and> vf_Offset (io_BDev w) = 0
     \<and> f_script (vf_file (io_BDev w)) = [Part n] \<and> f_rest (vf_file (io_BDev w)) = Full"

definition store_dev :: "bytes \<Rightarrow> io \<Rightarrow> io" where
  "store_dev data w = w\<lparr>io_BDev := (io_BDev w)\<lparr>vf_file := (vf_file (io_BDev w))\<lparr>f_script := [], f_data := data\<rparr>\<rparr>\<rparr>"

text \<open>\<open>ErofsBlkWrite\<close> on it reports success over the wrong bytes, or panics when the buffer ends.\<close>

lemma ErofsBlkWrite_short:
  fixes blkAddr nblocks :: u32 and sbi :: sbinfo
  defines "p \<equiv> unat blkAddr * 2 ^ unat (si_BlkSzBits sbi)" and "l \<equiv> unat nblocks * 2 ^ unat (si_BlkSzBits sbi)"
  assumes "unat (si_BlkSzBits sbi) \<le> 12" "dev_short w n" "0 < n" "n < l" "l \<le> length buf"
  shows "ErofsBlkWrite sbi w buf (length buf) blkAddr nblocks =
     (if l + n \<le> length buf
      then Ret (0, store_dev (write_at (write_at (dev_data w) p (take n buf)) (p + n) (cut (2 * n) (l - n) buf)) w)
      else Panic SliceBounds)"
proof -
  let ?b = "unat (si_BlkSzBits sbi)"
  have pos: "unat (push_bit ?b (ucast blkAddr) :: u64) = p" and len: "sint (push_bit ?b (ucast nblocks) :: u64) = int l"
    using block_bytes [OF assms(3), of blkAddr] sint_block_bytes [OF assms(3), of nblocks] by (simp_all add: p_def l_def)
  have "p + n < 2 ^ 63"
  proof -
    have "(2::nat) ^ ?b \<le> 2 ^ 12" by (rule power_increasing [OF assms(3)]) simp
    then have "unat x * 2 ^ ?b < 2 ^ 32 * 2 ^ 12" for x :: u32
      by (rule mult_less_le_imp_less [rotated]) (use unsigned_less [of x, where 'a = nat] in simp_all)
    from this [of blkAddr] this [of nblocks] have "p < 2 ^ 44" "l < 2 ^ 44" by (simp_all add: p_def l_def)
    then show ?thesis using assms(6) by simp
  qed
  moreover obtain k where k: "io_fuel w = Suc (Suc (Suc k))"
    using assms(4) le_iff_add [of 3 "io_fuel w"] by (auto simp: dev_short_def numeral_3_eq_3)
  ultimately show ?thesis
    using ErofsIoPwrite_loop_short [of "vf_file (io_BDev w)" n "int l" "push_bit ?b (ucast blkAddr)" "length buf" buf k]
      assms(4-7)
    by (simp add: ErofsBlkWrite_def ErofsDevWrite_def ErofsPos_def ErofsIoPwrite_def dev_short_def store_dev_def
        pos len dev_data_def del: ErofsIoPwrite_loop.simps)
qed


end
