(* ===== verification/Superblock.thy ===== *)
theory Superblock
  imports Codec
begin

text \<open>
  The EROFS superblock: the in-memory and the on-disk struct of \<open>pkg/types/superblock.go\<close> with
  their conversions and checksum methods, and the two ways \<open>pkg/types/superblkinfo.go\<close> derives a
  superblock from a \<open>SuperBlkInfo\<close>.  Fixed-size arrays are byte lists; \<open>wf_superblock\<close> and
  \<open>wf_disk\<close> state their sizes.  The main facts are the round trips between the two structs and
  their bytes, and that the hand-written serialiser agrees with the struct serialiser.
\<close>

section \<open>The structs\<close>

record superblock =
  sb_Magic :: u32
  sb_Checksum :: u32
  sb_FeatureCompat :: u32
  sb_BlkSzBits :: u8
  sb_SbExtSlots :: u8
  sb_RootNid :: u16
  sb_Inos :: u64
  sb_BuildTime :: u64
  sb_BuildTimeNsec :: u32
  sb_Blocks :: u32
  sb_MetaBlkAddr :: u32
  sb_XattrBlkAddr :: u32
  sb_UUID :: bytes
  sb_VolumeName :: bytes
  sb_FeatureIncompat :: u32
  sb_CompressInfo :: u16
  sb_ExtraDevices :: u16
  sb_DevtSlotOff :: u16
  sb_DirBlkBits :: u8
  sb_XattrPrefixCount :: u8
  sb_XattrPrefixStart :: u32
  sb_PackedNid :: u64
  sb_XattrFilterReserved :: u8
  sb_Reserved2 :: bytes

record superblock_disk =
  d_Magic :: bytes
  d_Checksum :: bytes
  d_FeatureCompat :: bytes
  d_BlkSzBits :: u8
  d_SbExtSlots :: u8
  d_RootNid :: bytes
  d_Inos :: bytes
  d_BuildTime :: bytes
  d_BuildTimeNsec :: bytes
  d_Blocks :: bytes
  d_MetaBlkAddr :: bytes
  d_XattrBlkAddr :: bytes
  d_UUID :: bytes
  d_VolumeName :: bytes
  d_FeatureIncompat :: bytes
  d_U1 :: bytes
  d_ExtraDevices :: bytes
  d_DevtSlotOff :: bytes
  d_DirBlkBits :: u8
  d_XattrPrefixCount :: u8
  d_XattrPrefixStart :: bytes
  d_PackedNid :: bytes
  d_XattrFilterReserved :: u8
  d_Reserved2 :: bytes

definition wf_superblock :: "superblock \<Rightarrow> bool" where
  "wf_superblock sb \<longleftrightarrow>
     length (sb_UUID sb) = 16 \<and> length (sb_VolumeName sb) = 16 \<and> length (sb_Reserved2 sb) = 23"

definition wf_disk :: "superblock_disk \<Rightarrow> bool" where
  "wf_disk d \<longleftrightarrow>
     length (d_Magic d) = 4 \<and> length (d_Checksum d) = 4 \<and> length (d_FeatureCompat d) = 4 \<and>
     length (d_RootNid d) = 2 \<and> length (d_Inos d) = 8 \<and> length (d_BuildTime d) = 8 \<and>
     length (d_BuildTimeNsec d) = 4 \<and> length (d_Blocks d) = 4 \<and> length (d_MetaBlkAddr d) = 4 \<and>
     length (d_XattrBlkAddr d) = 4 \<and> length (d_UUID d) = 16 \<and> length (d_VolumeName d) = 16 \<and>
     length (d_FeatureIncompat d) = 4 \<and> length (d_U1 d) = 2 \<and> length (d_ExtraDevices d) = 2 \<and>
     length (d_DevtSlotOff d) = 2 \<and> length (d_XattrPrefixStart d) = 4 \<and>
     length (d_PackedNid d) = 8 \<and> length (d_Reserved2 d) = 23"

text \<open>Go's \<open>copy\<close> into a whole array.\<close>

definition go_copy :: "bytes \<Rightarrow> bytes \<Rightarrow> bytes" where
  "go_copy dst src = take (length dst) src @ drop (length src) dst"

lemma go_copy_same [simp]: "length dst = length src \<Longrightarrow> go_copy dst src = src"
  by (simp add: go_copy_def)

lemma length_go_copy [simp, buf_simps]: "length (go_copy dst src) = length dst"
  by (simp add: go_copy_def min_def)

section \<open>Conversions\<close>

definition FromDisk :: "superblock_disk \<Rightarrow> superblock" where
  "FromDisk d = \<lparr>
     sb_Magic = Uint32 (d_Magic d),
     sb_Checksum = Uint32 (d_Checksum d),
     sb_FeatureCompat = Uint32 (d_FeatureCompat d),
     sb_BlkSzBits = d_BlkSzBits d,
     sb_SbExtSlots = d_SbExtSlots d,
     sb_RootNid = Uint16 (d_RootNid d),
     sb_Inos = Uint64 (d_Inos d),
     sb_BuildTime = Uint64 (d_BuildTime d),
     sb_BuildTimeNsec = Uint32 (d_BuildTimeNsec d),
     sb_Blocks = Uint32 (d_Blocks d),
     sb_MetaBlkAddr = Uint32 (d_MetaBlkAddr d),
     sb_XattrBlkAddr = Uint32 (d_XattrBlkAddr d),
     sb_UUID = go_copy (replicate 16 0) (d_UUID d),
     sb_VolumeName = go_copy (replicate 16 0) (d_VolumeName d),
     sb_FeatureIncompat = Uint32 (d_FeatureIncompat d),
     sb_CompressInfo = Uint16 (d_U1 d),
     sb_ExtraDevices = Uint16 (d_ExtraDevices d),
     sb_DevtSlotOff = Uint16 (d_DevtSlotOff d),
     sb_DirBlkBits = d_DirBlkBits d,
     sb_XattrPrefixCount = d_XattrPrefixCount d,
     sb_XattrPrefixStart = Uint32 (d_XattrPrefixStart d),
     sb_PackedNid = Uint64 (d_PackedNid d),
     sb_XattrFilterReserved = d_XattrFilterReserved d,
     sb_Reserved2 = go_copy (replicate 23 0) (d_Reserved2 d)\<rparr>"

definition ToDisk :: "superblock \<Rightarrow> superblock_disk" where
  "ToDisk sb = \<lparr>
     d_Magic = PutUint32 (sb_Magic sb),
     d_Checksum = PutUint32 (sb_Checksum sb),
     d_FeatureCompat = PutUint32 (sb_FeatureCompat sb),
     d_BlkSzBits = sb_BlkSzBits sb,
     d_SbExtSlots = sb_SbExtSlots sb,
     d_RootNid = PutUint16 (sb_RootNid sb),
     d_Inos = PutUint64 (sb_Inos sb),
     d_BuildTime = PutUint64 (sb_BuildTime sb),
     d_BuildTimeNsec = PutUint32 (sb_BuildTimeNsec sb),
     d_Blocks = PutUint32 (sb_Blocks sb),
     d_MetaBlkAddr = PutUint32 (sb_MetaBlkAddr sb),
     d_XattrBlkAddr = PutUint32 (sb_XattrBlkAddr sb),
     d_UUID = go_copy (replicate 16 0) (sb_UUID sb),
     d_VolumeName = go_copy (replicate 16 0) (sb_VolumeName sb),
     d_FeatureIncompat = PutUint32 (sb_FeatureIncompat sb),
     d_U1 = PutUint16 (sb_CompressInfo sb),
     d_ExtraDevices = PutUint16 (sb_ExtraDevices sb),
     d_DevtSlotOff = PutUint16 (sb_DevtSlotOff sb),
     d_DirBlkBits = sb_DirBlkBits sb,
     d_XattrPrefixCount = sb_XattrPrefixCount sb,
     d_XattrPrefixStart = PutUint32 (sb_XattrPrefixStart sb),
     d_PackedNid = PutUint64 (sb_PackedNid sb),
     d_XattrFilterReserved = sb_XattrFilterReserved sb,
     d_Reserved2 = go_copy (replicate 23 0) (sb_Reserved2 sb)\<rparr>"

text \<open>\<open>binary.Write(_, LittleEndian, _)\<close> of each struct: its fields in declaration order.\<close>

definition write_disk :: "superblock_disk \<Rightarrow> bytes" where
  "write_disk d =
     d_Magic d @ d_Checksum d @ d_FeatureCompat d @ [d_BlkSzBits d, d_SbExtSlots d] @
     d_RootNid d @ d_Inos d @ d_BuildTime d @ d_BuildTimeNsec d @ d_Blocks d @
     d_MetaBlkAddr d @ d_XattrBlkAddr d @ d_UUID d @ d_VolumeName d @ d_FeatureIncompat d @
     d_U1 d @ d_ExtraDevices d @ d_DevtSlotOff d @ [d_DirBlkBits d, d_XattrPrefixCount d] @
     d_XattrPrefixStart d @ d_PackedNid d @ [d_XattrFilterReserved d] @ d_Reserved2 d"

definition write_superblock :: "superblock \<Rightarrow> bytes" where
  "write_superblock sb =
     PutUint32 (sb_Magic sb) @ PutUint32 (sb_Checksum sb) @ PutUint32 (sb_FeatureCompat sb) @
     [sb_BlkSzBits sb, sb_SbExtSlots sb] @ PutUint16 (sb_RootNid sb) @ PutUint64 (sb_Inos sb) @
     PutUint64 (sb_BuildTime sb) @ PutUint32 (sb_BuildTimeNsec sb) @ PutUint32 (sb_Blocks sb) @
     PutUint32 (sb_MetaBlkAddr sb) @ PutUint32 (sb_XattrBlkAddr sb) @ sb_UUID sb @
     sb_VolumeName sb @ PutUint32 (sb_FeatureIncompat sb) @ PutUint16 (sb_CompressInfo sb) @
     PutUint16 (sb_ExtraDevices sb) @ PutUint16 (sb_DevtSlotOff sb) @
     [sb_DirBlkBits sb, sb_XattrPrefixCount sb] @ PutUint32 (sb_XattrPrefixStart sb) @
     PutUint64 (sb_PackedNid sb) @ [sb_XattrFilterReserved sb] @ sb_Reserved2 sb"

text \<open>What a reader sees: the 128 bytes cut into the fields of the on-disk struct.\<close>

definition read_disk :: "bytes \<Rightarrow> superblock_disk" where
  "read_disk bs = \<lparr>
     d_Magic = cut 0 4 bs, d_Checksum = cut 4 4 bs, d_FeatureCompat = cut 8 4 bs,
     d_BlkSzBits = bs ! 12, d_SbExtSlots = bs ! 13, d_RootNid = cut 14 2 bs,
     d_Inos = cut 16 8 bs, d_BuildTime = cut 24 8 bs, d_BuildTimeNsec = cut 32 4 bs,
     d_Blocks = cut 36 4 bs, d_MetaBlkAddr = cut 40 4 bs, d_XattrBlkAddr = cut 44 4 bs,
     d_UUID = cut 48 16 bs, d_VolumeName = cut 64 16 bs, d_FeatureIncompat = cut 80 4 bs,
     d_U1 = cut 84 2 bs, d_ExtraDevices = cut 86 2 bs, d_DevtSlotOff = cut 88 2 bs,
     d_DirBlkBits = bs ! 90, d_XattrPrefixCount = bs ! 91, d_XattrPrefixStart = cut 92 4 bs,
     d_PackedNid = cut 96 8 bs, d_XattrFilterReserved = bs ! 104, d_Reserved2 = cut 105 23 bs\<rparr>"

section \<open>Flags and checksum methods\<close>

definition SetFeatureCompat :: "superblock \<Rightarrow> u32 \<Rightarrow> superblock" where
  "SetFeatureCompat sb f = sb\<lparr>sb_FeatureCompat := sb_FeatureCompat sb OR f\<rparr>"
definition ClearFeatureCompat :: "superblock \<Rightarrow> u32 \<Rightarrow> superblock" where
  "ClearFeatureCompat sb f = sb\<lparr>sb_FeatureCompat := sb_FeatureCompat sb AND NOT f\<rparr>"
definition HasFeatureCompat :: "superblock \<Rightarrow> u32 \<Rightarrow> bool" where
  "HasFeatureCompat sb f \<longleftrightarrow> sb_FeatureCompat sb AND f \<noteq> 0"
definition SetFeatureIncompat :: "superblock \<Rightarrow> u32 \<Rightarrow> superblock" where
  "SetFeatureIncompat sb f = sb\<lparr>sb_FeatureIncompat := sb_FeatureIncompat sb OR f\<rparr>"
definition ClearFeatureIncompat :: "superblock \<Rightarrow> u32 \<Rightarrow> superblock" where
  "ClearFeatureIncompat sb f = sb\<lparr>sb_FeatureIncompat := sb_FeatureIncompat sb AND NOT f\<rparr>"
definition HasFeatureIncompat :: "superblock \<Rightarrow> u32 \<Rightarrow> bool" where
  "HasFeatureIncompat sb f \<longleftrightarrow> sb_FeatureIncompat sb AND f \<noteq> 0"

definition CalculateChecksum :: "superblock \<Rightarrow> u32" where
  "CalculateChecksum sb = ChecksumIEEE (write_superblock (sb\<lparr>sb_Checksum := 0\<rparr>))"

definition SetChecksum :: "superblock \<Rightarrow> superblock" where
  "SetChecksum sb = sb\<lparr>sb_Checksum := CalculateChecksum sb\<rparr>"

definition ValidateChecksum :: "superblock \<Rightarrow> bool" where
  "ValidateChecksum sb \<longleftrightarrow> sb_Checksum sb = CalculateChecksum sb"

section \<open>From the superblock information\<close>

definition SuperBlockFromInfo :: "sbinfo \<Rightarrow> superblock" where
  "SuperBlockFromInfo info =
     (let sb = \<lparr>
        sb_Magic = EROFS_SUPER_MAGIC_V1,
        sb_Checksum = 0,
        sb_FeatureCompat = si_FeatureCompat info,
        sb_BlkSzBits = si_BlkSzBits info,
        sb_SbExtSlots = 0,
        sb_RootNid = ucast (si_RootNid info),
        sb_Inos = si_Inos info,
        sb_BuildTime = si_BuildTime info,
        sb_BuildTimeNsec = si_BuildTimeNsec info,
        sb_Blocks = ucast (TotalBlocks info),
        sb_MetaBlkAddr = si_MetaBlkAddr info,
        sb_XattrBlkAddr = si_XattrBlkAddr info,
        sb_UUID = replicate 16 0,
        sb_VolumeName = replicate 16 0,
        sb_FeatureIncompat = si_FeatureIncompat info,
        sb_CompressInfo = AvailableComprAlgs info,
        sb_ExtraDevices = si_ExtraDevices info,
        sb_DevtSlotOff = 0,
        sb_DirBlkBits = si_BlkSzBits info,
        sb_XattrPrefixCount = si_XattrPrefixCount info,
        sb_XattrPrefixStart = si_XattrPrefixStart info,
        sb_PackedNid = si_PackedNid info,
        sb_XattrFilterReserved = 0,
        sb_Reserved2 = replicate 23 0\<rparr>
      in if si_FeatureCompat info AND EROFS_FEATURE_COMPAT_SB_CHKSUM \<noteq> 0
         then SetChecksum sb else sb)"

text \<open>The struct \<open>WriteSuperblock\<close> (the method) fills in before serialising it by hand.\<close>

definition method_superblock :: "sbinfo \<Rightarrow> superblock" where
  "method_superblock sbi = \<lparr>
     sb_Magic = EROFS_SUPER_MAGIC_V1,
     sb_Checksum = 0,
     sb_FeatureCompat = si_FeatureCompat sbi AND NOT EROFS_FEATURE_COMPAT_SB_CHKSUM,
     sb_BlkSzBits = si_BlkSzBits sbi,
     sb_SbExtSlots = 0,
     sb_RootNid = ucast (si_RootNid sbi),
     sb_Inos = si_Inos sbi,
     sb_BuildTime = si_BuildTime sbi,
     sb_BuildTimeNsec = si_BuildTimeNsec sbi,
     sb_Blocks = (let b = ucast (TotalBlocks sbi) in if b = 0 then 2 else b),
     sb_MetaBlkAddr = si_MetaBlkAddr sbi,
     sb_XattrBlkAddr = si_XattrBlkAddr sbi,
     sb_UUID = go_copy (replicate 16 0) (si_UUID sbi),
     sb_VolumeName = go_copy (replicate 16 0) (si_VolumeName sbi),
     sb_FeatureIncompat = si_FeatureIncompat sbi,
     sb_CompressInfo =
       (if HasFeature sbi ''compr_cfgs'' then AvailableComprAlgs sbi else Lz4_MaxDistance sbi),
     sb_ExtraDevices = si_ExtraDevices sbi,
     sb_DevtSlotOff = si_DevtSlotOff sbi,
     sb_DirBlkBits = si_BlkSzBits sbi,
     sb_XattrPrefixCount = si_XattrPrefixCount sbi,
     sb_XattrPrefixStart = si_XattrPrefixStart sbi,
     sb_PackedNid = si_PackedNid sbi,
     sb_XattrFilterReserved = 0,
     sb_Reserved2 = replicate 23 0\<rparr>"

text \<open>\<open>buf[i] = b\<close>, a run of them, and \<open>copy(buf[i:j], src)\<close>.\<close>

definition poke :: "nat \<Rightarrow> byte \<Rightarrow> bytes \<Rightarrow> bytes go" where
  "poke i b buf = (if i < length buf then Ret (buf[i := b]) else Panic IndexRange)"

primrec pokes :: "nat \<Rightarrow> bytes \<Rightarrow> bytes \<Rightarrow> bytes go" where
  "pokes i [] buf = Ret buf"
| "pokes i (b # bs) buf = gbind (poke i b buf) (\<lambda>buf1. pokes (Suc i) bs buf1)"

definition copy_at :: "nat \<Rightarrow> nat \<Rightarrow> bytes \<Rightarrow> bytes \<Rightarrow> bytes go" where
  "copy_at i j src buf =
     (if i \<le> j \<and> j \<le> length buf
      then Ret (splice buf i (take (j - i) src)) else Panic SliceBounds)"

text \<open>The bytes \<open>byte(v), byte(v >> 8), \<dots>\<close> the method stores one at a time.\<close>

definition bytes16 :: "u16 \<Rightarrow> bytes" where
  "bytes16 v = [ucast v, ucast (drop_bit 8 v)]"
definition bytes32 :: "u32 \<Rightarrow> bytes" where
  "bytes32 v = [ucast v, ucast (drop_bit 8 v), ucast (drop_bit 16 v), ucast (drop_bit 24 v)]"
definition bytes64 :: "u64 \<Rightarrow> bytes" where
  "bytes64 v =
     [ucast v, ucast (drop_bit 8 v), ucast (drop_bit 16 v), ucast (drop_bit 24 v),
      ucast (drop_bit 32 v), ucast (drop_bit 40 v), ucast (drop_bit 48 v), ucast (drop_bit 56 v)]"

text \<open>The byte stores of the method, from the magic number to the reserved tail.\<close>

definition store_superblock :: "nat \<Rightarrow> superblock \<Rightarrow> bytes \<Rightarrow> bytes go" where
  "store_superblock off sb buf =
      gbind (pokes off (bytes32 (sb_Magic sb)) buf) (\<lambda>b.
      gbind (pokes (off + 4) [0, 0, 0, 0] b) (\<lambda>b.
      gbind (pokes (off + 8) (bytes32 (sb_FeatureCompat sb)) b) (\<lambda>b.
      gbind (poke (off + 12) (sb_BlkSzBits sb) b) (\<lambda>b.
      gbind (poke (off + 13) (sb_SbExtSlots sb) b) (\<lambda>b.
      gbind (pokes (off + 14) (bytes16 (sb_RootNid sb)) b) (\<lambda>b.
      gbind (pokes (off + 16) (bytes64 (sb_Inos sb)) b) (\<lambda>b.
      gbind (pokes (off + 24) (bytes64 (sb_BuildTime sb)) b) (\<lambda>b.
      gbind (pokes (off + 32) (bytes32 (sb_BuildTimeNsec sb)) b) (\<lambda>b.
      gbind (pokes (off + 36) (bytes32 (sb_Blocks sb)) b) (\<lambda>b.
      gbind (pokes (off + 40) (bytes32 (sb_MetaBlkAddr sb)) b) (\<lambda>b.
      gbind (pokes (off + 44) (bytes32 (sb_XattrBlkAddr sb)) b) (\<lambda>b.
      gbind (copy_at (off + 48) (off + 64) (sb_UUID sb) b) (\<lambda>b.
      gbind (copy_at (off + 64) (off + 80) (sb_VolumeName sb) b) (\<lambda>b.
      gbind (pokes (off + 80) (bytes32 (sb_FeatureIncompat sb)) b) (\<lambda>b.
      gbind (pokes (off + 84) (bytes16 (sb_CompressInfo sb)) b) (\<lambda>b.
      gbind (pokes (off + 86) (bytes16 (sb_ExtraDevices sb)) b) (\<lambda>b.
      gbind (pokes (off + 88) (bytes16 (sb_DevtSlotOff sb)) b) (\<lambda>b.
      gbind (poke (off + 90) (sb_DirBlkBits sb) b) (\<lambda>b.
      gbind (poke (off + 91) (sb_XattrPrefixCount sb) b) (\<lambda>b.
      gbind (pokes (off + 92) (bytes32 (sb_XattrPrefixStart sb)) b) (\<lambda>b.
      gbind (pokes (off + 96) (bytes64 (sb_PackedNid sb)) b) (\<lambda>b.
      gbind (poke (off + 104) (sb_XattrFilterReserved sb) b) (\<lambda>b.
      pokes (off + 105) (replicate 23 0) b)))))))))))))))))))))))"

definition WriteSuperblock :: "sbinfo \<Rightarrow> bytes go" where
  "WriteSuperblock sbi =
     (let size = sint (ErofsBlockSize sbi);
          sb = method_superblock sbi
      in gbind (gguard (0 \<le> size) SliceBounds) (\<lambda>_.
         store_superblock (unat EROFS_SUPER_OFFSET) sb (replicate (nat size) 0)))"

section \<open>Round trips\<close>

lemma wf_method_superblock [simp]: "wf_superblock (method_superblock sbi)"
  by (simp add: wf_superblock_def method_superblock_def)

lemma wf_ToDisk [simp]: "wf_disk (ToDisk sb)"
  by (simp add: wf_disk_def ToDisk_def)

lemma FromDisk_ToDisk: "wf_superblock sb \<Longrightarrow> FromDisk (ToDisk sb) = sb"
  by (simp add: wf_superblock_def FromDisk_def ToDisk_def le16.dec_enc_exact le32.dec_enc_exact
      le64.dec_enc_exact)

lemma ToDisk_FromDisk: "wf_disk d \<Longrightarrow> ToDisk (FromDisk d) = d"
  by (simp add: wf_disk_def FromDisk_def ToDisk_def le16.enc_dec le32.enc_dec le64.enc_dec)

lemma write_superblock_disk: "wf_superblock sb \<Longrightarrow> write_disk (ToDisk sb) = write_superblock sb"
  by (simp add: wf_superblock_def write_disk_def ToDisk_def write_superblock_def)

lemma length_write_disk: "wf_disk d \<Longrightarrow> length (write_disk d) = 128"
  by (simp add: wf_disk_def write_disk_def)

lemma length_write_superblock: "wf_superblock sb \<Longrightarrow> length (write_superblock sb) = 128"
  by (simp add: wf_superblock_def write_superblock_def)

lemma read_write_disk: "wf_disk d \<Longrightarrow> read_disk (write_disk d @ rest) = d"
  by (simp add: wf_disk_def read_disk_def write_disk_def cut_def nth_append)

text \<open>Cutting a list of length \<open>n\<close> at the field boundaries and gluing it back is the identity.\<close>

lemma cut_glue:
  assumes "j = i + m"
  shows "cut i m xs @ cut j n xs = cut i (m + n) xs"
    "cut i m xs @ cut j n xs @ rest = cut i (m + n) xs @ rest"
  using assms by (simp_all add: cut_def take_add add.commute)

lemma cut_single: "i < length xs \<Longrightarrow> [xs ! i] = cut i 1 xs"
  by (simp add: cut_def take_Suc_conv_app_nth hd_drop_conv_nth take_Suc)

lemma write_read_disk:
  assumes "length bs = 128"
  shows "write_disk (read_disk bs) = bs"
proof -
  have two: "[bs ! i, bs ! Suc i] = cut i 2 bs" if "Suc i < length bs" for i
    using that by (simp add: cut_def numeral_2_eq_2 take_Suc drop_Suc tl_drop hd_drop_conv_nth
        nth_drop flip: drop_Suc)
  have "write_disk (read_disk bs) = cut 0 128 bs"
    using assms two [of 12] two [of 90] cut_single [of 104 bs]
    unfolding write_disk_def read_disk_def
    by (simp add: cut_glue)
  then show ?thesis using assms by simp
qed

lemma wf_read_disk: "length bs = 128 \<Longrightarrow> wf_disk (read_disk bs)"
  by (simp add: wf_disk_def read_disk_def)

section \<open>The hand-written serialiser\<close>

lemma bytes_le:
  "bytes16 u = PutUint16 u" "bytes32 v = PutUint32 v" "bytes64 w = PutUint64 w"
  by (simp_all add: bytes16_def bytes32_def bytes64_def PutUint16_def PutUint32_def PutUint64_def
      le_bytes_def upt_rec numeral_eq_Suc)

lemma poke_splice: "i < length buf \<Longrightarrow> poke i b buf = Ret (splice buf i [b])"
  by (simp add: poke_def splice_def upd_conv_take_nth_drop)

lemma pokes_splice:
  "i + length bs \<le> length buf \<Longrightarrow> pokes i bs buf = Ret (splice buf i bs)"
proof (induction bs arbitrary: i buf)
  case (Cons b bs)
  have "pokes (Suc i) bs (splice buf i [b]) = Ret (splice (splice buf i [b]) (Suc i) bs)"
    using Cons.prems by (intro Cons.IH) simp
  also have "splice (splice buf i [b]) (Suc i) bs = splice buf i (b # bs)"
    using splice_append_cuts [of i "[b]" buf bs] Cons.prems by simp
  finally show ?case using Cons.prems by (simp add: poke_splice)
qed simp

lemma splice_extend:
  assumes "length acc = n" "i + n + length bs \<le> length z"
  shows "splice (splice z i acc) (i + n) bs = splice z i (acc @ bs)"
  using splice_append_cuts [of i acc z bs] assms by simp

lemma pokes_extend:
  assumes "length acc = n" "i + n + length bs \<le> length z"
  shows "pokes (i + n) bs (splice z i acc) = Ret (splice z i (acc @ bs))"
  using assms by (simp add: pokes_splice splice_extend)

lemma poke_extend:
  assumes "length acc = n" "i + n < length z"
  shows "poke (i + n) b (splice z i acc) = Ret (splice z i (acc @ [b]))"
  using assms by (simp add: poke_splice splice_extend)

lemma copy_extend:
  assumes "length acc = n" "j = i + n + length src" "j \<le> length z"
  shows "copy_at (i + n) j src (splice z i acc) = Ret (splice z i (acc @ src))"
  using assms by (simp add: copy_at_def splice_extend)

lemma store_superblock_struct:
  assumes len: "off + 128 \<le> length z" and sb: "wf_superblock sb"
    and zero: "sb_Checksum sb = 0" "sb_Reserved2 sb = replicate 23 0"
  shows "store_superblock off sb z = Ret (splice z off (write_superblock sb))"
proof -
  have start: "pokes off bs z = Ret (splice z off bs)" if "length bs = 4" for bs
    using that len by (simp add: pokes_splice)
  have zeros: "[0, 0, 0, 0] = PutUint32 (sb_Checksum sb)"
    by (simp add: zero bytes_le [symmetric] bytes32_def)
  show ?thesis
    unfolding store_superblock_def zeros
    using len sb
    by (simp add: bytes_le start pokes_extend poke_extend copy_extend write_superblock_def zero
        wf_superblock_def del: pokes.simps replicate.simps)
qed

lemma sint_ErofsBlockSize:
  assumes "unat (si_BlkSzBits sbi) < 63"
  shows "sint (ErofsBlockSize sbi) = 2 ^ unat (si_BlkSzBits sbi)"
proof -
  let ?b = "unat (si_BlkSzBits sbi)"
  have "(2::int) ^ ?b < 2 ^ 63" using assms by (intro power_strict_increasing) auto
  moreover have "uint (ErofsBlockSize sbi) = 2 ^ ?b"
    using assms unat_push_bit_1 [of ?b, where 'a = 64]
    by (simp add: ErofsBlockSize_def uint_nat del: push_bit_of_1)
  ultimately show ?thesis
    by (simp add: sint_uint signed_take_bit_int_eq_self_iff
        order_trans [of "- 9223372036854775808" 0 "2 ^ ?b :: int"])
qed

lemma WriteSuperblock_struct:
  assumes "10 < unat (si_BlkSzBits sbi)" "unat (si_BlkSzBits sbi) < 63"
  shows "WriteSuperblock sbi =
     Ret (splice (replicate (2 ^ unat (si_BlkSzBits sbi)) 0) 1024
            (write_superblock (method_superblock sbi)))"
proof -
  have "(2::nat) ^ 11 \<le> 2 ^ unat (si_BlkSzBits sbi)"
    using assms(1) by (intro power_increasing) auto
  moreover have "sb_Checksum (method_superblock sbi) = 0"
    "sb_Reserved2 (method_superblock sbi) = replicate 23 0"
    by (simp_all add: method_superblock_def)
  ultimately show ?thesis
    using store_superblock_struct [of 1024 "replicate (2 ^ unat (si_BlkSzBits sbi)) 0"
        "method_superblock sbi"]
    by (simp add: WriteSuperblock_def sint_ErofsBlockSize [OF assms(2)] nat_power_eq)
qed

text \<open>With blocks of at most 1024 bytes the superblock does not fit behind its own offset and
  the first store is out of range.\<close>

lemma WriteSuperblock_small:
  assumes b: "unat (si_BlkSzBits sbi) \<le> 10"
  shows "WriteSuperblock sbi = Panic IndexRange"
proof -
  have "(2::nat) ^ unat (si_BlkSzBits sbi) \<le> 2 ^ 10" using b by (intro power_increasing) auto
  moreover have "unat (si_BlkSzBits sbi) < 63" using b by simp
  ultimately show ?thesis
    by (simp add: WriteSuperblock_def sint_ErofsBlockSize store_superblock_def bytes32_def poke_def
        nat_power_eq)
qed

section \<open>Checksums of the struct methods\<close>

lemma ValidateChecksum_SetChecksum: "ValidateChecksum (SetChecksum sb)"
  by (simp add: ValidateChecksum_def SetChecksum_def CalculateChecksum_def)

text \<open>The bytes the checksum covers, with the checksum field itself read as zero.\<close>

definition checked_bytes :: "superblock \<Rightarrow> bytes" where
  "checked_bytes sb = write_superblock (sb\<lparr>sb_Checksum := 0\<rparr>)"

lemma CalculateChecksum_burst:
  assumes "checked_bytes sb = pre @ m @ post" "checked_bytes sb' = pre @ m' @ post"
    and "length m = length m'" "length m \<le> 4" "m \<noteq> m'"
  shows "CalculateChecksum sb \<noteq> CalculateChecksum sb'"
proof -
  have "bit (0xEDB88320 :: u32) 31" by simp
  from crc_burst [OF this assms(3-5), of "NOT 0" pre post] show ?thesis
    using assms(1,2)
    by (simp add: CalculateChecksum_def ChecksumIEEE_def checked_bytes_def)
qed

end
