(* ===== verification/SbWrite.thy ===== *)
theory SbWrite
  imports Superblock BufMgrFaults
begin

text \<open>
  Writing the superblock to the image: \<open>WriteSuperBlock\<close> of \<open>pkg/types/buffer.go\<close>,
  \<open>ErofsEnableSbChksum\<close> of \<open>pkg/types/superblkinfo.go\<close>, and the end of \<open>main\<close> in
  \<open>cmd/mkfs/main.go\<close> that runs them (flush, superblock, resize, checksum).
\<close>

section \<open>Definitions\<close>

text \<open>The struct \<open>WriteSuperBlock\<close> fills in: \<open>DirBlkBits\<close> stays 0 and the checksum flag is off.\<close>

definition buffer_superblock :: "sbinfo \<Rightarrow> u32 \<Rightarrow> superblock" where
  "buffer_superblock sbi blocks = \<lparr>
     sb_Magic = EROFS_SUPER_MAGIC_V1,
     sb_Checksum = 0,
     sb_FeatureCompat = si_FeatureCompat sbi AND NOT EROFS_FEATURE_COMPAT_SB_CHKSUM,
     sb_BlkSzBits = si_BlkSzBits sbi,
     sb_SbExtSlots = 0,
     sb_RootNid = ucast (si_RootNid sbi),
     sb_Inos = si_Inos sbi,
     sb_BuildTime = si_BuildTime sbi,
     sb_BuildTimeNsec = si_BuildTimeNsec sbi,
     sb_Blocks = blocks,
     sb_MetaBlkAddr = si_MetaBlkAddr sbi,
     sb_XattrBlkAddr = si_XattrBlkAddr sbi,
     sb_UUID = go_copy (replicate 16 0) (si_UUID sbi),
     sb_VolumeName = go_copy (replicate 16 0) (si_VolumeName sbi),
     sb_FeatureIncompat = si_FeatureIncompat sbi,
     sb_CompressInfo =
       (if ErofsSbHasComprCfgs sbi then AvailableComprAlgs sbi else Lz4_MaxDistance sbi),
     sb_ExtraDevices = si_ExtraDevices sbi,
     sb_DevtSlotOff = si_DevtSlotOff sbi,
     sb_DirBlkBits = 0,
     sb_XattrPrefixCount = si_XattrPrefixCount sbi,
     sb_XattrPrefixStart = si_XattrPrefixStart sbi,
     sb_PackedNid = si_PackedNid sbi,
     sb_XattrFilterReserved = 0,
     sb_Reserved2 = replicate 23 0\<rparr>"

text \<open>\<open>WriteSuperBlock\<close> returns its result and the value left in \<open>*blocks\<close>.\<close>

definition WriteSuperBlock ::
  "nat \<Rightarrow> sbinfo \<Rightarrow> nat option \<Rightarrow> bufmgr \<Rightarrow> io \<Rightarrow> ((int \<times> u32) \<times> bufmgr \<times> io) go" where
  "WriteSuperBlock fuel sbi sbBh s w =
     (let sbBlksize = Round_Up EROFS_SUPER_END (ErofsBlkSiz sbi) in
      gbind (MapBh fuel sbi True None s) (\<lambda>(blocks, s1).
      let sb = buffer_superblock sbi blocks;
          buf = replicate (unat sbBlksize) 0;
          diskSbBytes = write_disk (ToDisk sb)
      in gbind (gguard (unat EROFS_SUPER_OFFSET \<le> length buf) SliceBounds) (\<lambda>_.
         let buf1 = splice buf (unat EROFS_SUPER_OFFSET)
                      (take (length buf - unat EROFS_SUPER_OFFSET) diskSbBytes)
         in gbind (case sbBh of None \<Rightarrow> Ret 0 | Some bh \<Rightarrow> BhTell sbi bh False s1) (\<lambda>writePos.
            gbind (ErofsDevWrite w buf1 (length buf1) writePos (uint EROFS_SUPER_END)) (\<lambda>(ret, w1).
            gbind (case sbBh of None \<Rightarrow> Ret s1 | Some bh \<Rightarrow> BDrop sbi bh False s1) (\<lambda>s2.
            Ret ((ret, blocks), s2, w1)))))))"

text \<open>
  \<open>ErofsEnableSbChksum\<close> overlays a \<open>SuperBlock\<close> on the block it read: its magic number, feature
  word and checksum are the native words at offsets 1024, 1032 and 1028 of the buffer.  The
  checksummed range must lie inside the buffer; beyond it the overlay reads foreign memory.
  The result carries \<open>*crc\<close> when it was set.
\<close>

definition ErofsEnableSbChksum ::
  "endian \<Rightarrow> sbinfo \<Rightarrow> io \<Rightarrow> ((int \<times> u32 option) \<times> io) go" where
  "ErofsEnableSbChksum e sbi w =
     gbind (ErofsBlkRead sbi w 0 (replicate (unat EROFS_MAX_BLOCK_SIZE) 0) 0
              (ucast (ErofsBlknr sbi (ucast EROFS_SUPER_END) + 1))) (\<lambda>(ret, buf, w1).
     if ret \<noteq> 0 then Ret ((ret, None), w1)
     else if Le32ToCpu e (native_load32 e (cut 1024 4 buf)) \<noteq> EROFS_SUPER_MAGIC_V1
     then Ret ((- EFAULT, None), w1)
     else
       let feat = CpuToLe32 e (Le32ToCpu e (native_load32 e (cut 1032 4 buf))
                                OR EROFS_FEATURE_COMPAT_SB_CHKSUM);
           buf1 = splice buf 1032 (native_store32 e feat);
           len = (if ErofsBlkSiz sbi > EROFS_SUPER_OFFSET
                  then ErofsBlkSiz sbi - EROFS_SUPER_OFFSET else ErofsBlkSiz sbi)
       in gbind (gguard (1024 + unat len \<le> length buf1) WildPointer) (\<lambda>_.
          let crc = Crc32c (NOT 0) (cut 1024 (unat len) buf1);
              buf2 = splice buf1 1028 (native_store32 e (CpuToLe32 e crc))
          in gbind (ErofsBlkWrite sbi w1 buf2 (length buf2) 0 1) (\<lambda>(ret2, w2).
             Ret ((ret2, Some crc), w2))))"

text \<open>The end of \<open>main\<close>, from the flush on.  The answer is \<open>err\<close> and the checksum when one was
  computed.\<close>

definition finish_image ::
  "nat \<Rightarrow> endian \<Rightarrow> sbinfo \<Rightarrow> nat option \<Rightarrow> bufmgr \<Rightarrow> io \<Rightarrow> ((int \<times> u32 option) \<times> bufmgr \<times> io) go" where
  "finish_image fuel e sbi sbBh s w =
     gbind (ErofsBflush fuel sbi None s w) (\<lambda>(err, s1, w1).
     if err \<noteq> 0 then Ret ((err, None), s1, w1)
     else gbind (WriteSuperBlock fuel sbi sbBh s1 w1) (\<lambda>((err, nblocks), s2, w2).
       if err \<noteq> 0 then Ret ((err, None), s2, w2)
       else gbind (ErofsDevResize sbi w2 nblocks) (\<lambda>(err, w3).
         if err = 0 \<and> ErofsSbHasSbChksum sbi
         then gbind (ErofsEnableSbChksum e sbi w3) (\<lambda>(r, w4). Ret (r, s2, w4))
         else Ret ((err, None), s2, w3))))"

section \<open>The superblock write\<close>

lemma wf_buffer_superblock [simp]: "wf_superblock (buffer_superblock sbi n)"
  by (simp add: wf_superblock_def buffer_superblock_def)

lemma buffer_superblock_Magic [simp]: "sb_Magic (buffer_superblock sbi n) = EROFS_SUPER_MAGIC_V1"
  by (simp add: buffer_superblock_def)

text \<open>What \<open>WriteSuperBlock\<close> puts on the device: a blank boot area and the superblock.\<close>

definition sb_image :: "superblock \<Rightarrow> bytes" where
  "sb_image sb = replicate 1024 0 @ write_superblock sb"

lemma length_sb_image: "wf_superblock sb \<Longrightarrow> length (sb_image sb) = 1152"
  by (simp add: sb_image_def length_write_superblock)

lemma Round_Up_super_end:
  assumes "small_blocks sbi"
  shows "1152 \<le> unat (Round_Up EROFS_SUPER_END (ErofsBlkSiz sbi))"
proof -
  let ?b = "unat (si_BlkSzBits sbi)"
  have b: "?b < 32" using assms by (simp add: small_blocks_def)
  have B: "(2::nat) ^ ?b \<le> 4096" by (rule block_size_bounds(2) [OF assms])
  have "unat (Round_Up 1152 (ErofsBlkSiz sbi)) = ((unat (1152 :: u32) + (2 ^ ?b - 1)) div 2 ^ ?b) * 2 ^ ?b"
    unfolding ErofsBlkSiz_def using B by (intro unat_Round_Up [OF b]) simp
  with le_round_up_nat [of "2 ^ ?b" 1152] show ?thesis by simp
qed

lemma WriteSuperBlock_reserved:
  assumes r: "sb_reserved sbi s" and w: "dev_ready w" and fuel: "0 < fuel"
  shows "\<exists>s' w'. WriteSuperBlock fuel sbi (Some 0) s w = Ret ((0, TailBlkAddr s), s', w')
     \<and> dev_ready w' \<and> dev_data w' = write_at (dev_data w) 0 (sb_image (buffer_superblock sbi (TailBlkAddr s)))
     \<and> dev_isblk w' = dev_isblk w \<and> length (dev_script w') \<le> length (dev_script w)"
proof -
  let ?sb = "buffer_superblock sbi (TailBlkAddr s)"
  let ?n = "unat (Round_Up EROFS_SUPER_END (ErofsBlkSiz sbi))"
  have sm: "small_blocks sbi" using r by (simp add: sb_reserved_def bm_inv_def)
  have n: "1152 \<le> ?n" by (rule Round_Up_super_end [OF sm])
  have wb: "length (write_superblock ?sb) = 128" "write_disk (ToDisk ?sb) = write_superblock ?sb"
    by (simp_all add: length_write_superblock write_superblock_disk)
  let ?buf = "splice (replicate ?n 0) 1024 (write_superblock ?sb)"
  have buf: "length ?buf = ?n" "take 1152 ?buf = sb_image ?sb"
    using n wb(1) by (simp_all add: splice_def sb_image_def min_def)
  obtain s' where s': "BDrop sbi 0 False s = Ret s'" using BDrop_sb_reserved [OF r] by blast
  obtain w' where w': "ErofsDevWrite w ?buf ?n 0 1152 = Ret (0, w')" "dev_ready w'"
      "dev_data w' = write_at (dev_data w) 0 (sb_image ?sb)" "dev_isblk w' = dev_isblk w"
      "length (dev_script w') \<le> length (dev_script w)"
    using ErofsDevWrite_ready [OF w, of 0 1152 ?n ?buf] buf n by auto
  have "WriteSuperBlock fuel sbi (Some 0) s w = Ret ((0, TailBlkAddr s), s', w')"
    using n wb w'(1) s' buf
    by (simp add: WriteSuperBlock_def Let_def MapBh_sb_reserved [OF r fuel] BhTell_sb_reserved [OF r])
  with w' show ?thesis by blast
qed

section \<open>Sealing the superblock with a checksum\<close>

lemma splice_feature_compat:
  "splice (write_superblock sb) 8 (PutUint32 v) = write_superblock (sb\<lparr>sb_FeatureCompat := v\<rparr>)"
  by (simp add: write_superblock_def splice_def)

lemma splice_checksum:
  "splice (write_superblock sb) 4 (PutUint32 v) = write_superblock (sb\<lparr>sb_Checksum := v\<rparr>)"
  by (simp add: write_superblock_def splice_def)

lemma cut_magic: "cut 0 4 (write_superblock sb @ rest) = PutUint32 (sb_Magic sb)"
  by (simp add: write_superblock_def cut_def)

lemma cut_feature_compat: "cut 8 4 (write_superblock sb @ rest) = PutUint32 (sb_FeatureCompat sb)"
  by (simp add: write_superblock_def cut_def)

definition sealed :: "superblock \<Rightarrow> bytes \<Rightarrow> superblock" where
  "sealed sb rest =
     (let sb1 = SetFeatureCompat sb EROFS_FEATURE_COMPAT_SB_CHKSUM
      in sb1\<lparr>sb_Checksum := Crc32c (NOT 0) (write_superblock sb1 @ rest)\<rparr>)"

lemma wf_sealed [simp]: "wf_superblock (sealed sb rest) \<longleftrightarrow> wf_superblock sb"
  by (simp add: wf_superblock_def sealed_def SetFeatureCompat_def Let_def)

text \<open>A block of 2048 or 4096 bytes holds the boot area, the superblock and \<open>rest\<close>.\<close>

lemma seal_buffer:
  fixes pre rest junk :: bytes
  assumes "length pre = 1024" "wf_superblock sb"
  defines "buf \<equiv> pre @ write_superblock sb @ rest @ junk"
  shows "cut 1024 4 buf = PutUint32 (sb_Magic sb)"
    and "cut 1032 4 buf = PutUint32 (sb_FeatureCompat sb)"
    and "splice buf 1032 (PutUint32 v) = pre @ write_superblock (sb\<lparr>sb_FeatureCompat := v\<rparr>) @ rest @ junk"
    and "splice buf 1028 (PutUint32 v) = pre @ write_superblock (sb\<lparr>sb_Checksum := v\<rparr>) @ rest @ junk"
    and "cut 1024 (128 + length rest) buf = write_superblock sb @ rest"
proof -
  have l: "length (write_superblock sb) = 128" by (rule length_write_superblock [OF assms(2)])
  have c: "cut (1024 + i) n buf = cut i n (write_superblock sb @ rest @ junk)" for i n
    using cut_append_right [of pre i n] assms(1) by (simp add: buf_def)
  have sp: "splice buf (1024 + i) zs = pre @ splice (write_superblock sb) i zs @ rest @ junk"
    if "i + length zs \<le> 128" for i and zs :: bytes
    using splice_append_right [of pre "write_superblock sb @ rest @ junk" i zs] assms(1) l that
      splice_append_left [of i zs "write_superblock sb" "rest @ junk"]
    by (simp add: buf_def)
  show "cut 1024 4 buf = PutUint32 (sb_Magic sb)" using c [of 0 4] by (simp add: cut_magic)
  show "cut 1032 4 buf = PutUint32 (sb_FeatureCompat sb)" using c [of 8 4] by (simp add: cut_feature_compat)
  show "splice buf 1032 (PutUint32 v) = pre @ write_superblock (sb\<lparr>sb_FeatureCompat := v\<rparr>) @ rest @ junk"
    using sp [of 8 "PutUint32 v"] by (simp add: splice_feature_compat)
  show "splice buf 1028 (PutUint32 v) = pre @ write_superblock (sb\<lparr>sb_Checksum := v\<rparr>) @ rest @ junk"
    using sp [of 4 "PutUint32 v"] by (simp add: splice_checksum)
  show "cut 1024 (128 + length rest) buf = write_superblock sb @ rest"
    using c [of 0 "128 + length rest"] l by (simp add: cut_def)
qed

lemma block_layout:
  assumes "length bs = 4096" "take n bs = padded data 0 n" "1152 \<le> n" "n \<le> 4096"
    and "padded data 1024 128 = write_superblock sb"
  shows "bs = padded data 0 1024 @ write_superblock sb @ padded data 1152 (n - 1152) @ drop n bs"
proof -
  have sp: "padded data p (i + j) = padded data p i @ padded data (p + i) j" for p i j
    unfolding padded_def map_append [symmetric] using upt_add_eq_append [of p "p + i" j] by (simp add: add.assoc)
  have "padded data 0 n = padded data 0 1024 @ padded data 1024 128 @ padded data 1152 (n - 1152)"
    using sp [of 0 1024 "n - 1024"] sp [of 1024 128 "n - 1152"] assms(3) by simp
  with assms(2,5) append_take_drop_id [of n bs] show ?thesis by (metis append.assoc)
qed

definition sb_in_block0 :: "sbinfo \<Rightarrow> bool" where
  "sb_in_block0 sbi \<longleftrightarrow> si_BlkSzBits sbi = 11 \<or> si_BlkSzBits sbi = 12"

lemma sb_in_block0_facts:
  assumes "sb_in_block0 sbi"
  shows "small_blocks sbi" "ErofsBlknr sbi 1152 = 0" "ErofsPos sbi 0 = 0" "sb_blocks sbi = 1"
    and "ErofsBlkSiz sbi > 1024" "unat (ErofsBlkSiz sbi) = 2 ^ unat (si_BlkSzBits sbi)"
    and "sint (ErofsPos sbi 1) = int (2 ^ unat (si_BlkSzBits sbi))"
    and "1152 \<le> (2::nat) ^ unat (si_BlkSzBits sbi)" "(2::nat) ^ unat (si_BlkSzBits sbi) \<le> 4096"
    and "unat (ErofsBlkSiz sbi - 1024) = 2 ^ unat (si_BlkSzBits sbi) - 1024"
  using assms
  by (auto simp: sb_in_block0_def small_blocks_def ErofsBlknr_def ErofsPos_def ErofsBlkSiz_def sb_blocks_def
      push_bit_eq_mult drop_bit_eq_div)

lemma ErofsEnableSbChksum_sealed:
  assumes w: "dev_ready w" and b: "sb_in_block0 sbi"
    and wf: "wf_superblock sb" and magic: "sb_Magic sb = EROFS_SUPER_MAGIC_V1"
    and img: "padded (dev_data w) 1024 128 = write_superblock sb"
  defines "B \<equiv> 2 ^ unat (si_BlkSzBits sbi)"
  defines "rest \<equiv> padded (dev_data w) 1152 (B - 1152)"
  shows "\<exists>w'. ErofsEnableSbChksum e sbi w = Ret ((0, Some (sb_Checksum (sealed sb rest))), w')
     \<and> dev_ready w' \<and> dev_isblk w' = dev_isblk w
     \<and> dev_data w' = write_at (dev_data w) 0 (padded (dev_data w) 0 1024 @ write_superblock (sealed sb rest) @ rest)"
proof -
  note f = sb_in_block0_facts [OF b, folded B_def]
  let ?pre = "padded (dev_data w) 0 1024"
  let ?buf0 = "replicate 4096 0 :: bytes"
  obtain buf w1 where rd: "ErofsDevRead sbi w 0 ?buf0 0 (int B) = Ret ((0, None), buf, w1)"
      and buf: "length buf = 4096" "take B buf = padded (dev_data w) 0 B"
      and w1: "dev_ready w1" "dev_data w1 = dev_data w" "dev_isblk w1 = dev_isblk w"
    using ErofsDevRead_prefix [OF w, of 0 ?buf0 B sbi] f(9) by auto
  let ?junk = "drop B buf"
  have lay: "buf = ?pre @ write_superblock sb @ rest @ ?junk"
    unfolding rest_def by (rule block_layout [OF buf f(8,9) img])
  have lr: "length rest = B - 1152" by (simp add: rest_def)
  let ?sb1 = "SetFeatureCompat sb EROFS_FEATURE_COMPAT_SB_CHKSUM"
  let ?sb2 = "sealed sb rest"
  have wf1: "wf_superblock ?sb1" using wf by (simp add: SetFeatureCompat_def wf_superblock_def)
  note s0 = seal_buffer [of ?pre sb rest ?junk, OF _ wf, folded lay, simplified]
  note s1 = seal_buffer [of ?pre ?sb1 rest ?junk, OF _ wf1, simplified]
  let ?buf1 = "?pre @ write_superblock ?sb1 @ rest @ ?junk"
  let ?buf2 = "?pre @ write_superblock ?sb2 @ rest @ ?junk"
  have b1: "splice buf 1032 (PutUint32 (sb_FeatureCompat sb OR EROFS_FEATURE_COMPAT_SB_CHKSUM)) = ?buf1"
    by (simp add: s0(3) SetFeatureCompat_def)
  have cr: "Crc32c (NOT 0) (cut 1024 (B - 1024) ?buf1) = sb_Checksum ?sb2"
    using s1(5) lr f(8) by (simp add: sealed_def Let_def)
  have b2: "splice ?buf1 1028 (PutUint32 (sb_Checksum ?sb2)) = ?buf2"
    using s1(4) [of "sb_Checksum ?sb2"] by (simp add: sealed_def Let_def)
  have l2: "length ?buf2 = 4096" "take B ?buf2 = ?pre @ write_superblock ?sb2 @ rest" "length ?buf1 = 4096"
    using buf(1) f(8,9) lr wf wf1 by (simp_all add: length_write_superblock)
  obtain w2 where w2: "ErofsDevWrite w1 ?buf2 4096 0 (int B) = Ret (0, w2)" "dev_ready w2"
      "dev_data w2 = write_at (dev_data w1) 0 (?pre @ write_superblock ?sb2 @ rest)" "dev_isblk w2 = dev_isblk w1"
    using ErofsDevWrite_ready [OF w1(1), of 0 B 4096 ?buf2] l2(1,2) f(9) by auto
  have "ErofsEnableSbChksum e sbi w = Ret ((0, Some (sb_Checksum ?sb2)), w2)"
    unfolding ErofsEnableSbChksum_def ErofsBlkRead_def ErofsBlkWrite_def
    using rd w2(1) f(2,3,5,7,8,9,10) s0(1,2) magic b1 cr b2 l2
    by (simp add: Let_def Le32ToCpu_native_load native_store_CpuToLe32 le32.dec_enc_exact
        del: append_assoc EROFS_SUPER_MAGIC_V1_def)
  with w2 w1 show ?thesis by auto
qed

text \<open>
  With blocks of at most 1024 bytes the superblock lies behind block 0, the only one that is written
  back: the checksum and the flag are computed, reported, and lost.
\<close>

lemma small_block_facts:
  assumes "unat (si_BlkSzBits sbi) = b" "b \<le> 10"
  shows "\<exists>n. sint (ErofsPos sbi (ucast (ucast (ErofsBlknr sbi 1152 + 1) :: u32))) = int n \<and> 1152 \<le> n \<and> n \<le> 4096"
    and "\<not> ErofsBlkSiz sbi > 1024" "unat (ErofsBlkSiz sbi) = 2 ^ b" "sint (ErofsPos sbi 1) = int (2 ^ b)"
    and "(2::nat) ^ b \<le> 1024"
proof -
  have "b = 0 \<or> b = 1 \<or> b = 2 \<or> b = 3 \<or> b = 4 \<or> b = 5 \<or> b = 6 \<or> b = 7 \<or> b = 8 \<or> b = 9 \<or> b = 10"
    using assms(2) by presburger
  then show "\<exists>n. sint (ErofsPos sbi (ucast (ucast (ErofsBlknr sbi 1152 + 1) :: u32))) = int n \<and> 1152 \<le> n \<and> n \<le> 4096"
    and "\<not> ErofsBlkSiz sbi > 1024" and "unat (ErofsBlkSiz sbi) = 2 ^ b" and "sint (ErofsPos sbi 1) = int (2 ^ b)"
    and "(2::nat) ^ b \<le> 1024"
    using assms(1)
    by (auto simp: ErofsBlknr_def ErofsPos_def ErofsBlkSiz_def push_bit_eq_mult drop_bit_eq_div
        intro: exI [of _ "nat (sint _)"])
qed

lemma ErofsEnableSbChksum_lost:
  assumes w: "dev_ready w" and b: "unat (si_BlkSzBits sbi) \<le> 10"
    and wf: "wf_superblock sb" and magic: "sb_Magic sb = EROFS_SUPER_MAGIC_V1"
    and img: "padded (dev_data w) 1024 128 = write_superblock sb"
  shows "\<exists>w' crc. ErofsEnableSbChksum e sbi w = Ret ((0, Some crc), w')
     \<and> dev_ready w' \<and> byte_at (dev_data w') = byte_at (dev_data w)"
proof -
  let ?B = "2 ^ unat (si_BlkSzBits sbi) :: nat"
  let ?buf0 = "replicate 4096 0 :: bytes"
  note f = small_block_facts [OF refl b]
  obtain n where n: "sint (ErofsPos sbi (ucast (ucast (ErofsBlknr sbi 1152 + 1) :: u32))) = int n"
      "1152 \<le> n" "n \<le> 4096" using f(1) by blast
  obtain buf w1 where rd: "ErofsDevRead sbi w 0 ?buf0 0 (int n) = Ret ((0, None), buf, w1)"
      and buf: "length buf = 4096" "take n buf = padded (dev_data w) 0 n"
      and w1: "dev_ready w1" "dev_data w1 = dev_data w"
    using ErofsDevRead_prefix [OF w, of 0 ?buf0 n sbi] n(3) by auto
  have lay: "buf = padded (dev_data w) 0 1024 @ write_superblock sb @ padded (dev_data w) 1152 (n - 1152) @ drop n buf"
    by (rule block_layout [OF buf n(2,3) img])
  note s0 = seal_buffer [of "padded (dev_data w) 0 1024" sb "padded (dev_data w) 1152 (n - 1152)" "drop n buf",
      OF _ wf, folded lay, simplified]
  let ?buf1 = "splice buf 1032 (PutUint32 (sb_FeatureCompat sb OR EROFS_FEATURE_COMPAT_SB_CHKSUM))"
  let ?crc = "Crc32c (NOT 0) (cut 1024 ?B ?buf1)"
  let ?buf2 = "splice ?buf1 1028 (PutUint32 ?crc)"
  have l1: "length ?buf1 = 4096" using buf(1) by simp
  then have l2: "length ?buf2 = 4096" by simp
  have "take ?B ?buf2 = take ?B buf"
    using f(5) l1 buf(1) by (simp add: splice_def min_def)
  also have "\<dots> = padded (dev_data w) 0 ?B"
  proof -
    have "take ?B buf = take ?B (take n buf)" using f(5) n(2) by (simp add: min_def)
    then show ?thesis unfolding buf(2) using cut_padded [of 0 ?B n "dev_data w" 0] f(5) n(2) by (simp add: cut_def)
  qed
  finally have tk: "take ?B ?buf2 = padded (dev_data w) 0 ?B" .
  obtain w2 where w2: "ErofsDevWrite w1 ?buf2 4096 0 (int ?B) = Ret (0, w2)" "dev_ready w2"
      "dev_data w2 = write_at (dev_data w1) 0 (padded (dev_data w) 0 ?B)"
    using ErofsDevWrite_ready [OF w1(1), of 0 ?B 4096 ?buf2] l2 tk f(5) by auto
  have "ErofsEnableSbChksum e sbi w = Ret ((0, Some ?crc), w2)"
    unfolding ErofsEnableSbChksum_def ErofsBlkRead_def ErofsBlkWrite_def
    using rd n(1) w2(1) f(2-5) s0(1,2) magic l1 l2
    by (simp add: Let_def Le32ToCpu_native_load native_store_CpuToLe32 le32.dec_enc_exact ErofsPos_def
        del: EROFS_SUPER_MAGIC_V1_def)
  moreover have "byte_at (dev_data w2) = byte_at (dev_data w)"
    unfolding w2(3) w1(2) by (auto simp: byte_at_write_at nth_padded)
  ultimately show ?thesis using w2(2) by blast
qed

lemma ErofsEnableSbChksum_bad_magic:
  assumes w: "dev_ready w" and b: "sb_in_block0 sbi"
    and magic: "Uint32 (padded (dev_data w) 1024 4) \<noteq> EROFS_SUPER_MAGIC_V1"
  shows "\<exists>w'. ErofsEnableSbChksum e sbi w = Ret ((- EFAULT, None), w') \<and> dev_ready w' \<and> dev_data w' = dev_data w"
proof -
  let ?B = "2 ^ unat (si_BlkSzBits sbi) :: nat"
  let ?buf0 = "replicate 4096 0 :: bytes"
  note f = sb_in_block0_facts [OF b]
  obtain buf w1 where rd: "ErofsDevRead sbi w 0 ?buf0 0 (int ?B) = Ret ((0, None), buf, w1)"
      and buf: "length buf = 4096" "take ?B buf = padded (dev_data w) 0 ?B"
      and w1: "dev_ready w1" "dev_data w1 = dev_data w"
    using ErofsDevRead_prefix [OF w, of 0 ?buf0 ?B sbi] f(9) by auto
  have "cut 1024 4 buf = cut 1024 4 (take ?B buf)"
    using f(8) by (simp add: cut_def drop_take min_def)
  also have "\<dots> = padded (dev_data w) 1024 4" unfolding buf(2) using cut_padded [of 1024 4 ?B] f(8) by simp
  finally have c: "cut 1024 4 buf = padded (dev_data w) 1024 4" .
  have "ErofsEnableSbChksum e sbi w = Ret ((- EFAULT, None), w1)"
    unfolding ErofsEnableSbChksum_def ErofsBlkRead_def
    using rd f(2,3,7) c magic
    by (simp add: Let_def Le32ToCpu_native_load del: EROFS_SUPER_MAGIC_V1_def)
  with w1 show ?thesis by blast
qed

section \<open>Resizing and the whole end of the run\<close>

lemma sys_ok_quiet: "f_script f = [] \<Longrightarrow> f_rest f = Full \<Longrightarrow> sys_ok f = (True, f)"
  by (simp add: sys_ok_def next_resp_def)

lemma resize_same: "length data = n \<Longrightarrow> resize data n = data"
  by (simp add: resize_def)

lemma padded_resize: "p + m \<le> n \<Longrightarrow> padded (resize data n) p m = padded data p m"
  by (rule nth_equalityI) (auto simp: nth_padded byte_at_def resize_def nth_append)

lemma length_resize [simp]: "length (resize data n) = n"
  by (simp add: resize_def)

lemma ErofsDevResize_ready:
  assumes w: "dev_ready w" "dev_script w = []" "length (dev_data w) < 2 ^ 63"
    and n: "unat (ucast blocks * ucast (ErofsBlkSiz sbi) :: u64) = n" "n < 2 ^ 63"
  shows "\<exists>w'. ErofsDevResize sbi w blocks = Ret (0, w') \<and> dev_ready w' \<and> dev_script w' = []
     \<and> dev_isblk w' = dev_isblk w \<and> dev_data w' = (if dev_isblk w then dev_data w else resize (dev_data w) n)"
proof -
  let ?f = "vf_file (io_BDev w)" and ?len = "ucast blocks * ucast (ErofsBlkSiz sbi) :: u64"
  have eq: "of_nat (length (f_data ?f)) = ?len \<longleftrightarrow> length (f_data ?f) = n"
  proof -
    have "unat (of_nat (length (f_data ?f)) :: u64) = length (f_data ?f)"
      using w(3) by (intro unat_of_nat_small) (simp add: dev_data_def)
    then show ?thesis using n(1) by (metis unsigned_word_eqI)
  qed
  have sg: "\<not> sint ?len < 0" using sint_nonneg [of ?len] n by simp
  have ok: "sys_ok ?f = (True, ?f)" using w by (intro sys_ok_quiet) (simp_all add: dev_script_def dev_ready_def)
  show ?thesis
    using w eq sg ok n(1)
    by (auto simp: ErofsDevResize_def ErofsIoFtruncate_def dev_ready_def dev_script_def dev_isblk_def dev_data_def
        resize_same Let_def)
qed

lemma padded_sb_image:
  assumes "wf_superblock sb" "byte_at data' = byte_at (write_at data 0 (sb_image sb))"
  shows "padded data' 0 1024 = replicate 1024 0" "padded data' 1024 128 = write_superblock sb"
    and "padded data' 1152 m = padded data 1152 m"
proof -
  let ?w = "write_at data 0 (sb_image sb)"
  have l: "length (sb_image sb) = 1152" by (rule length_sb_image [OF assms(1)])
  have p: "padded data' q k = padded ?w q k" for q k by (simp add: padded_def assms(2))
  have full: "padded ?w 0 1152 = sb_image sb" using padded_write_at_same [of data 0 "sb_image sb"] l by simp
  show "padded data' 0 1024 = replicate 1024 0"
    using cut_padded [of 0 1024 1152 ?w 0] full by (simp add: p sb_image_def cut_def)
  show "padded data' 1024 128 = write_superblock sb"
    using cut_padded [of 1024 128 1152 ?w 0] full length_write_superblock [OF assms(1)]
    by (simp add: p sb_image_def cut_def)
  show "padded data' 1152 m = padded data 1152 m"
    unfolding p by (rule padded_write_at_other) (simp add: l)
qed

text \<open>
  The image at the end of a run that finds only the superblock: the boot area is blank, the
  superblock is sealed over the rest of its block, and a regular file is exactly one block long.
\<close>

lemma finish_image_sealed:
  assumes r: "sb_reserved sbi s" and b: "sb_in_block0 sbi" and flag: "ErofsSbHasSbChksum sbi"
    and w: "dev_ready w" "dev_script w = []" "length (dev_data w) < 2 ^ 63" and fuel: "0 < fuel"
  defines "B \<equiv> 2 ^ unat (si_BlkSzBits sbi)"
  defines "sb \<equiv> sealed (buffer_superblock sbi 1) (padded (dev_data w) 1152 (B - 1152))"
  shows "\<exists>s' w'. finish_image fuel e sbi (Some 0) s w = Ret ((0, Some (sb_Checksum sb)), s', w') \<and> dev_ready w'
     \<and> padded (dev_data w') 0 B = replicate 1024 0 @ write_superblock sb @ padded (dev_data w) 1152 (B - 1152)
     \<and> (\<not> dev_isblk w \<longrightarrow> length (dev_data w') = B)"
proof -
  note f = sb_in_block0_facts [OF b, folded B_def]
  let ?sb0 = "buffer_superblock sbi 1"
  have tail: "TailBlkAddr s = 1" using r f(4) by (simp add: sb_reserved_def word_unat_eq_iff)
  obtain s' w2 where w2: "WriteSuperBlock fuel sbi (Some 0) s w = Ret ((0, 1), s', w2)" "dev_ready w2"
      "dev_data w2 = write_at (dev_data w) 0 (sb_image ?sb0)" "dev_isblk w2 = dev_isblk w" "dev_script w2 = []"
    using WriteSuperBlock_reserved [OF r w(1) fuel] tail w(2) by auto
  have "length (dev_data w2) < 2 ^ 63"
    using w(3) length_sb_image [of ?sb0] by (simp add: w2(3) length_write_at)
  moreover have "unat (ucast (1 :: u32) * ucast (ErofsBlkSiz sbi) :: u64) = B"
    using f(6) by (simp add: unat_u64_of_u32)
  moreover have "B < 2 ^ 63" using f(9) by simp
  ultimately obtain w3 where w3: "ErofsDevResize sbi w2 1 = Ret (0, w3)" "dev_ready w3" "dev_isblk w3 = dev_isblk w2"
      "dev_data w3 = (if dev_isblk w2 then dev_data w2 else resize (dev_data w2) B)"
    using ErofsDevResize_ready [OF w2(2,5), of 1 sbi B] by blast
  have pw: "padded (dev_data w3) p m = padded (dev_data w2) p m" if "p + m \<le> B" for p m
    using that w3(4) by (simp add: padded_resize)
  note im = padded_sb_image [of ?sb0 "dev_data w2" "dev_data w", OF _ arg_cong [of _ _ byte_at, OF w2(3)], simplified]
  let ?rest = "padded (dev_data w) 1152 (B - 1152)"
  have i3: "padded (dev_data w3) 0 1024 = replicate 1024 0" "padded (dev_data w3) 1024 128 = write_superblock ?sb0"
      "padded (dev_data w3) 1152 (B - 1152) = ?rest"
    using f(8) im by (simp_all add: pw)
  have magic: "sb_Magic ?sb0 = EROFS_SUPER_MAGIC_V1" by (simp add: buffer_superblock_def)
  obtain w4 where w4: "ErofsEnableSbChksum e sbi w3 = Ret ((0, Some (sb_Checksum sb)), w4)" "dev_ready w4"
      "dev_data w4 = write_at (dev_data w3) 0 (replicate 1024 0 @ write_superblock sb @ ?rest)"
    using ErofsEnableSbChksum_sealed [OF w3(2) b wf_buffer_superblock magic i3(2), folded B_def] i3(1,3)
    unfolding sb_def by auto
  have lw: "length (replicate 1024 0 @ write_superblock sb @ ?rest) = B"
    using f(8) by (simp add: sb_def length_write_superblock)
  have "padded (dev_data w4) 0 B = replicate 1024 0 @ write_superblock sb @ ?rest"
    using padded_write_at_same [of "dev_data w3" 0 "replicate 1024 0 @ write_superblock sb @ ?rest"]
    unfolding lw w4(3) .
  moreover have "length (dev_data w4) = B" if "\<not> dev_isblk w"
    using that w3(4) w2(4) lw by (simp add: w4(3) length_write_at del: length_append)
  moreover have "finish_image fuel e sbi (Some 0) s w = Ret ((0, Some (sb_Checksum sb)), s', w4)"
    using w2(1) w3(1) w4(1) flag by (simp add: finish_image_def ErofsBflush_sb_reserved [OF r fuel])
  ultimately show ?thesis using w4(2) by blast
qed

text \<open>What a reader finds: the sealed superblock, whose checksum covers itself with the field zeroed.\<close>

lemma sealed_checksum:
  assumes "sb_Checksum sb = 0"
  shows "sb_Checksum (sealed sb rest) = Crc32c (NOT 0) (write_superblock ((sealed sb rest)\<lparr>sb_Checksum := 0\<rparr>) @ rest)"
proof -
  have "(sealed sb rest)\<lparr>sb_Checksum := 0\<rparr> = SetFeatureCompat sb EROFS_FEATURE_COMPAT_SB_CHKSUM"
    using assms by (simp add: sealed_def SetFeatureCompat_def Let_def)
  then show ?thesis by (simp add: sealed_def Let_def)
qed

lemma read_back:
  assumes "wf_superblock sb"
  shows "FromDisk (read_disk (write_superblock sb)) = sb"
  using read_write_disk [of "ToDisk sb" "[]"] assms by (simp add: write_superblock_disk FromDisk_ToDisk)

lemma finish_image_read_back:
  assumes "sb_reserved sbi s" "sb_in_block0 sbi" "ErofsSbHasSbChksum sbi"
    and "dev_ready w" "dev_script w = []" "length (dev_data w) < 2 ^ 63" "0 < fuel"
  shows "\<exists>s' w'. finish_image fuel e sbi (Some 0) s w
       = Ret ((0, Some (sb_Checksum (sealed (buffer_superblock sbi 1)
               (padded (dev_data w) 1152 (2 ^ unat (si_BlkSzBits sbi) - 1152))))), s', w')
     \<and> padded (dev_data w') 0 (2 ^ unat (si_BlkSzBits sbi))
        = replicate 1024 0 @ write_superblock (sealed (buffer_superblock sbi 1)
            (padded (dev_data w) 1152 (2 ^ unat (si_BlkSzBits sbi) - 1152)))
          @ padded (dev_data w) 1152 (2 ^ unat (si_BlkSzBits sbi) - 1152)
     \<and> FromDisk (read_disk (padded (dev_data w') 1024 128))
        = sealed (buffer_superblock sbi 1) (padded (dev_data w) 1152 (2 ^ unat (si_BlkSzBits sbi) - 1152))
     \<and> sb_Checksum (sealed (buffer_superblock sbi 1) (padded (dev_data w) 1152 (2 ^ unat (si_BlkSzBits sbi) - 1152)))
        = Crc32c (NOT 0) (write_superblock ((sealed (buffer_superblock sbi 1)
            (padded (dev_data w) 1152 (2 ^ unat (si_BlkSzBits sbi) - 1152)))\<lparr>sb_Checksum := 0\<rparr>)
            @ padded (dev_data w) 1152 (2 ^ unat (si_BlkSzBits sbi) - 1152))
     \<and> (\<not> dev_isblk w \<longrightarrow> length (dev_data w') = 2 ^ unat (si_BlkSzBits sbi))"
proof -
  let ?B = "2 ^ unat (si_BlkSzBits sbi) :: nat"
  let ?rest = "padded (dev_data w) 1152 (?B - 1152)"
  let ?sb = "sealed (buffer_superblock sbi 1) ?rest"
  have B: "1152 \<le> ?B" by (rule sb_in_block0_facts(8) [OF assms(2)])
  obtain s' w' where f: "finish_image fuel e sbi (Some 0) s w = Ret ((0, Some (sb_Checksum ?sb)), s', w')"
      "padded (dev_data w') 0 ?B = replicate 1024 0 @ write_superblock ?sb @ ?rest"
      "\<not> dev_isblk w \<longrightarrow> length (dev_data w') = ?B"
    using finish_image_sealed [OF assms] by blast
  have "padded (dev_data w') 1024 128 = cut 1024 128 (padded (dev_data w') 0 ?B)"
    using cut_padded [of 1024 128 ?B "dev_data w'" 0] B by simp
  also have "\<dots> = write_superblock ?sb" unfolding f(2) by (simp add: cut_def length_write_superblock)
  finally have "FromDisk (read_disk (padded (dev_data w') 1024 128)) = ?sb" by (simp add: read_back)
  moreover have "sb_Checksum ?sb = Crc32c (NOT 0) (write_superblock (?sb\<lparr>sb_Checksum := 0\<rparr>) @ ?rest)"
    by (rule sealed_checksum) (simp add: buffer_superblock_def)
  ultimately show ?thesis using f by blast
qed

end
