(* ===== verification/Mkfs.thy ===== *)
theory Mkfs
  imports Uuid Hints Diskbuf SbWrite
begin

text \<open>
  \<open>cmd/mkfs/main.go\<close>: the whole run of \<open>mkfs\<close>, from the parsed command line to the outcome.  The
  components' operations are composed as \<open>main\<close> composes them; the machine it runs on (kernel, files,
  random numbers, page size, byte order) is a record.
\<close>

section \<open>The machine and the command line\<close>

record 'w machine =
  mc_endian :: endian
  mc_page_size :: nat
  mc_tty :: bool
  mc_os :: os_answers
  mc_image :: "string \<Rightarrow> osfile option"
  mc_fresh :: osfile
  mc_blobs :: "u32 \<Rightarrow> osfile"
  mc_text :: "string \<Rightarrow> string option"
  mc_regexp_ok :: "string \<Rightarrow> bool"
  mc_entropy :: "'w entropy"
  mc_world :: 'w

record flags =
  fl_d :: int
  fl_C :: string
  fl_c :: string
  fl_l :: int
  fl_args :: "string list"

definition default_flags :: "string list \<Rightarrow> flags" where
  "default_flags args = \<lparr>fl_d = 0, fl_C = '''', fl_c = ''lz4'', fl_l = -1, fl_args = args\<rparr>"

datatype outcome =
  Usage
| OpenFailed open_error
| ReserveFailed reserve_error
| HintsFailed int
| CompressFailed int
| Finished int "u32 option"

section \<open>The driver\<close>

definition O_RDWR :: u32 where [simp]: "O_RDWR = 2"

definition main_config :: "'w machine \<Rightarrow> flags \<Rightarrow> config" where
  "main_config mc fl =
     (let cfg = (InitConfigure (mc_tty mc))\<lparr>cf_SourcePath := fl_args fl ! 1, cf_ImagePath := fl_args fl ! 0,
                  cf_DebugLevel := fl_d fl, cf_CompressHintsFile := fl_C fl\<rparr>
      in if cf_CompressionOptions cfg = []
         then cfg\<lparr>cf_CompressionOptions := [\<lparr>co_Algorithm = fl_c fl, co_Level = fl_l fl, co_DictSize = 0\<rparr>]\<rparr>
         else cfg)"

definition main_ccfgs :: "config \<Rightarrow> compress_cfg list" where
  "main_ccfgs cfg = splice ErofsCCfg 0
     (take (length ErofsCCfg) (replicate (length (cf_CompressionOptions cfg)) zero_compress_cfg))"

text \<open>From the hints on, with the superblock reserved.\<close>

definition main_build ::
  "nat \<Rightarrow> 'w machine \<Rightarrow> config \<Rightarrow> compress_cfg list \<Rightarrow> sbinfo \<Rightarrow> nat \<Rightarrow> bufmgr \<Rightarrow> io \<Rightarrow> (outcome \<times> osfile option) go"
where
  "main_build fuel mc cfg ccfgs sbi sbBh s w =
     gbind (ErofsLoadCompressHints (mc_regexp_ok mc) (mc_text mc) cfg sbi no_hints) (\<lambda>(err, cfg, _).
     if err \<noteq> 0 then Ret (HintsFailed err, Some (vf_file (io_BDev w)))
     else gbind (ZErofsCompressInit fuel cfg ccfgs sbi (Some sbBh) s w) (\<lambda>(err, _, sbi, s, w).
       if err \<noteq> 0 then Ret (CompressFailed err, Some (vf_file (io_BDev w)))
       else gbind (finish_image fuel (mc_endian mc) sbi (Some sbBh) s w) (\<lambda>((err, crc), _, w).
         Ret (Finished err crc, Some (vf_file (io_BDev w))))))"

text \<open>The result of a run is its outcome and the image file; a run that panics has neither.\<close>

definition mkfs_main :: "nat \<Rightarrow> 'w machine \<Rightarrow> flags \<Rightarrow> (outcome \<times> osfile option) go" where
  "mkfs_main fuel mc fl =
     (if length (fl_args fl) < 2 then Ret (Usage, None)
      else let (cfg, sbi) = MkfsDefaultOptions (mc_page_size mc) (main_config mc fl) zero_sbinfo;
               ccfgs = main_ccfgs (main_config mc fl)
        in gbind (DevOpen (mc_os mc) sbi (mc_image mc (cf_ImagePath cfg)) (mc_fresh mc) O_RDWR) (\<lambda>dev.
        case do_err dev of
          Some e \<Rightarrow> Ret (OpenFailed e, do_file dev)
        | None \<Rightarrow>
          gbind (deref (do_file dev)) (\<lambda>file.
          let sbi = do_sbi dev;
              w = \<lparr>io_fuel = fuel, io_DryRun = cf_DryRun cfg,
                   io_BDev = \<lparr>vf_Ops = None, vf_Offset = 0, vf_file = file\<rparr>, io_blobs = mc_blobs mc\<rparr>
          in gbind (ErofsBufferInit 0) (\<lambda>s.
          gbind (ReserveSuperblock fuel sbi s) (\<lambda>(r, s).
          case r of
            Inl e \<Rightarrow> Ret (ReserveFailed e, Some file)
          | Inr sbBh \<Rightarrow>
            gbind (UUIDGenerate fuel (mc_entropy mc) (si_UUID sbi) \<lparr>erofsGrndFlag = GRND_INSECURE, world = mc_world mc\<rparr>)
              (\<lambda>(_, uuid, _). main_build fuel mc cfg ccfgs (sbi\<lparr>si_UUID := uuid\<rparr>) sbBh s w))))))"

section \<open>Lemmas\<close>

subsection \<open>Up to the reserved superblock\<close>

text \<open>What the run works with once the image is open.\<close>

definition run_sbinfo :: "nat \<Rightarrow> bytes \<Rightarrow> sbinfo" where
  "run_sbinfo page uuid = (snd (MkfsDefaultOptions page (InitConfigure False) zero_sbinfo))\<lparr>si_UUID := uuid\<rparr>"

definition run_config :: "'w machine \<Rightarrow> flags \<Rightarrow> config" where
  "run_config mc fl = fst (MkfsDefaultOptions (mc_page_size mc) (main_config mc fl) zero_sbinfo)"

definition run_file :: "'w machine \<Rightarrow> flags \<Rightarrow> osfile" where
  "run_file mc fl = (case mc_image mc (fl_args fl ! 0) of Some f \<Rightarrow> f | None \<Rightarrow> mc_fresh mc)"

definition run_io :: "nat \<Rightarrow> 'w machine \<Rightarrow> flags \<Rightarrow> io" where
  "run_io fuel mc fl = \<lparr>io_fuel = fuel, io_DryRun = False,
     io_BDev = \<lparr>vf_Ops = None, vf_Offset = 0, vf_file = run_file mc fl\<rparr>, io_blobs = mc_blobs mc\<rparr>"

definition compressed_sbinfo :: "sbinfo \<Rightarrow> sbinfo" where
  "compressed_sbinfo sbi = sbi\<lparr>Lz4_MaxDistance := 65535, AvailableComprAlgs := 1\<rparr>"


lemma run_sbinfo_simps:
  assumes "page = 2 ^ k"
  shows "unat (si_BlkSzBits (run_sbinfo page uuid)) = min k 12" "small_blocks (run_sbinfo page uuid)"
    and "ErofsSbHasSbChksum (run_sbinfo page uuid)" "\<not> ErofsSbHasComprCfgs (run_sbinfo page uuid)"
    and "si_UUID (run_sbinfo page uuid) = uuid"
proof -
  obtain cfg' sbi' where m: "MkfsDefaultOptions (2 ^ k) (InitConfigure False) zero_sbinfo = (cfg', sbi')"
    by (cases "MkfsDefaultOptions (2 ^ k) (InitConfigure False) zero_sbinfo")
  then have r: "run_sbinfo page uuid = sbi'\<lparr>si_UUID := uuid\<rparr>" using assms by (simp add: run_sbinfo_def)
  note b = MkfsDefaultOptions_block_size [OF m]
  show "unat (si_BlkSzBits (run_sbinfo page uuid)) = min k 12" "small_blocks (run_sbinfo page uuid)"
      "si_UUID (run_sbinfo page uuid) = uuid"
    using b(1) by (simp_all add: r small_blocks_def)
  show "ErofsSbHasSbChksum (run_sbinfo page uuid)" "\<not> ErofsSbHasComprCfgs (run_sbinfo page uuid)"
    using b(2,3) by (simp_all add: r ErofsSbHasSbChksum_def ErofsSbHasComprCfgs_def sb_has_def read_flags_def)
qed

lemma run_config_simps [simp]:
  "cf_ImagePath (run_config mc fl) = fl_args fl ! 0" "cf_DryRun (run_config mc fl) = False"
  "cf_CompressHintsFile (run_config mc fl) = fl_C fl"
  "cf_CompressionOptions (run_config mc fl) = [\<lparr>co_Algorithm = fl_c fl, co_Level = fl_l fl, co_DictSize = 0\<rparr>]"
  "cf_MkfsPclusterSizePacked (run_config mc fl) = 0" "\<not> cf_LegacyCompress (run_config mc fl)"
  by (simp_all add: run_config_def MkfsDefaultOptions_def main_config_def InitConfigure_def Let_def)

lemma mkfs_main_opened:
  assumes args: "2 \<le> length (fl_args fl)" and page: "mc_page_size mc = 2 ^ k"
    and open_ok: "os_open (mc_os mc) = None" and fuel: "2 < fuel"
    and uuid: "UUIDGenerate fuel (mc_entropy mc) (replicate 16 0) \<lparr>erofsGrndFlag = GRND_INSECURE, world = mc_world mc\<rparr>
      = Ret (err, uuid, s')"
  shows "\<exists>s. mkfs_main fuel mc fl = main_build fuel mc (run_config mc fl) (main_ccfgs (main_config mc fl))
         (run_sbinfo (mc_page_size mc) uuid) 0 s (run_io fuel mc fl)
     \<and> sb_reserved (run_sbinfo (mc_page_size mc) uuid) s"
proof -
  let ?sbi = "run_sbinfo (mc_page_size mc) (replicate 16 0)"
  have m: "MkfsDefaultOptions (mc_page_size mc) (main_config mc fl) zero_sbinfo = (run_config mc fl, ?sbi)"
    by (simp add: run_config_def run_sbinfo_def MkfsDefaultOptions_def zero_sbinfo_def Let_def)
  obtain s0 where s0: "ErofsBufferInit 0 = Ret s0" using ErofsBufferInit_inv [of ?sbi 0] run_sbinfo_simps(2) [OF page] by auto
  obtain s where s: "ReserveSuperblock fuel ?sbi s0 = Ret (Inr 0, s)" "sb_reserved ?sbi s"
    using ReserveSuperblock_fresh [OF run_sbinfo_simps(2) [OF page] s0 fuel] by blast
  have dev: "DevOpen (mc_os mc) ?sbi (mc_image mc (fl_args fl ! 0)) (mc_fresh mc) O_RDWR
      = Ret \<lparr>do_err = None, do_sbi = ?sbi, do_file = Some (run_file mc fl), do_removed = False\<rparr>"
    using DevOpen_read_write [of O_RDWR "mc_os mc" ?sbi "mc_image mc (fl_args fl ! 0)" "mc_fresh mc"] open_ok
    by (simp add: run_file_def open_or_create_def)
  have u: "?sbi\<lparr>si_UUID := uuid\<rparr> = run_sbinfo (mc_page_size mc) uuid" by (simp add: run_sbinfo_def)
  have "mkfs_main fuel mc fl = main_build fuel mc (run_config mc fl) (main_ccfgs (main_config mc fl))
      (run_sbinfo (mc_page_size mc) uuid) 0 s (run_io fuel mc fl)"
    using args m s0 s(1) dev uuid run_sbinfo_simps(5) [OF page]
    by (simp add: mkfs_main_def run_io_def u del: O_RDWR_def)
  moreover have "sb_reserved (run_sbinfo (mc_page_size mc) uuid) s"
    using s(2) sb_reserved_cong [of "run_sbinfo (mc_page_size mc) uuid" ?sbi s] by (simp add: run_sbinfo_def)
  ultimately show ?thesis by blast
qed

subsection \<open>A whole run\<close>

text \<open>The superblock a run with default options writes, over what the image held behind it.\<close>

definition mkfs_superblock :: "nat \<Rightarrow> bytes \<Rightarrow> bytes \<Rightarrow> superblock" where
  "mkfs_superblock page uuid rest = sealed (buffer_superblock (compressed_sbinfo (run_sbinfo page uuid)) 1) rest"

definition old_rest :: "'w machine \<Rightarrow> flags \<Rightarrow> nat \<Rightarrow> bytes" where
  "old_rest mc fl B = padded (f_data (run_file mc fl)) 1152 (B - 1152)"

lemma mkfs_superblock_fields:
  assumes "page = 2 ^ k" "length uuid = 16"
  shows "sb_Magic (mkfs_superblock page uuid rest) = EROFS_SUPER_MAGIC_V1"
    and "unat (sb_BlkSzBits (mkfs_superblock page uuid rest)) = min k 12"
    and "sb_UUID (mkfs_superblock page uuid rest) = uuid"
    and "sb_Blocks (mkfs_superblock page uuid rest) = 1"
    and "sb_CompressInfo (mkfs_superblock page uuid rest) = 65535"
    and "sb_FeatureCompat (mkfs_superblock page uuid rest) = EROFS_FEATURE_COMPAT_SB_CHKSUM OR EROFS_FEATURE_COMPAT_MTIME"
    and "sb_FeatureIncompat (mkfs_superblock page uuid rest) = EROFS_FEATURE_INCOMPAT_ZERO_PADDING"
    and "sb_Checksum (mkfs_superblock page uuid rest)
       = Crc32c (NOT 0) (write_superblock ((mkfs_superblock page uuid rest)\<lparr>sb_Checksum := 0\<rparr>) @ rest)"
proof -
  have cfgs: "\<not> ErofsSbHasComprCfgs (compressed_sbinfo (run_sbinfo page uuid))"
    using run_sbinfo_simps(4) [OF assms(1), of uuid]
    by (simp add: compressed_sbinfo_def ErofsSbHasComprCfgs_def sb_has_def read_flags_def)
  note d = mkfs_superblock_def sealed_def SetFeatureCompat_def buffer_superblock_def
  show "sb_Magic (mkfs_superblock page uuid rest) = EROFS_SUPER_MAGIC_V1"
    "sb_Blocks (mkfs_superblock page uuid rest) = 1" by (simp_all add: d Let_def)
  show "unat (sb_BlkSzBits (mkfs_superblock page uuid rest)) = min k 12"
    using run_sbinfo_simps(1) [OF assms(1)] by (simp add: d Let_def compressed_sbinfo_def)
  show "sb_UUID (mkfs_superblock page uuid rest) = uuid"
    using run_sbinfo_simps(5) [OF assms(1)] assms(2) by (simp add: d Let_def compressed_sbinfo_def go_copy_def splice_def)
  show "sb_CompressInfo (mkfs_superblock page uuid rest) = 65535"
    using cfgs by (simp add: d Let_def compressed_sbinfo_def)
  show "sb_FeatureCompat (mkfs_superblock page uuid rest) = EROFS_FEATURE_COMPAT_SB_CHKSUM OR EROFS_FEATURE_COMPAT_MTIME"
    "sb_FeatureIncompat (mkfs_superblock page uuid rest) = EROFS_FEATURE_INCOMPAT_ZERO_PADDING"
    by (simp_all add: d Let_def compressed_sbinfo_def run_sbinfo_def MkfsDefaultOptions_def)
  show "sb_Checksum (mkfs_superblock page uuid rest)
       = Crc32c (NOT 0) (write_superblock ((mkfs_superblock page uuid rest)\<lparr>sb_Checksum := 0\<rparr>) @ rest)"
    unfolding mkfs_superblock_def by (rule sealed_checksum) (simp add: buffer_superblock_def)
qed

lemma compress_init_run:
  assumes "mc_page_size mc = 2 ^ k" "fl_c fl = ''lz4''" "fl_l fl < 0"
    and s: "sb_reserved (run_sbinfo (mc_page_size mc) uuid) s"
  shows "\<exists>ccfgs. ZErofsCompressInit fuel (run_config mc fl) (main_ccfgs (main_config mc fl))
       (run_sbinfo (mc_page_size mc) uuid) (Some 0) s w
     = Ret (0, ccfgs, compressed_sbinfo (run_sbinfo (mc_page_size mc) uuid), s, w)"
proof -
  let ?cfg = "run_config mc fl" let ?cc = "main_ccfgs (main_config mc fl)" let ?sbi = "run_sbinfo (mc_page_size mc) uuid"
  have size: "cf_MkfsPclusterSizeMax ?cfg = ErofsBlkSiz ?sbi"
    by (simp add: run_config_def run_sbinfo_def MkfsDefaultOptions_def Let_def ErofsBlkSiz_def)
  have n: "length ?cc = 64" by (simp add: main_ccfgs_def ErofsCCfg_def)
  show ?thesis
    using ZErofsCompressInit_default [of ?cfg ?cc ?sbi s fuel w] run_sbinfo_simps(4) [OF assms(1)] assms(2,3) s size n
    by (auto simp: usable_def named_def compressed_sbinfo_def)
qed

lemma mkfs_main_sealed:
  assumes args: "2 \<le> length (fl_args fl)" "fl_C fl = ''''" "fl_c fl = ''lz4''" "fl_l fl < 0"
    and page: "mc_page_size mc = 2 ^ k" "11 \<le> k" and open_ok: "os_open (mc_os mc) = None" and fuel: "2 < fuel"
    and uuid: "UUIDGenerate fuel (mc_entropy mc) (replicate 16 0) \<lparr>erofsGrndFlag = GRND_INSECURE, world = mc_world mc\<rparr>
      = Ret (err, uuid, s')"
    and image: "f_rest (run_file mc fl) = Full" "f_script (run_file mc fl) = []" "length (f_data (run_file mc fl)) < 2 ^ 63"
  defines "B \<equiv> 2 ^ min k 12"
  defines "sb \<equiv> mkfs_superblock (mc_page_size mc) uuid (old_rest mc fl B)"
  shows "\<exists>f'. mkfs_main fuel mc fl = Ret (Finished 0 (Some (sb_Checksum sb)), Some f')
     \<and> padded (f_data f') 0 B = replicate 1024 0 @ write_superblock sb @ old_rest mc fl B
     \<and> FromDisk (read_disk (padded (f_data f') 1024 128)) = sb
     \<and> (\<not> f_isblk (run_file mc fl) \<longrightarrow> length (f_data f') = B)"
proof -
  let ?sbi = "run_sbinfo (mc_page_size mc) uuid" let ?c = "compressed_sbinfo ?sbi" let ?w = "run_io fuel mc fl"
  obtain s where s: "mkfs_main fuel mc fl = main_build fuel mc (run_config mc fl) (main_ccfgs (main_config mc fl)) ?sbi 0 s ?w"
      "sb_reserved ?sbi s"
    using mkfs_main_opened [OF args(1) page(1) open_ok fuel uuid] by blast
  obtain cc where cc: "ZErofsCompressInit fuel (run_config mc fl) (main_ccfgs (main_config mc fl)) ?sbi (Some 0) s ?w
      = Ret (0, cc, ?c, s, ?w)"
    using compress_init_run [OF page(1) args(3,4) s(2)] by blast
  have w: "dev_ready ?w" "dev_script ?w = []" "dev_data ?w = f_data (run_file mc fl)" "dev_isblk ?w = f_isblk (run_file mc fl)"
    using image fuel by (simp_all add: run_io_def dev_ready_def dev_script_def dev_data_def dev_isblk_def)
  have b: "si_BlkSzBits ?c = si_BlkSzBits ?sbi" by (simp add: compressed_sbinfo_def)
  have bits: "unat (si_BlkSzBits ?c) = min k 12" using run_sbinfo_simps(1) [OF page(1)] b by simp
  have c: "sb_reserved ?c s" "sb_in_block0 ?c" "ErofsSbHasSbChksum ?c"
    using s(2) sb_reserved_cong [OF b] bits page(2) run_sbinfo_simps(3) [OF page(1), of uuid]
    by (auto simp: sb_in_block0_def word_unat_eq_iff compressed_sbinfo_def ErofsSbHasSbChksum_def sb_has_def read_flags_def)
  have sb: "sealed (buffer_superblock ?c 1) (padded (dev_data ?w) 1152 (2 ^ unat (si_BlkSzBits ?c) - 1152)) = sb"
    by (simp add: sb_def mkfs_superblock_def old_rest_def B_def bits w(3))
  obtain s2 w' where f: "finish_image fuel (mc_endian mc) ?c (Some 0) s ?w = Ret ((0, Some (sb_Checksum sb)), s2, w')"
      "padded (dev_data w') 0 B = replicate 1024 0 @ write_superblock sb @ old_rest mc fl B"
      "FromDisk (read_disk (padded (dev_data w') 1024 128)) = sb"
      "\<not> dev_isblk ?w \<longrightarrow> length (dev_data w') = B"
    using finish_image_read_back [OF c w(1,2), of fuel "mc_endian mc", unfolded sb] image(3) fuel bits
    by (auto simp: w(3) B_def old_rest_def)
  have "main_build fuel mc (run_config mc fl) (main_ccfgs (main_config mc fl)) ?sbi 0 s ?w
      = Ret (Finished 0 (Some (sb_Checksum sb)), Some (vf_file (io_BDev w')))"
    using cc f(1) args(2) by (simp add: main_build_def ErofsLoadCompressHints_def)
  with s(1) f w(4) show ?thesis by (auto simp: dev_data_def)
qed

subsection \<open>Runs that stop\<close>

text \<open>Any algorithm but \<open>lz4\<close>, and any level from 0 on, is refused before anything is written.\<close>

lemma mkfs_main_bad_option:
  assumes args: "2 \<le> length (fl_args fl)" "fl_C fl = ''''" and bad: "fl_c fl \<noteq> ''''" "fl_c fl \<noteq> ''lz4'' \<or> 0 \<le> fl_l fl"
    and page: "mc_page_size mc = 2 ^ k" and open_ok: "os_open (mc_os mc) = None" and fuel: "2 < fuel"
    and uuid: "UUIDGenerate fuel (mc_entropy mc) (replicate 16 0) \<lparr>erofsGrndFlag = GRND_INSECURE, world = mc_world mc\<rparr>
      = Ret (err, uuid, s')"
  shows "mkfs_main fuel mc fl = Ret (CompressFailed (- EINVAL), Some (run_file mc fl))"
proof -
  let ?sbi = "run_sbinfo (mc_page_size mc) uuid" let ?w = "run_io fuel mc fl"
  let ?opt = "\<lparr>co_Algorithm = fl_c fl, co_Level = fl_l fl, co_DictSize = 0\<rparr>"
  obtain s where s: "mkfs_main fuel mc fl = main_build fuel mc (run_config mc fl) (main_ccfgs (main_config mc fl)) ?sbi 0 s ?w"
    using mkfs_main_opened [OF args(1) page open_ok fuel uuid] by blast
  have n: "length (main_ccfgs (main_config mc fl)) = 64" by (simp add: main_ccfgs_def ErofsCCfg_def)
  define st0 where "st0 = \<lparr>cs_ccfgs = main_ccfgs (main_config mc fl), cs_sbi = ?sbi, cs_avail = 0,
     cs_maxDict = replicate 4 0\<rparr>"
  have "\<not> usable ?opt" using bad(2) by (auto simp: usable_def)
  then obtain st where st: "init_algs [?opt] 0 st0 = Ret (Inl (- EINVAL), st)"
    using init_algs_unusable [of "[]" st0 ?opt "[]" 0] bad(1) by (auto simp: comp_ready_def st0_def)
  have "ZErofsCompressInit fuel (run_config mc fl) (main_ccfgs (main_config mc fl)) ?sbi (Some 0) s ?w
      = Ret (- EINVAL, cs_ccfgs st, cs_sbi st, s, ?w)"
    using st n by (simp add: ZErofsCompressInit_def st0_def [symmetric] del: init_algs.simps)
  then show ?thesis
    using s args(2) by (simp add: main_build_def ErofsLoadCompressHints_def run_io_def)
qed

text \<open>A hints file whose first significant line is a hint stops the run: the list of hints was never
  initialised.\<close>

lemma mkfs_main_hint_panics:
  assumes args: "2 \<le> length (fl_args fl)" "fl_C fl \<noteq> ''''" and hintsf: "mc_text mc (fl_C fl) = Some contents"
    and page: "mc_page_size mc = 2 ^ k" and open_ok: "os_open (mc_os mc) = None" and fuel: "2 < fuel"
    and uuid: "UUIDGenerate fuel (mc_entropy mc) (replicate 16 0) \<lparr>erofsGrndFlag = GRND_INSECURE, world = mc_world mc\<rparr>
      = Ret (err, uuid, s')"
    and ls: "scan_lines contents = ls @ l # rest"
      "\<forall>l\<in>set ls. parse_hint (run_config mc fl) (run_sbinfo (mc_page_size mc) uuid) l = Skip"
      "parse_hint (run_config mc fl) (run_sbinfo (mc_page_size mc) uuid) l = Hint pcs pat ccfg" "mc_regexp_ok mc pat"
  shows "mkfs_main fuel mc fl = Panic NilDeref"
proof -
  obtain s where s: "mkfs_main fuel mc fl = main_build fuel mc (run_config mc fl) (main_ccfgs (main_config mc fl))
      (run_sbinfo (mc_page_size mc) uuid) 0 s (run_io fuel mc fl)"
    using mkfs_main_opened [OF args(1) page open_ok fuel uuid] by blast
  show ?thesis
    using load_zero_head [of "mc_regexp_ok mc" pat no_hints ls "run_config mc fl" "run_sbinfo (mc_page_size mc) uuid" l pcs ccfg rest 0]
      ls hintsf args(2)
    by (simp add: s main_build_def ErofsLoadCompressHints_def no_hints_def)
qed

end
