(* ===== verification/MkfsSpec.thy ===== *)
theory MkfsSpec
  imports Mkfs
begin

text \<open>
  What a whole run of \<open>mkfs\<close> comes to, decided from the command line, the hints file and the identifier:
  an abstract specification of \<open>main\<close> without buffers, lists or device calls, and the proof that
  \<open>mkfs_main\<close> implements it.
\<close>

section \<open>The specification\<close>

text \<open>A run panics, stops and leaves the image as it was, or seals the image with a superblock.\<close>

datatype verdict = Dies panic | Refused outcome | Sealed superblock

text \<open>The first line that is not skipped decides about a hints file; a hint whose pattern is no regular
  expression is skipped too.\<close>

fun decides :: "(string \<Rightarrow> bool) \<Rightarrow> hint_line \<Rightarrow> bool" where
  "decides ok Skip = False"
| "decides ok (Hint pcs pat alg) = ok pat"
| "decides ok (Reject ret) = True"
| "decides ok (Crash p) = True"

fun line_verdict :: "hint_line \<Rightarrow> verdict" where
  "line_verdict (Reject ret) = Refused (HintsFailed ret)"
| "line_verdict (Crash p) = Dies p"
| "line_verdict h = Dies NilDeref"

text \<open>\<open>Inr\<close> is the largest cluster size a run goes on with.\<close>

definition hints_verdict :: "'w machine \<Rightarrow> flags \<Rightarrow> sbinfo \<Rightarrow> verdict + u32" where
  "hints_verdict mc fl sbi =
     (let cfg = run_config mc fl; csize = cf_MkfsPclusterSizeMax cfg; parse = parse_hint cfg sbi
      in if fl_C fl = '''' then Inr csize
         else case mc_text mc (fl_C fl) of
           None \<Rightarrow> Inl (Refused (HintsFailed (- ENOENT)))
         | Some text \<Rightarrow>
             (case find (\<lambda>l. decides (mc_regexp_ok mc) (parse l)) (scan_lines text) of
                Some l \<Rightarrow> Inl (line_verdict (parse l))
              | None \<Rightarrow> Inr (max csize (ucast (largest cfg sbi (scan_lines text) 0)))))"

definition mkfs_verdict :: "'w machine \<Rightarrow> flags \<Rightarrow> bytes \<Rightarrow> verdict" where
  "mkfs_verdict mc fl uuid =
     (let sbi = run_sbinfo (mc_page_size mc) uuid; rest = old_rest mc fl (2 ^ unat (si_BlkSzBits sbi))
      in case hints_verdict mc fl sbi of
           Inl v \<Rightarrow> v
         | Inr csize \<Rightarrow>
             if fl_c fl = '''' then Sealed (sealed (buffer_superblock (ErofsSbClearLz40Padding sbi) 1) rest)
             else if fl_c fl \<noteq> ''lz4'' \<or> 0 \<le> fl_l fl \<or> ErofsBlkSiz sbi < csize
             then Refused (CompressFailed (- EINVAL))
             else Sealed (mkfs_superblock (mc_page_size mc) uuid rest))"

section \<open>Hints\<close>

lemma insert_invalid_head:
  assumes "\<not> ok pat" "lprev (hs_links hs) HintsHead = None"
  shows "\<exists>r hs'. ErofsInsertCompressHints ok pat blks alg hs = Ret (r, hs') \<and> lprev (hs_links hs') HintsHead = None"
proof -
  obtain h where "InitListHead (hs_links hs) (Some (HintEntry (hs_next hs))) = Ret h"
      "same_outside {HintEntry (hs_next hs)} (hs_links hs) h"
    using InitListHead_Ret [of "hs_links hs" "HintEntry (hs_next hs)"] by blast
  with assms show ?thesis by (auto simp: ErofsInsertCompressHints_def same_outside_def Let_def)
qed

lemma load_lines_find:
  assumes "lprev (hs_links hs) HintsHead = None"
  shows "case find (\<lambda>l. decides ok (parse_hint cfg sbi l)) ls of
       None \<Rightarrow> \<exists>hs'. load_lines ok cfg sbi ls mx hs = Ret (Inr (largest cfg sbi ls mx), hs')
     | Some l \<Rightarrow> (case parse_hint cfg sbi l of
           Reject ret \<Rightarrow> \<exists>hs'. load_lines ok cfg sbi ls mx hs = Ret (Inl ret, hs')
         | Crash p \<Rightarrow> load_lines ok cfg sbi ls mx hs = Panic p
         | _ \<Rightarrow> load_lines ok cfg sbi ls mx hs = Panic NilDeref)"
  using assms
proof (induction ls arbitrary: mx hs)
  case (Cons l ls)
  show ?case
  proof (cases "parse_hint cfg sbi l")
    case Skip
    have "load_lines ok cfg sbi (l # ls) mx hs = load_lines ok cfg sbi ls mx hs"
        "largest cfg sbi (l # ls) mx = largest cfg sbi ls mx"
      using Skip by simp_all
    with Cons.IH [OF Cons.prems, of mx] Skip show ?thesis by (simp only: find.simps decides.simps if_False)
  next
    case (Hint pcs pat k)
    let ?b = "of_int (go_quo pcs (uint (ErofsBlkSiz sbi))) :: u64"
    show ?thesis
    proof (cases "ok pat")
      case True
      with Hint insert_into_zero_head [OF _ Cons.prems] show ?thesis by simp
    next
      case False
      obtain r hs1 where hs1: "ErofsInsertCompressHints ok pat ?b (of_nat k) hs = Ret (r, hs1)"
          "lprev (hs_links hs1) HintsHead = None"
        using insert_invalid_head [of ok, OF False Cons.prems] by blast
      have m: "(if of_int pcs > mx then of_int pcs else mx) = max mx (of_int pcs)" by (auto simp: max_def)
      have "load_lines ok cfg sbi (l # ls) mx hs = load_lines ok cfg sbi ls (max mx (of_int pcs)) hs1"
          "largest cfg sbi (l # ls) mx = largest cfg sbi ls (max mx (of_int pcs))"
        using Hint hs1(1) m by simp_all
      with Cons.IH [OF hs1(2), of "max mx (of_int pcs)"] Hint False show ?thesis by (simp only: find.simps decides.simps if_False)
    qed
  qed simp_all
qed simp

lemma parse_hint_rejects: "parse_hint cfg sbi l = Reject ret \<Longrightarrow> ret = - EINVAL"
  by (auto simp: parse_hint_def hint_cfg_def Let_def split: if_splits option.splits sum.splits)

text \<open>Loading the hints of a run implements the verdict about them.\<close>

lemma load_hints_verdict:
  fixes mc :: "'w machine" and fl :: flags and sbi :: sbinfo
  defines "load \<equiv> ErofsLoadCompressHints (mc_regexp_ok mc) (mc_text mc) (run_config mc fl) sbi no_hints"
  shows "case hints_verdict mc fl sbi of
       Inr csize \<Rightarrow> \<exists>hs. load = Ret (0, (run_config mc fl)\<lparr>cf_MkfsPclusterSizeMax := csize\<rparr>, hs)
     | Inl (Dies p) \<Rightarrow> load = Panic p
     | Inl (Refused o1) \<Rightarrow> \<exists>err cfg hs. err \<noteq> 0 \<and> o1 = HintsFailed err \<and> load = Ret (err, cfg, hs)
     | Inl (Sealed sb) \<Rightarrow> False"
proof (cases "fl_C fl = '''' \<or> mc_text mc (fl_C fl) = None")
  case True
  then show ?thesis by (auto simp: load_def hints_verdict_def ErofsLoadCompressHints_def Let_def)
next
  case False
  then obtain contents where t: "fl_C fl \<noteq> ''''" "mc_text mc (fl_C fl) = Some contents" by auto
  let ?cfg = "run_config mc fl" let ?ls = "scan_lines contents"
  have h: "lprev (hs_links no_hints) HintsHead = None" by (simp add: no_hints_def)
  note loaded = load_lines_find [OF h, of "mc_regexp_ok mc" ?cfg sbi ?ls 0]
  show ?thesis
  proof (cases "find (\<lambda>l. decides (mc_regexp_ok mc) (parse_hint ?cfg sbi l)) ?ls")
    case None
    with loaded t show ?thesis
      by (auto simp: load_def hints_verdict_def ErofsLoadCompressHints_def Let_def max_def not_less)
  next
    case (Some l)
    with loaded t parse_hint_rejects [of ?cfg sbi l] show ?thesis
      by (cases "parse_hint ?cfg sbi l") (auto simp: load_def hints_verdict_def ErofsLoadCompressHints_def Let_def)
  qed
qed

section \<open>Compressors\<close>

text \<open>The compressors of a run with one option, once the hints have set the cluster size.\<close>

lemma compress_verdict:
  fixes mc :: "'w machine" and fl :: flags and csize :: u32 and fuel :: nat and s :: bufmgr and w :: io
  assumes page: "mc_page_size mc = 2 ^ k" and s: "sb_reserved (run_sbinfo (mc_page_size mc) uuid) s"
  defines "cfg \<equiv> (run_config mc fl)\<lparr>cf_MkfsPclusterSizeMax := csize\<rparr>"
  defines "sbi \<equiv> run_sbinfo (mc_page_size mc) uuid"
  defines "init \<equiv> ZErofsCompressInit fuel cfg (main_ccfgs (main_config mc fl)) sbi (Some 0) s w"
  shows "fl_c fl = '''' \<Longrightarrow> \<exists>ccfgs. init = Ret (0, ccfgs, ErofsSbClearLz40Padding sbi, s, w)"
    and "fl_c fl \<noteq> '''' \<Longrightarrow> fl_c fl \<noteq> ''lz4'' \<or> 0 \<le> fl_l fl \<or> ErofsBlkSiz sbi < csize
      \<Longrightarrow> \<exists>ccfgs sbi'. init = Ret (- EINVAL, ccfgs, sbi', s, w)"
    and "fl_c fl = ''lz4'' \<Longrightarrow> fl_l fl < 0 \<Longrightarrow> csize \<le> ErofsBlkSiz sbi
      \<Longrightarrow> \<exists>ccfgs. init = Ret (0, ccfgs, compressed_sbinfo sbi, s, w)"
proof -
  let ?cc = "main_ccfgs (main_config mc fl)" let ?opt = "\<lparr>co_Algorithm = fl_c fl, co_Level = fl_l fl, co_DictSize = 0\<rparr>"
  have n: "length ?cc = 64" by (simp add: main_ccfgs_def ErofsCCfg_def)
  have opts: "cf_CompressionOptions cfg = [?opt]" "cf_MkfsPclusterSizeMax cfg = csize" "\<not> cf_LegacyCompress cfg"
      "cf_MkfsPclusterSizePacked cfg = 0"
    by (simp_all add: cfg_def)
  { assume "fl_c fl = ''''"
    with n opts show "\<exists>ccfgs. init = Ret (0, ccfgs, ErofsSbClearLz40Padding sbi, s, w)"
      by (simp add: init_def ZErofsCompressInit_def Let_def) }
  have lz4: "fl_c fl = ''lz4'' \<Longrightarrow> fl_l fl < 0 \<Longrightarrow> \<exists>ccfgs sbi'. init =
      (if csize \<le> ErofsBlkSiz sbi then Ret (0, ccfgs, compressed_sbinfo sbi, s, w) else Ret (- EINVAL, ccfgs, sbi', s, w))"
    using ZErofsCompressInit_default [of cfg ?cc sbi s fuel w] run_sbinfo_simps(4) [OF page] s n opts
    by (auto simp: usable_def named_def compressed_sbinfo_def init_def sbi_def split: if_splits)
  { assume "fl_c fl = ''lz4''" "fl_l fl < 0" "csize \<le> ErofsBlkSiz sbi"
    then show "\<exists>ccfgs. init = Ret (0, ccfgs, compressed_sbinfo sbi, s, w)" using lz4 by simp }
  { assume c: "fl_c fl \<noteq> ''''" "fl_c fl \<noteq> ''lz4'' \<or> 0 \<le> fl_l fl \<or> ErofsBlkSiz sbi < csize"
    show "\<exists>ccfgs sbi'. init = Ret (- EINVAL, ccfgs, sbi', s, w)"
    proof (cases "usable ?opt")
      case True
      with c lz4 show ?thesis by (auto simp: usable_def not_le)
    next
      case False
      define st0 where "st0 = \<lparr>cs_ccfgs = ?cc, cs_sbi = sbi, cs_avail = 0, cs_maxDict = replicate 4 0\<rparr>"
      obtain st where st: "init_algs [?opt] 0 st0 = Ret (Inl (- EINVAL), st)"
        using init_algs_unusable [of "[]" st0 ?opt "[]" 0] c(1) False by (auto simp: comp_ready_def st0_def)
      then have "init = Ret (- EINVAL, cs_ccfgs st, cs_sbi st, s, w)"
        using n opts by (simp add: init_def ZErofsCompressInit_def st0_def [symmetric] del: init_algs.simps)
      then show ?thesis by blast
    qed }
qed

section \<open>The run\<close>

text \<open>A run that gets to the end with superblock information \<open>c\<close>.\<close>

lemma finish_run:
  fixes mc :: "'w machine" and fl :: flags
  assumes "sb_reserved c s" "sb_in_block0 c" "ErofsSbHasSbChksum c" "2 < fuel"
    and image: "f_rest (run_file mc fl) = Full" "f_script (run_file mc fl) = []" "length (f_data (run_file mc fl)) < 2 ^ 63"
  defines "B \<equiv> 2 ^ unat (si_BlkSzBits c)"
  defines "sb \<equiv> sealed (buffer_superblock c 1) (old_rest mc fl B)"
  shows "\<exists>s' w'. finish_image fuel e c (Some 0) s (run_io fuel mc fl) = Ret ((0, Some (sb_Checksum sb)), s', w')
     \<and> padded (dev_data w') 0 B = replicate 1024 0 @ write_superblock sb @ old_rest mc fl B
     \<and> FromDisk (read_disk (padded (dev_data w') 1024 128)) = sb
     \<and> (\<not> f_isblk (run_file mc fl) \<longrightarrow> length (dev_data w') = B)"
proof -
  let ?w = "run_io fuel mc fl"
  have w: "dev_ready ?w" "dev_script ?w = []" "dev_data ?w = f_data (run_file mc fl)" "dev_isblk ?w = f_isblk (run_file mc fl)"
    using image assms(4) by (simp_all add: run_io_def dev_ready_def dev_script_def dev_data_def dev_isblk_def)
  then show ?thesis
    using finish_image_read_back [OF assms(1-3) w(1,2), of fuel e] image(3) assms(4)
    by (auto simp: sb_def B_def old_rest_def)
qed


lemma mkfs_main_verdict:
  assumes args: "2 \<le> length (fl_args fl)" and page: "mc_page_size mc = 2 ^ k" "11 \<le> k"
    and open_ok: "os_open (mc_os mc) = None" and fuel: "2 < fuel"
    and uuid: "UUIDGenerate fuel (mc_entropy mc) (replicate 16 0) \<lparr>erofsGrndFlag = GRND_INSECURE, world = mc_world mc\<rparr>
      = Ret (err, uuid, s')"
    and image: "f_rest (run_file mc fl) = Full" "f_script (run_file mc fl) = []" "length (f_data (run_file mc fl)) < 2 ^ 63"
  shows "case mkfs_verdict mc fl uuid of
       Dies p \<Rightarrow> mkfs_main fuel mc fl = Panic p
     | Refused o1 \<Rightarrow> mkfs_main fuel mc fl = Ret (o1, Some (run_file mc fl))
     | Sealed sb \<Rightarrow> (\<exists>f. mkfs_main fuel mc fl = Ret (Finished 0 (Some (sb_Checksum sb)), Some f)
         \<and> padded (f_data f) 0 (2 ^ min k 12) = replicate 1024 0 @ write_superblock sb @ old_rest mc fl (2 ^ min k 12)
         \<and> FromDisk (read_disk (padded (f_data f) 1024 128)) = sb
         \<and> (\<not> f_isblk (run_file mc fl) \<longrightarrow> length (f_data f) = 2 ^ min k 12))"
proof -
  let ?sbi = "run_sbinfo (mc_page_size mc) uuid" let ?w = "run_io fuel mc fl" let ?cfg = "run_config mc fl"
  obtain s where s: "mkfs_main fuel mc fl = main_build fuel mc ?cfg (main_ccfgs (main_config mc fl)) ?sbi 0 s ?w"
      "sb_reserved ?sbi s"
    using mkfs_main_opened [OF args page(1) open_ok fuel uuid] by blast
  have img: "vf_file (io_BDev ?w) = run_file mc fl" by (simp add: run_io_def)
  have bits: "unat (si_BlkSzBits ?sbi) = min k 12" by (rule run_sbinfo_simps(1) [OF page(1)])
  note load = load_hints_verdict [of mc fl ?sbi]
  show ?thesis
  proof (cases "hints_verdict mc fl ?sbi")
    case (Inl v)
    with load s(1) img show ?thesis
      by (cases v) (auto simp: mkfs_verdict_def main_build_def Let_def)
  next
    case (Inr csize)
    then obtain hs where hs: "ErofsLoadCompressHints (mc_regexp_ok mc) (mc_text mc) ?cfg ?sbi no_hints
        = Ret (0, ?cfg\<lparr>cf_MkfsPclusterSizeMax := csize\<rparr>, hs)"
      using load by auto
    note init = compress_verdict [OF page(1) s(2), where fl = fl and csize = csize and fuel = fuel and w = "?w"]
    have seal: "\<exists>f. mkfs_main fuel mc fl = Ret (Finished 0 (Some (sb_Checksum sb)), Some f)
         \<and> padded (f_data f) 0 (2 ^ min k 12) = replicate 1024 0 @ write_superblock sb @ old_rest mc fl (2 ^ min k 12)
         \<and> FromDisk (read_disk (padded (f_data f) 1024 128)) = sb
         \<and> (\<not> f_isblk (run_file mc fl) \<longrightarrow> length (f_data f) = 2 ^ min k 12)"
      if "ZErofsCompressInit fuel (?cfg\<lparr>cf_MkfsPclusterSizeMax := csize\<rparr>) (main_ccfgs (main_config mc fl)) ?sbi (Some 0) s ?w
            = Ret (0, cc, c, s, ?w)"
        and same: "si_BlkSzBits c = si_BlkSzBits ?sbi" "si_FeatureCompat c = si_FeatureCompat ?sbi"
        and sb: "sb = sealed (buffer_superblock c 1) (old_rest mc fl (2 ^ min k 12))"
      for cc c sb
    proof -
      have b: "unat (si_BlkSzBits c) = min k 12" using same(1) bits by simp
      have "ErofsSbHasSbChksum c"
        using run_sbinfo_simps(3) [OF page(1), of uuid] same(2) by (simp add: ErofsSbHasSbChksum_def sb_has_def read_flags_def)
      moreover have "sb_reserved c s" "sb_in_block0 c"
        using s(2) sb_reserved_cong [OF same(1)] b page(2) by (auto simp: sb_in_block0_def word_unat_eq_iff)
      ultimately have "sb_reserved c s" "sb_in_block0 c" "ErofsSbHasSbChksum c" by blast+
      from finish_run [OF this fuel image, of "mc_endian mc", unfolded b, folded sb]
      obtain s2 w' where "finish_image fuel (mc_endian mc) c (Some 0) s ?w = Ret ((0, Some (sb_Checksum sb)), s2, w')"
          "padded (dev_data w') 0 (2 ^ min k 12) = replicate 1024 0 @ write_superblock sb @ old_rest mc fl (2 ^ min k 12)"
          "FromDisk (read_disk (padded (dev_data w') 1024 128)) = sb"
          "\<not> f_isblk (run_file mc fl) \<longrightarrow> length (dev_data w') = 2 ^ min k 12"
        by blast
      with that(1) hs s(1) show ?thesis by (auto simp: main_build_def dev_data_def)
    qed
    consider (no_alg) "fl_c fl = ''''" | (refused) "fl_c fl \<noteq> ''''" "fl_c fl \<noteq> ''lz4'' \<or> 0 \<le> fl_l fl \<or> ErofsBlkSiz ?sbi < csize"
      | (lz4) "fl_c fl = ''lz4''" "fl_l fl < 0" "csize \<le> ErofsBlkSiz ?sbi" by fastforce
    then show ?thesis
    proof cases
      case no_alg
      with init(1) obtain cc where cc: "ZErofsCompressInit fuel (?cfg\<lparr>cf_MkfsPclusterSizeMax := csize\<rparr>)
          (main_ccfgs (main_config mc fl)) ?sbi (Some 0) s ?w = Ret (0, cc, ErofsSbClearLz40Padding ?sbi, s, ?w)" by blast
      have "mkfs_verdict mc fl uuid = Sealed (sealed (buffer_superblock (ErofsSbClearLz40Padding ?sbi) 1) (old_rest mc fl (2 ^ min k 12)))"
        using Inr no_alg bits by (simp add: mkfs_verdict_def Let_def)
      with seal [OF cc _ _ refl] show ?thesis by (simp add: ErofsSbClearLz40Padding_def sb_clear_def write_flags_def)
    next
      case refused
      with init(2) hs s(1) img Inr show ?thesis by (auto simp: mkfs_verdict_def main_build_def Let_def)
    next
      case lz4
      with init(3) obtain cc where cc: "ZErofsCompressInit fuel (?cfg\<lparr>cf_MkfsPclusterSizeMax := csize\<rparr>)
          (main_ccfgs (main_config mc fl)) ?sbi (Some 0) s ?w = Ret (0, cc, compressed_sbinfo ?sbi, s, ?w)" by blast
      have "mkfs_verdict mc fl uuid = Sealed (mkfs_superblock (mc_page_size mc) uuid (old_rest mc fl (2 ^ min k 12)))"
        using Inr lz4 bits by (simp add: mkfs_verdict_def Let_def)
      with seal [OF cc] show ?thesis by (simp add: mkfs_superblock_def compressed_sbinfo_def)
    qed
  qed
qed


end
