(* ===== verification/BufMgrRun.thy ===== *)
theory BufMgrRun
  imports BufMgrFaults
begin

text \<open>
  The buffer manager as a state machine: a manager starts fresh, and each step is one call of
  \<open>Balloc\<close>, \<open>Battach\<close>, \<open>BhBalloon\<close>, \<open>MapBh\<close>, \<open>BDrop\<close>, \<open>ErofsBfree\<close> or \<open>ErofsBflush\<close>
  (\<open>pkg/types/internal.go\<close>) within the documented limits of the callers.  Every reachable manager satisfies the invariant of the layout, extended by the rings of
  heads, and no call within the limits panics or loops.
\<close>

section \<open>The invariant with the rings of heads\<close>

text \<open>
  The heads of a block are those made with it; they form a ring, or, when \<open>BhBalloon\<close> has filed one a second
  time, a \<open>damaged\<close> one: going back from the anchor one meets only heads of the block, and never the anchor again.
\<close>

definition owned :: "bufmgr \<Rightarrow> nat \<Rightarrow> nat \<Rightarrow> bool" where
  "owned s b i \<longleftrightarrow> i < bm_next_bh s \<and> bh_Block (bm_heads s i) = Some b"

definition damaged :: "bufmgr \<Rightarrow> nat \<Rightarrow> bool" where
  "damaged s b \<longleftrightarrow> (\<exists>S. (\<forall>i\<in>S. owned s b i) \<and> (\<exists>i\<in>S. lprev (bm_links s) (BbBufs b) = Some (BhList i))
     \<and> (\<forall>i\<in>S. \<exists>j\<in>S. lprev (bm_links s) (BhList i) = Some (BhList j)))"

text \<open>\<open>Some xs\<close> lists the heads of an intact ring in order; \<open>None\<close> stands for a damaged one.\<close>

definition ring_ok :: "bufmgr \<Rightarrow> nat \<Rightarrow> nat list option \<Rightarrow> bool" where
  "ring_ok s b r \<longleftrightarrow> (case r of
       Some xs \<Rightarrow> dll (bm_links s) (BbBufs b) (map BhList xs) \<and> (\<forall>i\<in>set xs. owned s b i)
     | None \<Rightarrow> damaged s b)"

lemma ring_ok_simps [simp]:
  "ring_ok s b (Some xs) \<longleftrightarrow> dll (bm_links s) (BbBufs b) (map BhList xs) \<and> (\<forall>i\<in>set xs. owned s b i)"
  "ring_ok s b None \<longleftrightarrow> damaged s b"
  by (simp_all add: ring_ok_def)

definition rings_ok :: "bufmgr \<Rightarrow> nat set \<Rightarrow> (nat \<Rightarrow> nat list option) \<Rightarrow> bool" where
  "rings_ok s B hs \<longleftrightarrow> (\<forall>b\<in>B. ring_ok s b (hs b))"

definition bm_wf :: "sbinfo \<Rightarrow> nat \<Rightarrow> bufmgr \<Rightarrow> nat list \<Rightarrow> nat list \<Rightarrow> (nat \<Rightarrow> nat list option) \<Rightarrow> bool" where
  "bm_wf sbi start s ms us hs \<longleftrightarrow> bm_inv sbi start s ms us \<and> rings_ok s (set (ms @ us)) hs
     \<and> set (ms @ us) = {1..<bm_next_bb s}"

lemma bm_wfD:
  assumes "bm_wf sbi start s ms us hs"
  shows "bm_inv sbi start s ms us" "rings_ok s (set (ms @ us)) hs" "set (ms @ us) = {1..<bm_next_bb s}"
  using assms unfolding bm_wf_def by blast+

lemma bm_wfI:
  assumes "bm_inv sbi start s ms us" "rings_ok s (set (ms @ us)) hs" "set (ms @ us) = {1..<bm_next_bb s}"
  shows "bm_wf sbi start s ms us hs"
  using assms unfolding bm_wf_def by blast

text \<open>A damaged ring is no ring at all.\<close>

lemma damaged_no_ring:
  assumes "damaged s b"
  shows "\<not> dll (bm_links s) (BbBufs b) xs"
proof
  assume d: "dll (bm_links s) (BbBufs b) xs"
  obtain S where S: "\<exists>i\<in>S. lprev (bm_links s) (BbBufs b) = Some (BhList i)"
      "\<forall>i\<in>S. \<exists>j\<in>S. lprev (bm_links s) (BhList i) = Some (BhList j)"
    using assms by (auto simp: damaged_def)
  have ne: "xs \<noteq> []" "last xs \<in> BhList ` S" using S(1) dll_prev [OF d] by (cases "xs = []"; force)+
  have "last ys \<in> BhList ` S" if "xs = ys @ zs" "ys \<noteq> []" for ys zs
    using that
  proof (induction zs arbitrary: ys)
    case Nil
    then show ?case using ne by simp
  next
    case (Cons z zs)
    have "last (ys @ [z]) \<in> BhList ` S" by (rule Cons.IH) (use Cons.prems in simp_all)
    then obtain j where "j \<in> S" "lprev (bm_links s) z = Some (BhList j)" using S(2) by auto
    moreover have "lprev (bm_links s) z = Some (last (BbBufs b # ys))" using dll_mem_prev [of "bm_links s" "BbBufs b" ys z zs] d Cons.prems(1) by simp
    ultimately show ?case using Cons.prems(2) by auto
  qed
  moreover obtain x zs where x: "xs = x # zs" using ne(1) by (cases xs) auto
  ultimately have "x \<in> BhList ` S" by (metis append_Cons append_Nil last.simps list.distinct(1))
  moreover have "lprev (bm_links s) x = Some (BbBufs b)" using dll_mem_prev [of "bm_links s" "BbBufs b" "[]" x zs] d x by simp
  ultimately show False using S(2) by force
qed

lemma ring_unique:
  assumes "ring_ok s b r" "dll (bm_links s) (BbBufs b) (map BhList xs)"
  shows "r = Some xs"
proof (cases r)
  case None
  then show ?thesis using assms damaged_no_ring by simp
next
  case (Some ys)
  then have "map BhList ys = map BhList xs" using assms by (auto intro: dll_unique)
  moreover have "inj BhList" by (rule injI) simp
  ultimately show ?thesis using Some by (simp only: inj_map_eq_map)
qed

text \<open>A change that spares the anchor and the heads of a block keeps its ring; a change of the ring of one block
  keeps those of the others.\<close>

lemma ring_ok_frame:
  assumes "ring_ok s b r" "same_outside A (bm_links s) (bm_links s')" "BbBufs b \<notin> A"
    and "\<And>i. owned s b i \<Longrightarrow> BhList i \<notin> A \<and> owned s' b i"
  shows "ring_ok s' b r"
proof (cases r)
  case (Some xs)
  have "dll (bm_links s') (BbBufs b) (map BhList xs)"
    by (rule ring.rep_frame [OF _ assms(2)]) (use assms Some in auto)
  then show ?thesis using assms(1,4) Some by auto
next
  case None
  then obtain S where "\<forall>i\<in>S. owned s b i" "\<exists>i\<in>S. lprev (bm_links s) (BbBufs b) = Some (BhList i)"
      "\<forall>i\<in>S. \<exists>j\<in>S. lprev (bm_links s) (BhList i) = Some (BhList j)"
    using assms(1) by (auto simp: damaged_def)
  moreover have "lprev (bm_links s') x = lprev (bm_links s) x" if "x \<notin> A" for x
    using assms(2) that by (simp add: same_outside_def)
  ultimately have "damaged s' b" unfolding damaged_def using assms(3,4) by (intro exI [of _ S]) auto
  then show ?thesis using None by simp
qed

definition ring_nodes :: "bufmgr \<Rightarrow> nat \<Rightarrow> node set" where
  "ring_nodes s b = insert (BbBufs b) {BhList i |i. i < bm_next_bh s \<longrightarrow> bh_Block (bm_heads s i) = Some b} \<union> bucket_nodes UNIV"

lemma rings_ok_update:
  assumes rings: "rings_ok s B hs" and same: "same_outside (ring_nodes s b) (bm_links s) (bm_links s')"
    and next_bh: "bm_next_bh s \<le> bm_next_bh s'"
    and heads: "\<And>i. i < bm_next_bh s \<Longrightarrow> bh_Block (bm_heads s' i) = bh_Block (bm_heads s i)"
    and b: "ring_ok s' b r"
  shows "rings_ok s' B (hs(b := r))"
  unfolding rings_ok_def
proof
  fix c assume c: "c \<in> B"
  show "ring_ok s' c ((hs(b := r)) c)"
  proof (cases "c = b")
    case False
    have "ring_ok s' c (hs c)"
      by (rule ring_ok_frame [OF _ same]) (use rings c False next_bh heads in \<open>auto simp: rings_ok_def ring_nodes_def owned_def\<close>)
    with False show ?thesis by simp
  qed (use b in simp)
qed

lemma rings_ok_map:
  assumes "rings_ok s B hs" "same_outside (bucket_nodes M) (bm_links s) (bm_links s')"
    and "bm_heads s' = bm_heads s" "bm_next_bh s' = bm_next_bh s"
  shows "rings_ok s' B hs"
  unfolding rings_ok_def
proof
  fix b assume "b \<in> B"
  then show "ring_ok s' b (hs b)"
    using assms by (intro ring_ok_frame [OF _ assms(2)]) (auto simp: rings_ok_def owned_def)
qed

text \<open>A head joins the ring: behind the last one of an intact ring, and in front of the anchor of a damaged
  one, which stays damaged.\<close>

lemma ring_append:
  assumes r: "ring_ok s b r" and h: "ListAddTail (bm_links s) (Some (BhList i)) (Some (BbBufs b)) = Ret (bm_links s')"
    and i: "bm_next_bh s \<le> i" "owned s' b i" and own: "\<And>j. owned s b j \<Longrightarrow> owned s' b j"
  shows "ring_ok s' b (map_option (\<lambda>xs. xs @ [i]) r)" "same_outside (ring_nodes s b) (bm_links s) (bm_links s')"
proof -
  have "ring_ok s' b (map_option (\<lambda>xs. xs @ [i]) r) \<and> same_outside (ring_nodes s b) (bm_links s) (bm_links s')"
  proof (cases r)
    case (Some xs)
    then have d: "dll (bm_links s) (BbBufs b) (map BhList xs)" "\<forall>j\<in>set xs. owned s b j" using r by auto
    have "BhList i \<notin> insert (BbBufs b) (set (map BhList xs))" using d(2) i(1) by (auto simp: owned_def)
    then have a: "dll (bm_links s') (BbBufs b) (map BhList xs @ [BhList i])"
        "same_outside ({BhList i, BbBufs b} \<union> set (map BhList xs)) (bm_links s) (bm_links s')"
      using ring.add_tail_rep [OF d(1), of "BhList i"] h by auto
    have "same_outside (ring_nodes s b) (bm_links s) (bm_links s')"
      by (rule same_outside_mono [OF a(2)]) (use d(2) i(1) in \<open>auto simp: ring_nodes_def owned_def\<close>)
    then show ?thesis using a(1) d(2) i(2) own Some by auto
  next
    case None
    then obtain S k where S: "\<forall>j\<in>S. owned s b j" "k \<in> S" "lprev (bm_links s) (BbBufs b) = Some (BhList k)"
        "\<forall>j\<in>S. \<exists>l\<in>S. lprev (bm_links s) (BhList j) = Some (BhList l)"
      using r by (auto simp: damaged_def)
    have "BhList i \<noteq> BhList k" using S(1,2) i(1) by (auto simp: owned_def)
    then have l: "linked (BhList k) (BhList i) (BbBufs b) (bm_links s) (bm_links s')"
      using ListAddTail_prev [OF S(3), of "BhList i"] h by auto
    have new: "i \<notin> S" using S(1) i(1) by (auto simp: owned_def)
    have l': "lprev (bm_links s') (BhList i) = Some (BhList k)" "lprev (bm_links s') (BbBufs b) = Some (BhList i)"
      using l by (simp_all add: linked_def)
    have old: "lprev (bm_links s') (BhList j) = lprev (bm_links s) (BhList j)" if "j \<in> S" for j
    proof -
      have "j \<noteq> i" using new that by blast
      then show ?thesis using l by (simp add: linked_def)
    qed
    have "damaged s' b"
      unfolding damaged_def
    proof (intro exI [of _ "insert i S"] conjI ballI)
      fix j assume "j \<in> insert i S"
      then show "owned s' b j" using S(1) i(2) own by auto
      show "\<exists>l\<in>insert i S. lprev (bm_links s') (BhList j) = Some (BhList l)"
        using \<open>j \<in> insert i S\<close> l'(1) S(2,4) old by (cases "j = i") auto
    qed (use l'(2) in simp)
    moreover have "same_outside (ring_nodes s b) (bm_links s) (bm_links s')"
      using S(1,2) i(1) by (intro linked_same_outside [OF l]) (auto simp: ring_nodes_def owned_def)
    ultimately show ?thesis using None by simp
  qed
  then show "ring_ok s' b (map_option (\<lambda>xs. xs @ [i]) r)" "same_outside (ring_nodes s b) (bm_links s) (bm_links s')" by blast+
qed

text \<open>What an allocation needs to know of the rings.\<close>

lemma rings_bufs_linked:
  assumes "rings_ok s (set bs) hs"
  shows "bufs_linked s bs"
  unfolding bufs_linked_def
proof
  fix b assume "b \<in> set bs"
  then have r: "ring_ok s b (hs b)" using assms by (simp add: rings_ok_def)
  show "\<exists>p. lprev (bm_links s) (BbBufs b) = Some p \<and> (p = BbBufs b \<or> (\<exists>i<bm_next_bh s. p = BhList i))"
  proof (cases "hs b")
    case None
    then show ?thesis using r by (auto simp: damaged_def owned_def)
  next
    case (Some xs)
    then have "dll (bm_links s) (BbBufs b) (map BhList xs)" "\<forall>i\<in>set xs. i < bm_next_bh s" using r by (auto simp: owned_def)
    then show ?thesis using dll_prev by (cases "xs = []") (fastforce simp: last_map)+
  qed
qed

text \<open>A head the caller still holds: it is a member of its block's ring.\<close>

definition live :: "bufmgr \<Rightarrow> nat \<Rightarrow> nat \<Rightarrow> bool" where
  "live s b i \<longleftrightarrow> 0 < b \<and> b < bm_next_bb s \<and> bh_Block (bm_heads s i) = Some b
     \<and> (\<exists>xs ys. dll (bm_links s) (BbBufs b) (map BhList (xs @ i # ys)))"

lemma bm_inv_ids:
  assumes "bm_inv sbi start s ms us"
  shows "set (ms @ us) \<subseteq> {1..<bm_next_bb s}" "length (ms @ us) < bm_next_bb s"
proof -
  have "0 < b \<and> b < bm_next_bb s" if "b \<in> set (ms @ us)" for b
    using assms that by (simp add: bm_inv_def block_ok_def)
  then show sub: "set (ms @ us) \<subseteq> {1..<bm_next_bb s}" by force
  have "length (ms @ us) = card (set (ms @ us))" using bm_inv_distinct [OF assms] by (simp only: distinct_card)
  also have "\<dots> \<le> bm_next_bb s - 1" using card_mono [OF _ sub] by simp
  finally have "length (ms @ us) \<le> bm_next_bb s - 1" .
  moreover have "0 < bm_next_bb s" using assms by (simp add: bm_inv_def)
  ultimately show "length (ms @ us) < bm_next_bb s" by linarith
qed

section \<open>The steps keep the invariant\<close>

subsection \<open>Balloc\<close>

text \<open>A request that never searches the blocks for room: it fills whole blocks, or its type is
  aligned to blocks.  This is the only kind the program makes.\<close>

definition no_search :: "sbinfo \<Rightarrow> int \<Rightarrow> u64 \<Rightarrow> u32 \<Rightarrow> u32 \<Rightarrow> bool" where
  "no_search sbi ty sz req inl \<longleftrightarrow>
     (let rest = ((ucast sz + req) AND (ErofsBlkSiz sbi - 1)) + inl
      in (rest = 0 \<or> of_int (fst (GetAlignSize sbi ty)) = ErofsBlkSiz sbi) \<and> rest \<le> ErofsBlkSiz sbi)
   \<and> 0 \<le> fst (GetAlignSize sbi ty) \<and> 0 \<le> snd (GetAlignSize sbi ty) \<and> snd (GetAlignSize sbi ty) \<le> META"

lemma Balloc_wf:
  assumes wf: "bm_wf sbi start s ms us hs" and req: "no_search sbi ty0 sz req inl" and fuel: "bm_next_bb s < fuel"
  shows "\<exists>r s' hs'. Balloc fuel sbi ty0 sz req inl s = Ret (r, s')
     \<and> bm_wf sbi start s' ms (place_new (snd (GetAlignSize sbi ty0)) (bm_next_bb s) us) hs'
     \<and> (\<forall>b\<in>set (ms @ us). bm_blocks s' b = bm_blocks s b) \<and> bm_next_bb s' = Suc (bm_next_bb s)"
proof -
  have inv: "bm_inv sbi start s ms us" and rings: "rings_ok s (set (ms @ us)) hs"
      and ids: "set (ms @ us) = {1..<bm_next_bb s}"
    by (rule bm_wfD [OF wf])+
  obtain al ty where al: "GetAlignSize sbi ty0 = (al, ty)" by (cases "GetAlignSize sbi ty0")
  then have al': "0 \<le> al" "0 \<le> ty" "ty \<le> META" using req by (simp_all add: no_search_def)
  have early: "BfindForAttach fuel sbi ty sz req inl (of_int al) s = Ret (Inr None, s)"
    by (rule BfindForAttach_early) (use inv req al in \<open>simp_all add: bm_inv_def no_search_def Let_def\<close>)
  have bufs: "bufs_linked s (ms @ us)" by (rule rings_bufs_linked [OF rings])
  define n where "n = bm_next_bb s"
  have new: "n \<notin> set (ms @ us)" using bm_inv_ids(1) [OF inv] by (auto simp: n_def)
  have len: "Suc (length (ms @ us)) < fuel" using bm_inv_ids(2) [OF inv] fuel by simp
  define us' where "us' = place_new ty n us"
  have mem: "set (ms @ us') = insert n (set (ms @ us))" by (auto simp: us'_def place_new_def)
  define f' where "f' = (bm_blocks s)(n := \<lparr>bb_BlkAddr = NULL_ADDR, bb_Type = ty, bb_Off = 0, bb_FsPrivate = True\<rparr>)"
  define b where "b = alloc_target ty (sz + ucast (req + inl) * ucast (of_int al :: u32)) f' (ms @ us') n"
  let ?i = "bm_next_bh s"
  obtain s' h where s': "Balloc fuel sbi ty0 sz req inl s = Ret (if sz > bb_Off (f' b) then Inl EmptyBufferBlock else Inr ?i, s')"
      "bm_inv sbi start s' ms us'" "bm_blocks s' = f'" "bm_next_bb s' = Suc n" "b \<in> set (ms @ us')"
      "sz > bb_Off (f' b) \<or> bm_heads s' = (bm_heads s)(?i := \<lparr>bh_Block = Some b, bh_Off = sz, bh_Op = None\<rparr>) \<and> bm_next_bh s' = Suc ?i"
      and h: "same_outside ({BbBufs n, BbMapped n} \<union> range BbList) (bm_links s) h" "dll h (BbBufs n) []"
      "if sz > bb_Off (f' b) then bm_links s' = h \<and> bm_heads s' = bm_heads s \<and> bm_next_bh s' = ?i
       else ListAddTail h (Some (BhList ?i)) (Some (BbBufs b)) = Ret (bm_links s')"
    using Balloc_no_search [OF inv bufs al al' early len, folded n_def, folded us'_def f'_def, folded b_def] by blast
  let ?s1 = "s\<lparr>bm_links := h\<rparr>" and ?hs1 = "hs(n := Some [])"
  have "ring_ok ?s1 c (hs c)" if "c \<in> set (ms @ us)" for c
    by (rule ring_ok_frame [OF _ _, where A = "{BbBufs n, BbMapped n} \<union> range BbList"])
      (use rings that h(1) new in \<open>auto simp: rings_ok_def owned_def\<close>)
  then have r1: "rings_ok ?s1 (set (ms @ us')) ?hs1" unfolding mem rings_ok_def using h(2) by simp
  have ids': "set (ms @ us') = {1..<bm_next_bb s'}" using ids inv unfolding mem s'(4) by (auto simp: bm_inv_def n_def)
  have blocks: "\<forall>c\<in>set (ms @ us). bm_blocks s' c = bm_blocks s c" using new by (auto simp: s'(3) f'_def)
  show ?thesis
  proof (cases "sz > bb_Off (f' b)")
    case True
    then have "rings_ok s' (set (ms @ us')) ?hs1"
      using rings_ok_map [OF r1, of "{}" s'] h(3) by (simp add: same_outside_def)
    then have "bm_wf sbi start s' ms us' ?hs1" using s'(2) ids' by (intro bm_wfI)
    with s'(1,4) blocks True al show ?thesis by (auto simp: us'_def n_def)
  next
    case False
    have link: "ListAddTail (bm_links ?s1) (Some (BhList ?i)) (Some (BbBufs b)) = Ret (bm_links s')"
      and heads: "bm_heads s' = (bm_heads s)(?i := \<lparr>bh_Block = Some b, bh_Off = sz, bh_Op = None\<rparr>)" "bm_next_bh s' = Suc ?i"
      using h(3) False s'(6) by auto
    have own: "owned s' b j" if "owned ?s1 b j" for j using that heads by (auto simp: owned_def)
    have new_own: "owned s' b ?i" "bm_next_bh ?s1 \<le> ?i" using heads by (simp_all add: owned_def)
    have "ring_ok ?s1 b (?hs1 b)" using r1 s'(5) unfolding rings_ok_def by blast
    note app = ring_append [OF this link new_own(2,1) own]
    have "rings_ok s' (set (ms @ us')) (?hs1(b := map_option (\<lambda>xs. xs @ [?i]) (?hs1 b)))"
      by (rule rings_ok_update [OF r1 app(2) _ _ app(1)]) (use heads in auto)
    then have "bm_wf sbi start s' ms us' (?hs1(b := map_option (\<lambda>xs. xs @ [?i]) (?hs1 b)))"
      using s'(2) ids' by (intro bm_wfI)
    with s'(1,4) blocks al show ?thesis unfolding us'_def n_def by auto
  qed
qed

subsection \<open>Battach\<close>

lemma live_ring:
  assumes wf: "bm_wf sbi start s ms us hs" and i: "live s b i"
  shows "b \<in> set (ms @ us)" "\<exists>xs ys. hs b = Some (xs @ i # ys)"
proof -
  show b: "b \<in> set (ms @ us)" using wf i by (auto simp: bm_wf_def live_def)
  obtain xs ys where d: "dll (bm_links s) (BbBufs b) (map BhList (xs @ i # ys))" using i by (auto simp: live_def)
  have "ring_ok s b (hs b)" using wf b by (auto simp: bm_wf_def rings_ok_def)
  then show "\<exists>xs ys. hs b = Some (xs @ i # ys)" using ring_unique [OF _ d] by blast
qed

text \<open>The new head joins the ring when there is room; otherwise it stays unattached.\<close>

lemma Battach_wf:
  assumes wf: "bm_wf sbi start s ms us hs" and i: "live s b i"
    and room: "attach_room sbi s b (ucast sz) (of_int (fst (GetAlignSize sbi ty)))"
  shows "\<exists>r s' hs'. Battach sbi i ty sz s = Ret (r, s') \<and> bm_wf sbi start s' ms us hs'
     \<and> (\<forall>c. bb_BlkAddr (bm_blocks s' c) = bb_BlkAddr (bm_blocks s c)) \<and> bm_next_bb s' = bm_next_bb s"
proof -
  note b = live_ring(1) [OF wf i]
  have inv: "bm_inv sbi start s ms us" and rings: "rings_ok s (set (ms @ us)) hs"
      and ids: "set (ms @ us) = {1..<bm_next_bb s}"
    by (rule bm_wfD [OF wf])+
  have blk: "bh_Block (bm_heads s i) = Some b" using i by (simp add: live_def)
  have mgr: "manager_of s b = Ret ()" using inv b by (auto simp: bm_inv_def block_ok_def manager_of_def)
  let ?n = "bm_next_bh s"
  let ?s1 = "s\<lparr>bm_heads := (bm_heads s)(?n := zero_bhead), bm_next_bh := Suc ?n\<rparr>"
  obtain al t where al: "GetAlignSize sbi ty = (al, t)" by (cases "GetAlignSize sbi ty")
  show ?thesis
  proof (cases "lnext (bm_links s) (BhList i) = Some (BbBufs b)")
    case False
    then have "Battach sbi i ty sz s = Ret ((None, - EINVAL), s)"
      using blk mgr al by (simp add: Battach_def)
    with wf show ?thesis by blast
  next
    case True
    have inv1: "bm_inv sbi start ?s1 ms us"
      by (rule bm_inv_frame [OF inv, where A = "{}"]) (simp_all add: same_outside_def)
    have rings1: "rings_ok ?s1 (set (ms @ us)) hs"
      unfolding rings_ok_def
    proof
      fix c assume "c \<in> set (ms @ us)"
      then have "ring_ok s c (hs c)" using rings unfolding rings_ok_def by blast
      then show "ring_ok ?s1 c (hs c)"
        by (rule ring_ok_frame [where A = "{}"]) (simp_all add: owned_def same_outside_def)
    qed
    obtain ls where ls: "hs b = Some ls" using live_ring(2) [OF wf i] by blast
    then have r: "dll (bm_links s) (BbBufs b) (map BhList ls)" "\<forall>j\<in>set ls. owned s b j"
      using rings b by (auto simp: rings_ok_def dest!: bspec [where x = b])
    have ring: "dll (bm_links ?s1) (BbBufs b) (map BhList ls) \<and> ?n \<notin> set ls" using r by (auto simp: owned_def)
    have room1: "attach_room sbi ?s1 b (ucast sz) (of_int al)" using room al by (simp add: attach_room_def with_off_def)
    let ?oob = "att_oob sbi (bb_Off (bm_blocks ?s1 b)) (ucast sz) (of_int al) (0 :: u32)"
    let ?pos = "RoundUp (bb_Off (bm_blocks ?s1 b)) (ucast (of_int al :: u32))"
    obtain r' s' where s': "BattachInternal sbi b (Some ?n) (ucast sz) (of_int al) 0 False ?s1 = Ret (r', s')"
        "bm_inv sbi start s' ms us"
        "if b \<in> set (butlast ms) \<and> 0 < ?oob then r' = - EINVAL \<and> s' = ?s1
         else 0 \<le> r' \<and> attached ?s1 b (Some ?n) ls ?pos (ucast sz) s'"
      using BattachInternal_spec [OF inv1 b room1, where bh = "Some ?n" and hs = ls and ext = 0] ring by auto
    have run: "Battach sbi i ty sz s = Ret (if r' < 0 then (None, r') else (Some ?n, 0), s')"
      using blk mgr al True s'(1) by (simp add: Battach_def new_bhead_def)
    show ?thesis
    proof (cases "b \<in> set (butlast ms) \<and> 0 < ?oob")
      case True
      then have "bm_wf sbi start s' ms us hs" using s'(3) inv1 rings1 ids by (simp add: bm_wf_def)
      moreover have "\<forall>c. bb_BlkAddr (bm_blocks s' c) = bb_BlkAddr (bm_blocks s c)" "bm_next_bb s' = bm_next_bb s"
        using True s'(3) by simp_all
      ultimately show ?thesis using run by blast
    next
      case False
      then have at: "attached ?s1 b (Some ?n) ls ?pos (ucast sz) s'" using s'(3) by (simp only: if_False)
      have heads: "bm_heads s' = (bm_heads ?s1)(?n := (bm_heads ?s1 ?n)\<lparr>bh_Off := ?pos, bh_Block := Some b\<rparr>)"
          "bm_next_bh s' = Suc ?n" "bm_next_bb s' = bm_next_bb s"
        using at by (simp_all add: attached_def)
      have "rings_ok s' (set (ms @ us)) (hs(b := Some (ls @ [?n])))"
      proof (rule rings_ok_update [OF rings])
        have "same_outside (attach_nodes b (Some ?n) ls) (bm_links s) (bm_links s')" using at by (simp add: attached_def)
        then show "same_outside (ring_nodes s b) (bm_links s) (bm_links s')"
          by (rule same_outside_mono) (use r(2) in \<open>auto simp: attach_nodes_def ring_nodes_def owned_def\<close>)
        show "ring_ok s' b (Some (ls @ [?n]))" using at r(2) heads by (auto simp: attached_def owned_def)
      qed (simp_all add: heads)
      then have "bm_wf sbi start s' ms us (hs(b := Some (ls @ [?n])))" using s'(2) ids heads(3) by (simp add: bm_wf_def)
      moreover have "\<forall>c. bb_BlkAddr (bm_blocks s' c) = bb_BlkAddr (bm_blocks s c)" using at by (simp add: attached_def)
      ultimately show ?thesis using run heads(3) by blast
    qed
  qed
qed

subsection \<open>BhBalloon\<close>

text \<open>The last head of an intact ring damages it; another one is refused.\<close>

lemma BhBalloon_wf:
  assumes wf: "bm_wf sbi start s ms us hs" and i: "live s b i" and room: "attach_room sbi s b incr 1"
  shows "\<exists>r s' hs'. BhBalloon sbi i incr s = Ret (r, s') \<and> bm_wf sbi start s' ms us hs'
     \<and> (\<forall>c. bb_BlkAddr (bm_blocks s' c) = bb_BlkAddr (bm_blocks s c)) \<and> bm_next_bb s' = bm_next_bb s"
proof -
  note b = live_ring(1) [OF wf i]
  have inv: "bm_inv sbi start s ms us" and rings: "rings_ok s (set (ms @ us)) hs"
      and ids: "set (ms @ us) = {1..<bm_next_bb s}"
    by (rule bm_wfD [OF wf])+
  have blk: "bh_Block (bm_heads s i) = Some b" using i by (simp add: live_def)
  obtain xs ys where split: "hs b = Some (xs @ i # ys)" using live_ring(2) [OF wf i] by blast
  have r: "dll (bm_links s) (BbBufs b) (map BhList xs @ BhList i # map BhList ys)" "owned s b i"
    using rings b split by (auto simp: rings_ok_def dest!: bspec [where x = b])
  show ?thesis
  proof (cases ys)
    case (Cons y zs)
    then have "lnext (bm_links s) (BhList i) = Some (BhList y)" using dll_mem_next [OF r(1)] by simp
    then have "BhBalloon sbi i incr s = Ret (- EINVAL, s)" using blk by (simp add: BhBalloon_def)
    with wf show ?thesis by blast
  next
    case Nil
    then have ring: "dll (bm_links s) (BbBufs b) (map BhList xs @ [BhList i])" using r(1) by simp
    obtain r s' where s': "BhBalloon sbi i incr s = Ret (r, s')" "bm_inv sbi start s' ms us"
        "r = - EINVAL \<and> s' = s
      \<or> 0 \<le> r \<and> bm_blocks s' = with_off s b (RoundUp (bb_Off (bm_blocks s b)) 1 + incr)
        \<and> (\<forall>j. bh_Block (bm_heads s' j) = bh_Block (bm_heads s j))
        \<and> bm_next_bb s' = bm_next_bb s \<and> bm_next_bh s' = bm_next_bh s
        \<and> same_outside (insert (BhList i) (bucket_nodes (set ms))) (bm_links s) (bm_links s')
        \<and> lprev (bm_links s') (BbBufs b) = Some (BhList i) \<and> lprev (bm_links s') (BhList i) = Some (BhList i)"
      using BhBalloon_last [OF inv b blk ring room] by blast
    from s'(3) show ?thesis
    proof (elim disjE conjE)
      assume "s' = s"
      with wf s'(1) show ?thesis by blast
    next
      assume grown: "bm_blocks s' = with_off s b (RoundUp (bb_Off (bm_blocks s b)) 1 + incr)"
          "\<forall>j. bh_Block (bm_heads s' j) = bh_Block (bm_heads s j)" "bm_next_bb s' = bm_next_bb s" "bm_next_bh s' = bm_next_bh s"
          "same_outside (insert (BhList i) (bucket_nodes (set ms))) (bm_links s) (bm_links s')"
          "lprev (bm_links s') (BbBufs b) = Some (BhList i)" "lprev (bm_links s') (BhList i) = Some (BhList i)"
      have "owned s' b i" using \<open>owned s b i\<close> grown(2,4) by (simp add: owned_def)
      then have "damaged s' b" unfolding damaged_def using grown(6,7) by (intro exI [of _ "{i}"]) simp
      then have "rings_ok s' (set (ms @ us)) (hs(b := None))"
        using grown(2,4) blk
        by (intro rings_ok_update [OF rings same_outside_mono [OF grown(5)]]) (auto simp: ring_nodes_def bucket_nodes_def)
      then have "bm_wf sbi start s' ms us (hs(b := None))" using s'(2) ids grown(3) by (simp add: bm_wf_def)
      with s'(1) grown(1,3) show ?thesis by auto
    qed
  qed
qed

subsection \<open>MapBh\<close>

text \<open>Block numbers are 32-bit: the blocks that still have no address must fit behind the tail.\<close>

definition unplaced_size :: "sbinfo \<Rightarrow> bufmgr \<Rightarrow> nat" where
  "unplaced_size sbi s = mapped_size sbi s (filter (\<lambda>b. bb_BlkAddr (bm_blocks s b) = NULL_ADDR) [1..<bm_next_bb s])"

definition space_left :: "sbinfo \<Rightarrow> bufmgr \<Rightarrow> bool" where
  "space_left sbi s \<longleftrightarrow> unat (TailBlkAddr s) + unplaced_size sbi s < 2 ^ 32 - 1"

lemma mapped_size_le:
  assumes "bm_inv sbi start s ms us"
  shows "mapped_size sbi s us \<le> unplaced_size sbi s"
proof -
  let ?vs = "filter (\<lambda>b. bb_BlkAddr (bm_blocks s b) = NULL_ADDR) [1..<bm_next_bb s]"
  have "distinct us" using bm_inv_distinct [OF assms] by auto
  then have "mapped_size sbi s us = (\<Sum>b\<in>set us. nblks sbi (bm_blocks s b))"
    by (simp add: mapped_size_def sum_list_distinct_conv_sum_set)
  also have "\<dots> \<le> (\<Sum>b\<in>set ?vs. nblks sbi (bm_blocks s b))"
    using bm_inv_ids(1) [OF assms] assms by (intro sum_mono2) (auto simp: bm_inv_def)
  also have "\<dots> = unplaced_size sbi s"
    by (simp add: unplaced_size_def mapped_size_def sum_list_distinct_conv_sum_set)
  finally show ?thesis .
qed

lemma MapBh_wf:
  assumes wf: "bm_wf sbi start s ms us hs" and space: "space_left sbi s" and fuel: "bm_next_bb s < fuel"
    and b: "case bb of None \<Rightarrow> given | Some b \<Rightarrow> b \<in> {1..<bm_next_bb s}"
  shows "\<exists>a s' vs ws. MapBh fuel sbi given bb s = Ret (a, s') \<and> us = vs @ ws \<and> bm_wf sbi start s' (ms @ vs) ws hs
     \<and> (\<forall>c. bb_BlkAddr (bm_blocks s c) \<noteq> NULL_ADDR \<longrightarrow> bb_BlkAddr (bm_blocks s' c) = bb_BlkAddr (bm_blocks s c)) \<and> bm_next_bb s' = bm_next_bb s"
proof -
  have inv: "bm_inv sbi start s ms us" and rings: "rings_ok s (set (ms @ us)) hs"
      and ids: "set (ms @ us) = {1..<bm_next_bb s}"
    by (rule bm_wfD [OF wf])+
  have mapped: ?thesis if "MapBh fuel sbi given bb s = Ret (a, s')" "us = vs @ ws" "bm_inv sbi start s' (ms @ vs) ws"
      "bm_heads s' = bm_heads s" "bm_next_bh s' = bm_next_bh s" "\<forall>c. c \<notin> set vs \<longrightarrow> bm_blocks s' c = bm_blocks s c"
      "bm_next_bb s' = bm_next_bb s" "same_outside (bucket_nodes M) (bm_links s) (bm_links s')" for a s' vs ws M
  proof -
    have "rings_ok s' (set ((ms @ vs) @ ws)) hs" using rings_ok_map [OF rings that(8,4,5)] that(2) by simp
    then have "bm_wf sbi start s' (ms @ vs) ws hs" using that(2,3,7) ids by (simp add: bm_wf_def)
    moreover have "bb_BlkAddr (bm_blocks s' c) = bb_BlkAddr (bm_blocks s c)" if "bb_BlkAddr (bm_blocks s c) \<noteq> NULL_ADDR" for c
    proof -
      have "c \<notin> set vs" using inv that \<open>us = vs @ ws\<close> by (auto simp: bm_inv_def)
      then show ?thesis using \<open>\<forall>c. c \<notin> set vs \<longrightarrow> bm_blocks s' c = bm_blocks s c\<close> by simp
    qed
    ultimately show ?thesis using that(1,2,7) by blast
  qed
  have fits: "unat (TailBlkAddr s) + mapped_size sbi s us < 2 ^ 32 - 1"
    using mapped_size_le [OF inv] space by (simp add: space_left_def)
  show ?thesis
  proof (cases bb)
    case None
    then have g: "given = True" using b by simp
    obtain s' where "MapBh fuel sbi True None s = Ret (TailBlkAddr s', s')" "bm_inv sbi start s' (ms @ us) []"
        "bm_heads s' = bm_heads s" "\<forall>c. c \<notin> set us \<longrightarrow> bm_blocks s' c = bm_blocks s c" "bm_next_bh s' = bm_next_bh s" "bm_next_bb s' = bm_next_bb s"
        "same_outside (bucket_nodes (set (ms @ us))) (bm_links s) (bm_links s')"
      using MapBh_all [OF inv fits, of fuel] bm_inv_ids(2) [OF inv] fuel by auto
    then show ?thesis using None g by (intro mapped [where vs = us and ws = "[]"]) simp_all
  next
    case (Some c)
    have "c \<in> set (ms @ us)" using b Some unfolding ids by simp
    then consider "c \<in> set ms" | xs ys where "us = xs @ c # ys" by (auto dest: split_list)
    then show ?thesis
    proof cases
      case 1
      then have "bb_BlkAddr (bm_blocks s c) \<noteq> NULL_ADDR" "manager_of s c = Ret ()"
        using inv by (auto simp: bm_inv_def block_ok_def manager_of_def)
      then have "MapBh fuel sbi given bb s = Ret (bb_BlkAddr (bm_blocks s c), s)" by (simp add: MapBh_def Some)
      with wf show ?thesis by fastforce
    next
      case 2
      have inv2: "bm_inv sbi start s ms (xs @ c # ys)" using inv 2 by simp
      have "mapped_size sbi s (xs @ [c]) \<le> mapped_size sbi s us" by (simp add: 2 mapped_size_def)
      then have fits2: "unat (TailBlkAddr s) + mapped_size sbi s (xs @ [c]) < 2 ^ 32 - 1" using fits by linarith
      have fuel2: "length xs + 1 < fuel" using bm_inv_ids(2) [OF inv] fuel 2 by simp
      obtain s' where "MapBh fuel sbi given (Some c) s = Ret (TailBlkAddr s', s')" "bm_inv sbi start s' (ms @ xs @ [c]) ys"
          "bm_heads s' = bm_heads s" "\<forall>d. d \<notin> set (xs @ [c]) \<longrightarrow> bm_blocks s' d = bm_blocks s d" "bm_next_bh s' = bm_next_bh s" "bm_next_bb s' = bm_next_bb s"
          "same_outside (bucket_nodes (set (ms @ xs @ [c]))) (bm_links s) (bm_links s')"
        using MapBh_unmapped_block [OF inv2 fits2 fuel2] by blast
      then show ?thesis using Some 2 by (intro mapped [where vs = "xs @ [c]" and ws = ys]) simp_all
    qed
  qed
qed

subsection \<open>BDrop\<close>

text \<open>The one drop that is excluded: revoking the last head of a block that ends at the tail moves the
  tail back while the block stays in the list.\<close>

definition revokes_extent :: "sbinfo \<Rightarrow> bufmgr \<Rightarrow> nat \<Rightarrow> nat \<Rightarrow> bool \<Rightarrow> bool" where
  "revokes_extent sbi s b i revoke \<longleftrightarrow> revoke \<and> dll (bm_links s) (BbBufs b) [BhList i]
     \<and> bb_BlkAddr (bm_blocks s b) \<noteq> NULL_ADDR
     \<and> TailBlkAddr s = bb_BlkAddr (bm_blocks s b) + ucast (BlkRoundUp sbi (bb_Off (bm_blocks s b)))"

lemma BDrop_wf:
  assumes wf: "bm_wf sbi start s ms us hs" and i: "live s b i"
    and nr: "\<not> revokes_extent sbi s b i revoke"
  shows "\<exists>s' hs'. BDrop sbi i revoke s = Ret s' \<and> bm_wf sbi start s' ms us hs' \<and> bm_blocks s' = bm_blocks s
     \<and> bm_next_bb s' = bm_next_bb s"
proof -
  note b = live_ring(1) [OF wf i]
  have inv: "bm_inv sbi start s ms us" and rings: "rings_ok s (set (ms @ us)) hs"
      and ids: "set (ms @ us) = {1..<bm_next_bb s}"
    by (rule bm_wfD [OF wf])+
  have blk: "bh_Block (bm_heads s i) = Some b" using i by (simp add: live_def)
  obtain xs ys where split: "hs b = Some (xs @ i # ys)" using live_ring(2) [OF wf i] by blast
  then have ring: "dll (bm_links s) (BbBufs b) (map BhList (xs @ i # ys))" and own: "\<forall>j\<in>set (xs @ i # ys). owned s b j"
    using rings b by (auto simp: rings_ok_def dest!: bspec [where x = b])
  have "\<not> (xs @ ys = [] \<and> revoke \<and> bb_BlkAddr (bm_blocks s b) \<noteq> NULL_ADDR
     \<and> TailBlkAddr s = bb_BlkAddr (bm_blocks s b) + ucast (BlkRoundUp sbi (bb_Off (bm_blocks s b))))"
    using nr ring by (auto simp: revokes_extent_def)
  then obtain s' where s': "BDrop sbi i revoke s = Ret s'" "dll (bm_links s') (BbBufs b) (map BhList (xs @ ys))"
      "bm_blocks s' = bm_blocks s" "bm_inv sbi start s' ms us"
      "same_outside ({BhList i, BbBufs b} \<union> BhList ` set (xs @ ys)) (bm_links s) (bm_links s')"
      "\<forall>j. bh_Block (bm_heads s' j) = bh_Block (bm_heads s j)" "bm_next_bh s' = bm_next_bh s" "bm_next_bb s' = bm_next_bb s"
    using BDrop_spec [OF inv b blk ring, of revoke] by blast
  have "rings_ok s' (set (ms @ us)) (hs(b := Some (xs @ ys)))"
  proof (rule rings_ok_update [OF rings same_outside_mono [OF s'(5)]])
    show "{BhList i, BbBufs b} \<union> BhList ` set (xs @ ys) \<subseteq> ring_nodes s b" using own by (auto simp: ring_nodes_def owned_def)
    show "ring_ok s' b (Some (xs @ ys))" using s'(2,6,7) own by (auto simp: owned_def)
  qed (use s'(6,7) in auto)
  with s'(1,3,4,8) ids show ?thesis by (auto simp: bm_wf_def)
qed

subsection \<open>The other calls\<close>

lemma ErofsBfree_empty:
  assumes "bm_wf sbi start s ms us hs" "0 < b" "b < bm_next_bb s" "dll (bm_links s) (BbBufs b) []"
  shows "ErofsBfree b s = Ret s"
proof -
  have "b \<in> set (ms @ us)" unfolding bm_wfD(3) [OF assms(1)] using assms(2,3) by simp
  then have "manager_of s b = Ret ()" using bm_wfD(1) [OF assms(1)] by (auto simp: bm_inv_def block_ok_def manager_of_def)
  then show ?thesis using IsListEmpty_dll [OF assms(4)] by (simp add: ErofsBfree_def)
qed

lemma set_op_wf:
  assumes wf: "bm_wf sbi start s ms us hs"
  shows "bm_wf sbi start (upd_bh i (\<lambda>x. x\<lparr>bh_Op := op\<rparr>) s) ms us hs"
proof (rule bm_wfI)
  let ?s = "upd_bh i (\<lambda>x. x\<lparr>bh_Op := op\<rparr>) s"
  show "bm_inv sbi start ?s ms us"
    by (rule bm_inv_frame [OF bm_wfD(1) [OF wf], where A = "{}"]) (simp_all add: upd_bh_def)
  show "rings_ok ?s (set (ms @ us)) hs"
    unfolding rings_ok_def
  proof
    fix c assume "c \<in> set (ms @ us)"
    then have "ring_ok s c (hs c)" using bm_wfD(2) [OF wf] unfolding rings_ok_def by blast
    then show "ring_ok ?s c (hs c)"
      by (rule ring_ok_frame [where A = "{}"]) (auto simp: owned_def upd_bh_def same_outside_def)
  qed
  show "set (ms @ us) = {1..<bm_next_bb ?s}" using bm_wfD(3) [OF wf] by (simp add: upd_bh_def)
qed

section \<open>Reachable managers\<close>

text \<open>
  One call within the callers' limits: the fuel covers the blocks, the sizes keep every counter from wrapping,
  and heads are only used while an intact ring of their block holds them.  The callers also set the
  operations of a head.  \<open>ErofsBfree\<close> is called for blocks without heads; \<open>ErofsBflush\<close> for the manager that
  holds the superblock alone, as at the end of a run.
\<close>

inductive bm_step :: "nat \<Rightarrow> sbinfo \<Rightarrow> bufmgr \<Rightarrow> bufmgr \<Rightarrow> bool" for fuel :: nat and sbi :: sbinfo where
  alloc: "no_search sbi ty sz req inl \<Longrightarrow> bm_next_bb s < fuel
     \<Longrightarrow> Balloc fuel sbi ty sz req inl s = Ret (r, s') \<Longrightarrow> bm_step fuel sbi s s'"
| attach: "live s b i \<Longrightarrow> attach_room sbi s b (ucast n) (of_int (fst (GetAlignSize sbi ty)))
     \<Longrightarrow> Battach sbi i ty n s = Ret (a, s') \<Longrightarrow> bm_step fuel sbi s s'"
| balloon: "live s b i \<Longrightarrow> attach_room sbi s b incr 1 \<Longrightarrow> BhBalloon sbi i incr s = Ret (e, s') \<Longrightarrow> bm_step fuel sbi s s'"
| map_all: "space_left sbi s \<Longrightarrow> bm_next_bb s < fuel
     \<Longrightarrow> MapBh fuel sbi True None s = Ret (t, s') \<Longrightarrow> bm_step fuel sbi s s'"
| map_to: "space_left sbi s \<Longrightarrow> bm_next_bb s < fuel \<Longrightarrow> 0 < b \<Longrightarrow> b < bm_next_bb s
     \<Longrightarrow> MapBh fuel sbi given (Some b) s = Ret (t, s') \<Longrightarrow> bm_step fuel sbi s s'"
| drop: "live s b i \<Longrightarrow> \<not> revokes_extent sbi s b i revoke
     \<Longrightarrow> BDrop sbi i revoke s = Ret s' \<Longrightarrow> bm_step fuel sbi s s'"
| free: "0 < b \<Longrightarrow> b < bm_next_bb s \<Longrightarrow> dll (bm_links s) (BbBufs b) [] \<Longrightarrow> ErofsBfree b s = Ret s' \<Longrightarrow> bm_step fuel sbi s s'"
| flush: "sb_reserved sbi s \<Longrightarrow> 0 < fuel \<Longrightarrow> ErofsBflush fuel sbi None s w = Ret (e, s', w') \<Longrightarrow> bm_step fuel sbi s s'"
| set_op: "bm_step fuel sbi s (upd_bh i (\<lambda>x. x\<lparr>bh_Op := op\<rparr>) s)"

inductive bm_reach :: "nat \<Rightarrow> sbinfo \<Rightarrow> u32 \<Rightarrow> bufmgr \<Rightarrow> bool" for fuel :: nat and sbi :: sbinfo and start :: u32 where
  init: "ErofsBufferInit start = Ret s \<Longrightarrow> bm_reach fuel sbi start s"
| step: "bm_reach fuel sbi start s \<Longrightarrow> bm_step fuel sbi s s' \<Longrightarrow> bm_reach fuel sbi start s'"

definition bm_good :: "sbinfo \<Rightarrow> nat \<Rightarrow> bufmgr \<Rightarrow> bool" where
  "bm_good sbi start s \<longleftrightarrow> (\<exists>ms us hs. bm_wf sbi start s ms us hs)"

lemma bm_good_init:
  assumes "small_blocks sbi" "ErofsBufferInit start = Ret s"
  shows "bm_good sbi (unat start) s"
proof -
  have "bm_inv sbi (unat start) s [] []" "bm_next_bb s = 1"
    using ErofsBufferInit_inv [OF assms(1), of start] assms(2) by auto
  then have "bm_wf sbi (unat start) s [] [] (\<lambda>b. Some [])" by (simp add: bm_wf_def rings_ok_def)
  then show ?thesis unfolding bm_good_def by blast
qed

text \<open>What a step keeps: the invariant, and the address of every block that has one.\<close>

definition placed_stay :: "bufmgr \<Rightarrow> bufmgr \<Rightarrow> bool" where
  "placed_stay s s' \<longleftrightarrow> bm_next_bb s \<le> bm_next_bb s' \<and> (\<forall>b < bm_next_bb s. bb_BlkAddr (bm_blocks s b) \<noteq> NULL_ADDR
     \<longrightarrow> bb_BlkAddr (bm_blocks s' b) = bb_BlkAddr (bm_blocks s b))"

lemma bm_step_good:
  assumes "bm_step fuel sbi s s'" "bm_good sbi start s"
  shows "bm_good sbi start s' \<and> placed_stay s s'"
proof -
  obtain ms us hs where wf: "bm_wf sbi start s ms us hs" using assms(2) by (auto simp: bm_good_def)
  note ids = bm_wfD(3) [OF wf]
  show ?thesis
    using assms(1)
  proof cases
    case (alloc ty sz req inl r)
    then obtain us' hs' where "bm_wf sbi start s' ms us' hs'" "\<forall>b\<in>set (ms @ us). bm_blocks s' b = bm_blocks s b"
        "bm_next_bb s' = Suc (bm_next_bb s)"
      using Balloc_wf [OF wf alloc(1,2)] by auto
    moreover have "placed_stay s s'"
      unfolding placed_stay_def
    proof (intro conjI allI impI)
      fix b assume "b < bm_next_bb s" "bb_BlkAddr (bm_blocks s b) \<noteq> NULL_ADDR"
      moreover have "bb_BlkAddr (bm_blocks s 0) = NULL_ADDR" "bb_BlkAddr (bm_blocks s' 0) = NULL_ADDR"
        using bm_wfD(1) [OF wf] bm_wfD(1) [OF \<open>bm_wf sbi start s' ms us' hs'\<close>] by (simp_all add: bm_inv_def)
      ultimately have "b \<in> set (ms @ us)" unfolding ids by (cases b) auto
      then show "bb_BlkAddr (bm_blocks s' b) = bb_BlkAddr (bm_blocks s b)"
        using \<open>\<forall>b\<in>set (ms @ us). bm_blocks s' b = bm_blocks s b\<close> by simp
    qed (use \<open>bm_next_bb s' = Suc (bm_next_bb s)\<close> in simp)
    ultimately show ?thesis by (auto simp: bm_good_def)
  next
    case (attach b i n ty a)
    with Battach_wf [OF wf attach(1,2)] show ?thesis by (auto simp: bm_good_def placed_stay_def)
  next
    case (map_all t)
    with MapBh_wf [OF wf map_all(1,2), where bb = None and given = True] show ?thesis by (auto simp: bm_good_def placed_stay_def)
  next
    case (map_to b given t)
    then have "b \<in> {1..<bm_next_bb s}" by simp
    with map_to MapBh_wf [OF wf map_to(1,2), where bb = "Some b" and given = given] show ?thesis
      by (auto simp: bm_good_def placed_stay_def)
  next
    case (drop b i revoke)
    with BDrop_wf [OF wf drop(1,2)] show ?thesis by (auto simp: bm_good_def placed_stay_def)
  next
    case (balloon b i incr e)
    with BhBalloon_wf [OF wf balloon(1,2)] show ?thesis by (auto simp: bm_good_def placed_stay_def)
  next
    case (free b)
    with ErofsBfree_empty [OF wf] assms(2) show ?thesis by (simp add: placed_stay_def)
  next
    case (flush w e w')
    with ErofsBflush_sb_reserved [OF flush(1,2)] assms(2) show ?thesis by (simp add: placed_stay_def)
  next
    case (set_op i op)
    have "bm_good sbi start s'" unfolding set_op bm_good_def using set_op_wf [OF wf] by blast
    then show ?thesis by (simp add: set_op placed_stay_def upd_bh_def)
  qed
qed

lemma bm_reach_good:
  assumes "small_blocks sbi" "bm_reach fuel sbi start s"
  shows "bm_good sbi (unat start) s"
  using assms(2) by induction (use bm_good_init [OF assms(1)] bm_step_good in blast)+

text \<open>The manager every run of the program starts from: \<open>ReserveSuperblock\<close> is an allocation, a balloon and a
  mapping, so what it leaves is reachable.\<close>

lemma ReserveSuperblock_reach:
  assumes sm: "small_blocks sbi" and init: "ErofsBufferInit 0 = Ret s" and fuel: "2 < fuel"
  shows "\<exists>s'. ReserveSuperblock fuel sbi s = Ret (Inr 0, s') \<and> sb_reserved sbi s' \<and> bm_reach fuel sbi 0 s'
     \<and> bm_next_bb s' = 2 \<and> bm_next_bh s' = 1"
proof -
  have n: "bm_next_bb s = 1" using ErofsBufferInit_inv [OF sm, of 0] init by auto
  obtain s1 r s3 s' where calls: "Balloc fuel sbi META 0 0 0 s = Ret (Inr 0, s1)"
      "BhBalloon sbi 0 1152 (upd_bh 0 (\<lambda>x. x\<lparr>bh_Op := Some SkipWriteOps\<rparr>) s1) = Ret (r, s3)"
      "MapBh fuel sbi False (Some 1) s3 = Ret (TailBlkAddr s', s')"
    and res: "ReserveSuperblock fuel sbi s = Ret (Inr 0, s')" "sb_reserved sbi s'" "bm_next_bb s' = 2" "bm_next_bh s' = 1"
    and s1: "bm_blocks s1 1 = \<lparr>bb_BlkAddr = NULL_ADDR, bb_Type = META, bb_Off = 0, bb_FsPrivate = True\<rparr>" "bm_next_bb s1 = 2"
      "bm_heads s1 0 = \<lparr>bh_Block = Some 1, bh_Off = 0, bh_Op = None\<rparr>" "dll (bm_links s1) (BbBufs 1) [BhList 0]"
    and s3: "TailBlkAddr s3 = 0" "bm_next_bb s3 = 2" "nblks sbi (bm_blocks s3 1) = sb_blocks sbi"
    using ReserveSuperblock_calls [OF assms] by blast
  let ?s2 = "upd_bh 0 (\<lambda>x. x\<lparr>bh_Op := Some SkipWriteOps\<rparr>) s1"
  have "bm_step fuel sbi s s1"
    by (rule bm_step.alloc [OF _ _ calls(1)]) (use n fuel in \<open>simp_all add: no_search_def GetAlignSize_def\<close>)
  then have "bm_reach fuel sbi 0 ?s2" using init by (blast intro: bm_reach.intros bm_step.set_op)
  moreover have "bm_step fuel sbi ?s2 s3"
  proof (rule bm_step.balloon [OF _ _ calls(2)])
    have "dll (bm_links ?s2) (BbBufs 1) (map BhList ([] @ 0 # []))" using s1(4) by (simp add: upd_bh_def)
    then have "\<exists>xs ys. dll (bm_links ?s2) (BbBufs 1) (map BhList (xs @ 0 # ys))" by blast
    then show "live ?s2 1 0" using s1(2,3) by (simp add: live_def upd_bh_def del: One_nat_def)
    show "attach_room sbi ?s2 1 1152 1" using s1(1) by (simp add: attach_room_def upd_bh_def del: One_nat_def)
  qed
  moreover have "bm_step fuel sbi s3 s'"
  proof (rule bm_step.map_to [OF _ _ _ _ calls(3)])
    have l: "[1..<2 :: nat] = [1]" by (simp add: upt_rec)
    have "unplaced_size sbi s3 \<le> sb_blocks sbi"
      unfolding unplaced_size_def mapped_size_def s3(2) l using s3(3) by (simp del: One_nat_def)
    then show "space_left sbi s3" using s3(1) sb_blocks_bounds(2) [OF sm] by (simp add: space_left_def)
  qed (use s3(2) fuel in auto)
  ultimately have "bm_reach fuel sbi 0 s'" by (blast intro: bm_reach.step)
  with res show ?thesis by blast
qed

text \<open>The layout of a good manager: the blocks with an address, in list order, lie one behind the other
  from \<open>start\<close> to the tail.\<close>

lemma bm_good_layout:
  assumes "bm_good sbi start s"
  shows "\<exists>ms. distinct ms \<and> set ms = {b. 0 < b \<and> b < bm_next_bb s \<and> bb_BlkAddr (bm_blocks s b) \<noteq> NULL_ADDR}
     \<and> laid_out sbi (bm_blocks s) start ms (unat (TailBlkAddr s))"
proof -
  obtain ms us hs where wf: "bm_wf sbi start s ms us hs" using assms by (auto simp: bm_good_def)
  note inv = bm_wfD(1) [OF wf] and ids = bm_wfD(3) [OF wf]
  have a: "bb_BlkAddr (bm_blocks s b) \<noteq> NULL_ADDR" if "b \<in> set ms" for b using inv that by (simp add: bm_inv_def)
  have u: "bb_BlkAddr (bm_blocks s b) = NULL_ADDR" if "b \<in> set us" for b using inv that by (simp add: bm_inv_def)
  have "set ms = {b \<in> set (ms @ us). bb_BlkAddr (bm_blocks s b) \<noteq> NULL_ADDR}" using a u by auto
  also have "\<dots> = {b. 0 < b \<and> b < bm_next_bb s \<and> bb_BlkAddr (bm_blocks s b) \<noteq> NULL_ADDR}" unfolding ids by auto
  finally show ?thesis using bm_inv_distinct [OF inv] inv by (intro exI [of _ ms]) (auto simp: bm_inv_def)
qed

lemma placed_disjoint:
  assumes good: "bm_good sbi start s" and b: "0 < b" "b < bm_next_bb s" "bb_BlkAddr (bm_blocks s b) \<noteq> NULL_ADDR"
  shows "start \<le> unat (bb_BlkAddr (bm_blocks s b))"
    and "unat (bb_BlkAddr (bm_blocks s b)) + nblks sbi (bm_blocks s b) \<le> unat (TailBlkAddr s)"
    and "0 < c \<Longrightarrow> c < bm_next_bb s \<Longrightarrow> bb_BlkAddr (bm_blocks s c) \<noteq> NULL_ADDR \<Longrightarrow> b \<noteq> c \<Longrightarrow>
       unat (bb_BlkAddr (bm_blocks s b)) + nblks sbi (bm_blocks s b) \<le> unat (bb_BlkAddr (bm_blocks s c))
     \<or> unat (bb_BlkAddr (bm_blocks s c)) + nblks sbi (bm_blocks s c) \<le> unat (bb_BlkAddr (bm_blocks s b))"
proof -
  obtain ms where ms: "set ms = {b. 0 < b \<and> b < bm_next_bb s \<and> bb_BlkAddr (bm_blocks s b) \<noteq> NULL_ADDR}"
      "laid_out sbi (bm_blocks s) start ms (unat (TailBlkAddr s))"
    using bm_good_layout [OF good] by blast
  have bm: "b \<in> set ms" using b ms(1) by simp
  then show "start \<le> unat (bb_BlkAddr (bm_blocks s b))"
      "unat (bb_BlkAddr (bm_blocks s b)) + nblks sbi (bm_blocks s b) \<le> unat (TailBlkAddr s)"
    using laid_out_bounds [OF ms(2)] by blast+
  assume "0 < c" "c < bm_next_bb s" "bb_BlkAddr (bm_blocks s c) \<noteq> NULL_ADDR" "b \<noteq> c"
  then have "c \<in> set ms" using ms(1) by simp
  with bm obtain i j where ij: "b = ms ! i" "c = ms ! j" "i < length ms" "j < length ms" by (auto simp: in_set_conv_nth)
  with \<open>b \<noteq> c\<close> have "i \<noteq> j" by blast
  then have "i < j \<or> j < i" by linarith
  then show "unat (bb_BlkAddr (bm_blocks s b)) + nblks sbi (bm_blocks s b) \<le> unat (bb_BlkAddr (bm_blocks s c))
     \<or> unat (bb_BlkAddr (bm_blocks s c)) + nblks sbi (bm_blocks s c) \<le> unat (bb_BlkAddr (bm_blocks s b))"
    using laid_out_disjoint [OF ms(2)] ij by blast
qed

text \<open>Every call within the limits returns.\<close>

lemma bm_good_progress:
  assumes "bm_good sbi start s" "bm_next_bb s < fuel"
  shows "no_search sbi ty sz req inl \<Longrightarrow> returns (Balloc fuel sbi ty sz req inl s)"
    and "live s b i \<Longrightarrow> attach_room sbi s b (ucast n) (of_int (fst (GetAlignSize sbi ty))) \<Longrightarrow> returns (Battach sbi i ty n s)"
    and "live s b i \<Longrightarrow> attach_room sbi s b incr 1 \<Longrightarrow> returns (BhBalloon sbi i incr s)"
    and "space_left sbi s \<Longrightarrow> returns (MapBh fuel sbi True None s)"
    and "space_left sbi s \<Longrightarrow> 0 < b \<Longrightarrow> b < bm_next_bb s \<Longrightarrow> returns (MapBh fuel sbi given (Some b) s)"
    and "live s b i \<Longrightarrow> \<not> revokes_extent sbi s b i revoke \<Longrightarrow> returns (BDrop sbi i revoke s)"
proof -
  obtain ms us hs where wf: "bm_wf sbi start s ms us hs" using assms(1) by (auto simp: bm_good_def)
  show "returns (Balloc fuel sbi ty sz req inl s)" if "no_search sbi ty sz req inl"
    using Balloc_wf [OF wf that assms(2)] by (auto simp: returns_def)
  show "returns (Battach sbi i ty n s)" if "live s b i" "attach_room sbi s b (ucast n) (of_int (fst (GetAlignSize sbi ty)))"
    using Battach_wf [OF wf that] by (auto simp: returns_def)
  show "returns (BhBalloon sbi i incr s)" if "live s b i" "attach_room sbi s b incr 1"
    using BhBalloon_wf [OF wf that] by (auto simp: returns_def)
  show "returns (MapBh fuel sbi True None s)" if "space_left sbi s"
    using MapBh_wf [OF wf that assms(2), where bb = None and given = True] by (auto simp: returns_def)
  show "returns (MapBh fuel sbi given (Some b) s)" if "space_left sbi s" "0 < b" "b < bm_next_bb s"
    using MapBh_wf [OF wf that(1) assms(2), where bb = "Some b" and given = given] that(2,3) by (auto simp: returns_def)
  show "returns (BDrop sbi i revoke s)" if "live s b i" "\<not> revokes_extent sbi s b i revoke"
    using BDrop_wf [OF wf that] by (auto simp: returns_def)
qed

text \<open>A request for part of a block, in terms of the blocks themselves.\<close>

lemma bm_good_shares:
  assumes "bm_good sbi start s" "ty0 \<in> {META, INODE, XATTR, DEVT}" "shares_block sbi (fst (GetAlignSize sbi ty0)) sz req inl"
  shows "Balloc fuel sbi ty0 sz req inl s =
     (if \<exists>b. 0 < b \<and> b < bm_next_bb s \<and> bb_BlkAddr (bm_blocks s b) \<noteq> NULL_ADDR \<and> bb_Type (bm_blocks s b) = META
         \<and> 0 < unat (bb_Off (bm_blocks s b) AND ucast (ErofsBlkSiz sbi - 1))
         \<and> unat (bb_Off (bm_blocks s b) AND ucast (ErofsBlkSiz sbi - 1)) \<le> searched_levels sbi (fst (GetAlignSize sbi ty0)) sz req inl
      then Panic (Bug ''cur.Type != btype'') else NoFuel)"
proof -
  obtain ms us hs where wf: "bm_wf sbi start s ms us hs" using assms(1) by (auto simp: bm_good_def)
  note inv = bm_wfD(1) [OF wf]
  have "b \<in> set ms \<longleftrightarrow> 0 < b \<and> b < bm_next_bb s \<and> bb_BlkAddr (bm_blocks s b) \<noteq> NULL_ADDR" for b
  proof -
    have "b \<in> set ms \<or> b \<in> set us \<longleftrightarrow> 0 < b \<and> b < bm_next_bb s"
      using bm_wfD(3) [OF wf] by (auto simp: set_eq_iff Suc_le_eq)
    then show ?thesis using inv by (auto simp: bm_inv_def)
  qed
  then show ?thesis using Balloc_shares [OF inv assms(2,3)] by (simp add: filed_below_def Bex_def conj_assoc)
qed

end
