(* ===== verification/Inode.thy ===== *)
theory Inode
  imports Config BufMgr
begin

text \<open>
  The inode of \<open>pkg/types/inode.go\<close> and the functions of \<open>inode1.go\<close> and \<open>helper.go\<close> that compute from
  one inode alone: its type tests, the choice between the compact and the extended on-disk form,
  ownership and time stamps, device numbers.  The \<open>Sbi\<close> pointer of an inode is the one superblock
  information of a run, an argument here; list heads inside inodes belong to theory \<open>InodeTable\<close>.
\<close>

section \<open>Sizes of Go structs\<close>

text \<open>\<open>unsafe.Sizeof\<close>: fields are laid out in order, each at a multiple of its alignment, and the size of
  a struct is a multiple of its own alignment.\<close>

datatype gotype = Scalar nat | Array nat gotype | Struct "gotype list"

definition align_up :: "nat \<Rightarrow> nat \<Rightarrow> nat" where
  "align_up a n = (n + (a - 1)) div a * a"

primrec go_dims :: "gotype \<Rightarrow> nat \<times> nat" where
  "go_dims (Scalar n) = (n, n)"
| "go_dims (Array n t) = (n * fst (go_dims t), snd (go_dims t))"
| "go_dims (Struct ts) =
     (let ds = map go_dims ts; al = foldr (max \<circ> snd) ds 1
      in (align_up al (foldl (\<lambda>off d. align_up (snd d) off + fst d) 0 ds), al))"

definition go_sizeof :: "gotype \<Rightarrow> nat" where
  "go_sizeof t = fst (go_dims t)"

text \<open>The two on-disk forms.  The C union \<open>erofs_inode_i_u\<close> is a struct of all its members here.\<close>

definition ErofsInodeIU :: gotype where
  "ErofsInodeIU = Struct [Scalar 4, Scalar 4, Scalar 4, Struct [Scalar 2, Scalar 2]]"

definition ErofsInodeExtended :: gotype where
  "ErofsInodeExtended = Struct
     [Scalar 2, Scalar 2, Scalar 2, Scalar 2, Scalar 8, ErofsInodeIU,
      Scalar 4, Scalar 4, Scalar 4, Scalar 8, Scalar 4, Scalar 4, Array 16 (Scalar 1)]"

definition ErofsInodeCompact :: gotype where
  "ErofsInodeCompact = Struct
     [Scalar 2, Scalar 2, Scalar 2, Scalar 2, Scalar 4, Scalar 4, ErofsInodeIU,
      Scalar 4, Scalar 2, Scalar 2, Scalar 4]"

lemma inode_sizes: "go_sizeof ErofsInodeExtended = 80" "go_sizeof ErofsInodeCompact = 44"
  by code_simp+

section \<open>The inode\<close>

text \<open>\<open>syscall.Stat_t\<close>; \<open>Size\<close> and the time stamps are \<open>int64\<close>.\<close>

record stat =
  st_Dev :: u64
  st_Ino :: u64
  st_Nlink :: u64
  st_Mode :: u32
  st_Uid :: u32
  st_Gid :: u32
  st_Rdev :: u64
  st_Size :: u64
  st_Mtim_Sec :: u64
  st_Mtim_Nsec :: u64

text \<open>An \<open>ErofsDiskbuf\<close>; its stream, an \<open>ErofsDiskBufStrm\<close>, is known by number.\<close>

record diskbuf =
  db_Sp :: "nat option"
  db_Offset :: u64

text \<open>Inodes, blocks and heads are known by number; \<open>FragmentSize\<close> and \<open>Fragmentoff\<close> are \<open>int64\<close>, read
  with \<open>sint\<close>, and \<open>ICount\<close> is \<open>int32\<close>.\<close>

record inode =
  in_Flags :: u32
  in_NextDirWrite :: "nat option"
  in_ICount :: u32
  in_IParent :: "nat option"
  in_Dev :: u32
  in_IMode :: u16
  in_ISize :: u64
  in_IIno0 :: u64
  in_IIno1 :: u64
  in_IUid :: u32
  in_IGid :: u32
  in_IMtime :: u64
  in_IMtimeNsec :: u32
  in_INlink :: u32
  in_IBlkaddr :: u32
  in_IBlocks :: u32
  in_IRdev :: u32
  in_ChunkFormat :: u16
  in_ChunkBits :: u8
  in_ISrcpath :: string
  in_ILink :: string
  in_IDiskbuf :: "diskbuf option"
  in_DataLayout :: u8
  in_InodeIsize :: u8
  in_IdataSize :: u16
  in_DataSource :: u8
  in_CompressedIdata :: bool
  in_LazyTailblock :: bool
  in_Opaque :: bool
  in_Whiteouts :: bool
  in_XattrIsize :: u32
  in_ExtentIsize :: u32
  in_XattrSharedCount :: u32
  in_Nid :: u64
  in_Bh :: "nat option"
  in_BhInline :: "nat option"
  in_BhData :: "nat option"
  in_Idata :: "bytes option"
  in_EofTailraw :: "bytes option"
  in_EofTailrawsize :: u32
  in_ZAdvise :: u16
  in_ZAlgorithmType :: "u8 \<times> u8"
  in_ZLogicalClusterbits :: u8
  in_ZPhysicalClusterblks :: u8
  in_ZTailextentHeadlcn :: u64
  in_FragmentSize :: u64
  in_ZIdataoff :: u32
  in_Fragmentoff :: u64
  in_Compressmeta :: "bytes option"
  in_Capabilities :: u64

definition zero_inode :: inode where
  "zero_inode = \<lparr>
     in_Flags = 0, in_NextDirWrite = None, in_ICount = 0, in_IParent = None, in_Dev = 0, in_IMode = 0,
     in_ISize = 0, in_IIno0 = 0, in_IIno1 = 0, in_IUid = 0, in_IGid = 0, in_IMtime = 0,
     in_IMtimeNsec = 0, in_INlink = 0, in_IBlkaddr = 0, in_IBlocks = 0, in_IRdev = 0,
     in_ChunkFormat = 0, in_ChunkBits = 0, in_ISrcpath = '''', in_ILink = '''', in_IDiskbuf = None,
     in_DataLayout = 0, in_InodeIsize = 0, in_IdataSize = 0, in_DataSource = 0,
     in_CompressedIdata = False, in_LazyTailblock = False, in_Opaque = False, in_Whiteouts = False,
     in_XattrIsize = 0, in_ExtentIsize = 0, in_XattrSharedCount = 0, in_Nid = 0, in_Bh = None,
     in_BhInline = None, in_BhData = None, in_Idata = None, in_EofTailraw = None,
     in_EofTailrawsize = 0, in_ZAdvise = 0, in_ZAlgorithmType = (0, 0), in_ZLogicalClusterbits = 0,
     in_ZPhysicalClusterblks = 0, in_ZTailextentHeadlcn = 0, in_FragmentSize = 0, in_ZIdataoff = 0,
     in_Fragmentoff = 0, in_Compressmeta = None, in_Capabilities = 0\<rparr>"

text \<open>\<open>NewInode\<close> at a given time of the clock, its second and nanosecond.\<close>

definition NewInode :: "u64 \<Rightarrow> u32 \<Rightarrow> inode" where
  "NewInode sec nsec = zero_inode\<lparr>in_DataLayout := EROFS_INODE_FLAT_PLAIN, in_IMtime := sec, in_IMtimeNsec := nsec\<rparr>"

definition IsDir :: "inode \<Rightarrow> bool" where
  "IsDir i \<longleftrightarrow> in_IMode i AND 0xF000 = 0x4000"

definition IsReg :: "inode \<Rightarrow> bool" where
  "IsReg i \<longleftrightarrow> in_IMode i AND 0xF000 = 0x8000"

definition IsLnk :: "inode \<Rightarrow> bool" where
  "IsLnk i \<longleftrightarrow> in_IMode i AND 0xF000 = 0xA000"

definition IsCompressed :: "inode \<Rightarrow> bool" where
  "IsCompressed i \<longleftrightarrow>
     in_DataLayout i = EROFS_INODE_COMPRESSED_FULL \<or> in_DataLayout i = EROFS_INODE_COMPRESSED_COMPACT"

text \<open>\<open>SetRoot\<close>; \<open>self\<close> is the number of the inode itself.\<close>

definition SetRoot :: "nat \<Rightarrow> inode \<Rightarrow> inode" where
  "SetRoot self i = i\<lparr>in_IMode := 0x41ED, in_INlink := 2, in_IParent := Some self\<rparr>"

text \<open>The parent pointer with its lowest bit cleared: inodes have even addresses, so this is the parent.\<close>

definition erofsParentInode :: "inode \<Rightarrow> nat option" where
  "erofsParentInode i = in_IParent i"

definition IS_ROOT :: "nat \<Rightarrow> inode \<Rightarrow> bool" where
  "IS_ROOT self i \<longleftrightarrow> Some self = erofsParentInode i"

text \<open>All of the body of \<open>ErofsReadInodeFromDisk\<close> but its \<open>return nil\<close> is commented out.\<close>

definition ErofsReadInodeFromDisk :: "inode \<Rightarrow> int option \<times> inode" where
  "ErofsReadInodeFromDisk i = (None, i)"

definition erofsPos :: "sbinfo \<Rightarrow> u64 \<Rightarrow> u64" where
  "erofsPos sbi nr = push_bit (unat (si_BlkSzBits sbi)) nr"

definition erofsIloc :: "sbinfo \<Rightarrow> inode \<Rightarrow> u64" where
  "erofsIloc sbi i = erofsPos sbi (ucast (si_MetaBlkAddr sbi)) + push_bit (unat (ISlotBits sbi)) (in_Nid i)"

definition DBG_BUGON :: "bool \<Rightarrow> unit go" where
  "DBG_BUGON b = gguard (\<not> b) (Bug ''BUG condition detected'')"

section \<open>Paths and device numbers\<close>

text \<open>\<open>ErofsFspath\<close>; \<open>FullpathPrefix\<close> is a package variable of type \<open>int\<close>.\<close>

definition ErofsFspath :: "int \<Rightarrow> string \<Rightarrow> string go" where
  "ErofsFspath prefix fullpath =
     (if prefix \<ge> int (length fullpath) then Ret ''''
      else if prefix < 0 then Panic SliceBounds
      else Ret (dropWhile (\<lambda>c. c = CHR ''/'') (drop (nat prefix) fullpath)))"

text \<open>The split of a device number, \<open>unix.Major\<close> and \<open>unix.Minor\<close>, is a library's: two parameters.\<close>

record dev_numbers =
  unix_Major :: "u64 \<Rightarrow> u32"
  unix_Minor :: "u64 \<Rightarrow> u32"

definition Major :: "dev_numbers \<Rightarrow> u64 \<Rightarrow> u32" where "Major dn dev = unix_Major dn dev"
definition Minor :: "dev_numbers \<Rightarrow> u64 \<Rightarrow> u32" where "Minor dn dev = unix_Minor dn dev"

definition erofsNewEncodeDev :: "dev_numbers \<Rightarrow> u64 \<Rightarrow> u32" where
  "erofsNewEncodeDev dn dev =
     (let maj = Major dn dev; min = Minor dn dev
      in (min AND 0xff) OR push_bit 8 maj OR push_bit 12 (min AND NOT 0xff))"

section \<open>Compact or extended\<close>

definition erofsIsPackedInode :: "sbinfo \<Rightarrow> inode \<Rightarrow> bool go" where
  "erofsIsPackedInode sbi i =
     (if in_Nid i = EROFS_PACKED_NID_UNALLOCATED
      then if si_PackedNid sbi \<noteq> EROFS_PACKED_NID_UNALLOCATED
           then Panic (Bug ''packedNid should be unallocated'')
           else Ret True
      else Ret (si_PackedNid sbi > 0 \<and> in_Nid i = si_PackedNid sbi))"

definition ErofsShouldUseInodeExtended :: "config \<Rightarrow> sbinfo \<Rightarrow> inode \<Rightarrow> bool go" where
  "ErofsShouldUseInodeExtended cfg sbi i =
     (if cf_ForceInodeVersion cfg = FORCE_INODE_EXTENDED then Ret True
      else if in_ISize i > 0xFFFFFFFF then Ret True
      else gbind (erofsIsPackedInode sbi i) (\<lambda>packed.
        if packed then Ret False
        else if in_IUid i > 0xFFFF then Ret True
        else if in_IGid i > 0xFFFF then Ret True
        else if in_INlink i > 0xFFFF then Ret True
        else if (in_IMtime i \<noteq> si_BuildTime sbi \<or> in_IMtimeNsec i \<noteq> si_BuildTimeNsec sbi) \<and> \<not> cf_IgnoreMtime cfg
        then Ret True
        else Ret False))"

section \<open>Filling an inode from a file's status\<close>

datatype fill_error = UidOverflow | GidOverflow | FillErrno int

text \<open>\<open>erofsDroidInodeFsconfig\<close> does nothing.  An \<open>uint32\<close> is never below zero, so the two overflow tests
  never hold; the cases of Go's \<open>switch\<close> do not fall through.\<close>

definition erofsDroidInodeFsconfig :: "inode \<Rightarrow> stat \<Rightarrow> string \<Rightarrow> fill_error option" where
  "erofsDroidInodeFsconfig i st path = None"

definition time_inherit :: "config \<Rightarrow> sbinfo \<Rightarrow> inode \<Rightarrow> inode" where
  "time_inherit cfg sbi i =
     (if cf_TimeInherit cfg = TIMESTAMP_CLAMPING then i
      else if cf_TimeInherit cfg = TIMESTAMP_FIXED
      then i\<lparr>in_IMtime := si_BuildTime sbi, in_IMtimeNsec := si_BuildTimeNsec sbi\<rparr>
      else i)"

definition erofsFillInode :: "config \<Rightarrow> sbinfo \<Rightarrow> inode \<Rightarrow> stat \<Rightarrow> string \<Rightarrow> fill_error option \<times> inode" where
  "erofsFillInode cfg sbi i st path =
     (case erofsDroidInodeFsconfig i st path of Some e \<Rightarrow> (Some e, i) | None \<Rightarrow>
      let i1 = i\<lparr>in_IUid := (if cf_Uid cfg = -1 then st_Uid st else of_int (cf_Uid cfg)),
                 in_IGid := (if cf_Gid cfg = -1 then st_Uid st else of_int (cf_Gid cfg))\<rparr>
      in if in_IUid i1 + of_int (cf_UidOffset cfg) < 0 then (Some UidOverflow, i1)
         else let i2 = i1\<lparr>in_IUid := in_IUid i1 + of_int (cf_UidOffset cfg)\<rparr>
         in if in_IGid i2 + of_int (cf_GidOffset cfg) < 0 then (Some GidOverflow, i2)
            else (None, time_inherit cfg sbi
              (i2\<lparr>in_IGid := in_IGid i2 + of_int (cf_GidOffset cfg),
                  in_IMtime := st_Mtim_Sec st, in_IMtimeNsec := ucast (st_Mtim_Nsec st)\<rparr>)))"

text \<open>The \<open>switch\<close> of \<open>ErofsFillInode\<close> on the file type: the cases for character devices, block devices,
  pipes and regular files are empty.  \<open>None\<close> is the default case.\<close>

definition fill_type :: "dev_numbers \<Rightarrow> inode \<Rightarrow> stat \<Rightarrow> inode option" where
  "fill_type dn i st =
     (let t = in_IMode i AND S_IFMT in
      if t = S_IFCHR then Some i
      else if t = S_IFBLK then Some i
      else if t = S_IFIFO then Some i
      else if t = S_IFSOCK then Some (i\<lparr>in_IRdev := erofsNewEncodeDev dn (st_Rdev st)\<rparr>)
      else if t = S_IFDIR then Some (i\<lparr>in_ISize := 0\<rparr>)
      else if t = S_IFREG then Some i
      else if t = S_IFLNK then Some (i\<lparr>in_ISize := st_Size st\<rparr>)
      else None)"

text \<open>\<open>ErofsFillInode\<close> up to the insertion into the inode table.\<close>

definition fill_attrs ::
  "dev_numbers \<Rightarrow> config \<Rightarrow> sbinfo \<Rightarrow> inode \<Rightarrow> stat \<Rightarrow> string \<Rightarrow> (fill_error option \<times> inode) go" where
  "fill_attrs dn cfg sbi i st path =
     (case erofsFillInode cfg sbi i st path of
        (Some e, i1) \<Rightarrow> Ret (Some e, i1)
      | (None, i1) \<Rightarrow>
        let i2 = i1\<lparr>in_IMode := ucast (st_Mode st), in_INlink := 1\<rparr> in
        case fill_type dn i2 st of
          None \<Rightarrow> Ret (Some (FillErrno EINVAL), i2)
        | Some i3 \<Rightarrow>
          let i4 = i3\<lparr>in_ISrcpath := path\<rparr> in
          gbind (ErofsShouldUseInodeExtended cfg sbi i4) (\<lambda>ext.
          if ext \<and> cf_ForceInodeVersion cfg = FORCE_INODE_COMPACT then Ret (Some (FillErrno EINVAL), i4)
          else Ret (None, i4\<lparr>in_InodeIsize := of_nat (go_sizeof (if ext then ErofsInodeExtended else ErofsInodeCompact)),
                            in_Dev := ucast (st_Dev st), in_IIno1 := st_Ino st\<rparr>)))"


section \<open>Lemmas\<close>

lemma file_types [simp]:
  "IsDir i \<longleftrightarrow> in_IMode i AND S_IFMT = S_IFDIR"
  "IsReg i \<longleftrightarrow> in_IMode i AND S_IFMT = S_IFREG"
  "IsLnk i \<longleftrightarrow> in_IMode i AND S_IFMT = S_IFLNK"
  by (simp_all add: IsDir_def IsReg_def IsLnk_def)

text \<open>An inode that fits the compact form: 16-bit owners and link count, 32-bit size.\<close>

definition fits_compact :: "inode \<Rightarrow> bool" where
  "fits_compact i \<longleftrightarrow> in_ISize i \<le> 0xFFFFFFFF \<and> in_IUid i \<le> 0xFFFF \<and> in_IGid i \<le> 0xFFFF \<and> in_INlink i \<le> 0xFFFF"

lemma compact_choice:
  assumes "ErofsShouldUseInodeExtended cfg sbi i = Ret False" "in_Nid i \<noteq> 0" "in_Nid i \<noteq> si_PackedNid sbi"
  shows "fits_compact i"
  using assms by (auto simp: ErofsShouldUseInodeExtended_def erofsIsPackedInode_def fits_compact_def split: if_splits)

text \<open>Number 0 stands for an inode without a number: until a packed inode exists every such inode is
  taken for it, afterwards none can be filled.\<close>

lemma unnumbered_choice:
  assumes "in_Nid i = 0" "cf_ForceInodeVersion cfg \<noteq> FORCE_INODE_EXTENDED" "in_ISize i \<le> 0xFFFFFFFF"
  shows "ErofsShouldUseInodeExtended cfg sbi i
     = (if si_PackedNid sbi = 0 then Ret False else Panic (Bug ''packedNid should be unallocated''))"
  using assms by (simp add: ErofsShouldUseInodeExtended_def erofsIsPackedInode_def not_less)

lemma erofsFillInode_ok:
  "\<exists>i'. erofsFillInode cfg sbi i st path = (None, i') \<and> in_Nid i' = in_Nid i \<and> in_ISize i' = in_ISize i
     \<and> in_IUid i' = (if cf_Uid cfg = -1 then st_Uid st else of_int (cf_Uid cfg)) + of_int (cf_UidOffset cfg)
     \<and> in_IGid i' = (if cf_Gid cfg = -1 then st_Uid st else of_int (cf_Gid cfg)) + of_int (cf_GidOffset cfg)
     \<and> (in_IMtime i', in_IMtimeNsec i') =
         (if cf_TimeInherit cfg = TIMESTAMP_FIXED then (si_BuildTime sbi, si_BuildTimeNsec sbi)
          else (st_Mtim_Sec st, ucast (st_Mtim_Nsec st)))
     \<and> in_IBlkaddr i' = in_IBlkaddr i \<and> in_IRdev i' = in_IRdev i \<and> in_DataSource i' = in_DataSource i"
  by (auto simp: erofsFillInode_def erofsDroidInodeFsconfig_def time_inherit_def Let_def)

text \<open>What an accepted inode satisfies.\<close>

definition inode_types :: "u16 set" where
  "inode_types = {S_IFCHR, S_IFBLK, S_IFIFO, S_IFSOCK, S_IFDIR, S_IFREG, S_IFLNK}"

definition inode_wf :: "sbinfo \<Rightarrow> inode \<Rightarrow> bool" where
  "inode_wf sbi i \<longleftrightarrow> in_IMode i AND S_IFMT \<in> inode_types
     \<and> unat (in_InodeIsize i) \<in> {go_sizeof ErofsInodeCompact, go_sizeof ErofsInodeExtended}
     \<and> in_INlink i = 1 \<and> (IsDir i \<longrightarrow> in_ISize i = 0)
     \<and> (unat (in_InodeIsize i) = go_sizeof ErofsInodeCompact \<and> in_Nid i \<noteq> 0 \<and> in_Nid i \<noteq> si_PackedNid sbi
        \<longrightarrow> fits_compact i)"

lemma fill_type_Some:
  assumes "fill_type dn i st = Some i'"
  shows "in_IMode i AND S_IFMT \<in> inode_types"
    and "in_IMode i' = in_IMode i \<and> in_INlink i' = in_INlink i \<and> in_Nid i' = in_Nid i \<and> in_IUid i' = in_IUid i
      \<and> in_IGid i' = in_IGid i \<and> in_IMtime i' = in_IMtime i \<and> in_IMtimeNsec i' = in_IMtimeNsec i
      \<and> in_IBlkaddr i' = in_IBlkaddr i \<and> in_DataSource i' = in_DataSource i"
    and "in_ISize i' = (if IsDir i then 0 else if IsLnk i then st_Size st else in_ISize i)"
  using assms by (auto simp: fill_type_def inode_types_def Let_def split: if_splits)

lemma fill_type_total: "in_IMode i AND S_IFMT \<in> inode_types \<Longrightarrow> \<exists>i'. fill_type dn i st = Some i'"
  unfolding fill_type_def inode_types_def Let_def by (simp split: if_split) blast

lemma fill_attrs_accepts:
  assumes "fill_attrs dn cfg sbi i st path = Ret (None, i')"
  shows "inode_wf sbi i'" and "in_IMode i' = ucast (st_Mode st)" and "in_ISrcpath i' = path"
    and "in_ISize i' = (if IsDir i' then 0 else if IsLnk i' then st_Size st else in_ISize i)"
    and "in_IUid i' = (if cf_Uid cfg = -1 then st_Uid st else of_int (cf_Uid cfg)) + of_int (cf_UidOffset cfg)"
    and "in_Dev i' = ucast (st_Dev st) \<and> in_IIno1 i' = st_Ino st \<and> in_Nid i' = in_Nid i \<and> in_DataSource i' = in_DataSource i"
proof -
  obtain i1 where i1: "erofsFillInode cfg sbi i st path = (None, i1)" "in_Nid i1 = in_Nid i" "in_ISize i1 = in_ISize i"
     "in_IUid i1 = (if cf_Uid cfg = -1 then st_Uid st else of_int (cf_Uid cfg)) + of_int (cf_UidOffset cfg)"
     "in_DataSource i1 = in_DataSource i"
    using erofsFillInode_ok [of cfg sbi i st path] by blast
  let ?i2 = "i1\<lparr>in_IMode := ucast (st_Mode st), in_INlink := 1\<rparr>"
  obtain i3 where i3: "fill_type dn ?i2 st = Some i3"
    using assms i1(1) by (cases "fill_type dn ?i2 st") (simp_all add: fill_attrs_def Let_def)
  let ?i4 = "i3\<lparr>in_ISrcpath := path\<rparr>"
  obtain ext where ext: "ErofsShouldUseInodeExtended cfg sbi ?i4 = Ret ext"
      "i' = ?i4\<lparr>in_InodeIsize := of_nat (go_sizeof (if ext then ErofsInodeExtended else ErofsInodeCompact)),
                in_Dev := ucast (st_Dev st), in_IIno1 := st_Ino st\<rparr>"
    using assms i1(1) i3 by (auto simp: fill_attrs_def Let_def gbind_eq_Ret split: if_splits)
  note t = fill_type_Some [OF i3]
  show "in_IMode i' = ucast (st_Mode st)" "in_ISrcpath i' = path"
    "in_ISize i' = (if IsDir i' then 0 else if IsLnk i' then st_Size st else in_ISize i)"
    "in_IUid i' = (if cf_Uid cfg = -1 then st_Uid st else of_int (cf_Uid cfg)) + of_int (cf_UidOffset cfg)"
    "in_Dev i' = ucast (st_Dev st) \<and> in_IIno1 i' = st_Ino st \<and> in_Nid i' = in_Nid i \<and> in_DataSource i' = in_DataSource i"
    using t(2,3) i1 ext(2) by simp_all
  have "fits_compact i'" if "\<not> ext" "in_Nid i' \<noteq> 0" "in_Nid i' \<noteq> si_PackedNid sbi"
    using compact_choice [of cfg sbi ?i4] that ext by (simp add: fits_compact_def)
  then show "inode_wf sbi i'"
    using t(1,2,3) ext(2) by (cases ext) (simp_all add: inode_wf_def inode_sizes)
qed

text \<open>For a fresh inode the whole outcome is determined by the type of the file.\<close>

lemma fill_attrs_new:
  assumes "in_Nid i = 0" "si_PackedNid sbi = 0" "in_ISize i = 0" "cf_ForceInodeVersion cfg = 0"
    and "ucast (st_Mode st) AND S_IFMT \<in> inode_types" "st_Size st \<le> 0xFFFFFFFF"
  shows "\<exists>i'. fill_attrs dn cfg sbi i st path = Ret (None, i')
     \<and> unat (in_InodeIsize i') = go_sizeof ErofsInodeCompact \<and> in_Nid i' = 0"
proof -
  obtain i1 where i1: "erofsFillInode cfg sbi i st path = (None, i1)" "in_Nid i1 = in_Nid i" "in_ISize i1 = in_ISize i"
    using erofsFillInode_ok [of cfg sbi i st path] by blast
  let ?i2 = "i1\<lparr>in_IMode := ucast (st_Mode st), in_INlink := 1\<rparr>"
  obtain i3 where i3: "fill_type dn ?i2 st = Some i3"
    using fill_type_total [of ?i2 dn st] assms(5) by auto
  let ?i4 = "i3\<lparr>in_ISrcpath := path\<rparr>"
  have n: "in_Nid ?i4 = 0" "in_ISize ?i4 \<le> 0xFFFFFFFF"
    using fill_type_Some(2,3) [OF i3] assms(1,3,6) i1(2,3) by auto
  have "ErofsShouldUseInodeExtended cfg sbi ?i4 = Ret False"
    using unnumbered_choice [OF n(1) _ n(2), of cfg sbi] assms(2,4) by simp
  then show ?thesis
    using i1(1) i3 assms(4) n(1) by (simp add: fill_attrs_def Let_def inode_sizes)
qed

text \<open>The whole outcome for an inode without a number.  Unless the extended form is forced or a symbolic link is
  longer than 4 GiB, the owner is not looked at; and then, once the packed inode has a number, filling panics.\<close>

definition needs_extended :: "config \<Rightarrow> stat \<Rightarrow> bool" where
  "needs_extended cfg st \<longleftrightarrow> cf_ForceInodeVersion cfg = FORCE_INODE_EXTENDED
     \<or> ucast (st_Mode st) AND S_IFMT = S_IFLNK \<and> st_Size st > 0xFFFFFFFF"

definition owner_of :: "config \<Rightarrow> stat \<Rightarrow> u32" where
  "owner_of cfg st = (if cf_Uid cfg = -1 then st_Uid st else of_int (cf_Uid cfg)) + of_int (cf_UidOffset cfg)"

lemma unnumbered_extended:
  assumes "cf_ForceInodeVersion cfg = FORCE_INODE_EXTENDED \<or> in_ISize i > 0xFFFFFFFF"
  shows "ErofsShouldUseInodeExtended cfg sbi i = Ret True"
  using assms by (auto simp: ErofsShouldUseInodeExtended_def)

lemma fill_attrs_unnumbered:
  assumes "in_Nid i = 0" "in_ISize i = 0" "ucast (st_Mode st) AND S_IFMT \<in> inode_types"
  shows "needs_extended cfg st \<Longrightarrow> \<exists>i'. fill_attrs dn cfg sbi i st path
        = Ret (if cf_ForceInodeVersion cfg = FORCE_INODE_COMPACT then Some (FillErrno EINVAL) else None, i')
      \<and> (cf_ForceInodeVersion cfg \<noteq> FORCE_INODE_COMPACT \<longrightarrow> unat (in_InodeIsize i') = go_sizeof ErofsInodeExtended)"
    and "\<not> needs_extended cfg st \<Longrightarrow> si_PackedNid sbi = 0 \<Longrightarrow> \<exists>i'. fill_attrs dn cfg sbi i st path = Ret (None, i')
      \<and> unat (in_InodeIsize i') = go_sizeof ErofsInodeCompact \<and> in_IUid i' = owner_of cfg st"
    and "\<not> needs_extended cfg st \<Longrightarrow> si_PackedNid sbi \<noteq> 0
      \<Longrightarrow> fill_attrs dn cfg sbi i st path = Panic (Bug ''packedNid should be unallocated'')"
proof -
  obtain i1 where i1: "erofsFillInode cfg sbi i st path = (None, i1)" "in_Nid i1 = in_Nid i" "in_ISize i1 = in_ISize i"
      "in_IUid i1 = owner_of cfg st"
    using erofsFillInode_ok [of cfg sbi i st path] by (auto simp: owner_of_def)
  let ?i2 = "i1\<lparr>in_IMode := ucast (st_Mode st), in_INlink := 1\<rparr>"
  obtain i3 where i3: "fill_type dn ?i2 st = Some i3" using fill_type_total [of ?i2 dn st] assms(3) by auto
  let ?i4 = "i3\<lparr>in_ISrcpath := path\<rparr>"
  have nid: "in_Nid ?i4 = 0" and uid: "in_IUid ?i4 = owner_of cfg st"
    and size: "in_ISize ?i4 = (if ucast (st_Mode st) AND S_IFMT = S_IFLNK then st_Size st else 0)"
    using fill_type_Some(2,3) [OF i3] assms(1,2) i1(2-4) by (auto simp: S_IFDIR_def S_IFLNK_def)
  show "\<exists>i'. fill_attrs dn cfg sbi i st path
        = Ret (if cf_ForceInodeVersion cfg = FORCE_INODE_COMPACT then Some (FillErrno EINVAL) else None, i')
      \<and> (cf_ForceInodeVersion cfg \<noteq> FORCE_INODE_COMPACT \<longrightarrow> unat (in_InodeIsize i') = go_sizeof ErofsInodeExtended)"
    if "needs_extended cfg st"
    using unnumbered_extended [of cfg ?i4 sbi] that size i1(1) i3
    by (auto simp: fill_attrs_def needs_extended_def Let_def inode_sizes)
  have ext: "ErofsShouldUseInodeExtended cfg sbi ?i4
      = (if si_PackedNid sbi = 0 then Ret False else Panic (Bug ''packedNid should be unallocated''))"
    if "\<not> needs_extended cfg st"
    by (rule unnumbered_choice) (use nid size that in \<open>auto simp: needs_extended_def not_less\<close>)
  show "\<exists>i'. fill_attrs dn cfg sbi i st path = Ret (None, i')
      \<and> unat (in_InodeIsize i') = go_sizeof ErofsInodeCompact \<and> in_IUid i' = owner_of cfg st"
    if "\<not> needs_extended cfg st" "si_PackedNid sbi = 0"
    using ext [OF that(1)] that(2) uid i1(1) i3 by (simp add: fill_attrs_def Let_def inode_sizes)
  show "fill_attrs dn cfg sbi i st path = Panic (Bug ''packedNid should be unallocated'')"
    if "\<not> needs_extended cfg st" "si_PackedNid sbi \<noteq> 0"
    using ext [OF that(1)] that(2) i1(1) i3 by (simp add: fill_attrs_def Let_def)
qed

text \<open>The size of a regular file is not taken over.\<close>

lemma fill_attrs_regular:
  assumes "in_Nid i = 0" "si_PackedNid sbi = 0" "in_ISize i = 0" "cf_ForceInodeVersion cfg = 0"
    and "ucast (st_Mode st) AND S_IFMT = S_IFREG" "st_Size st \<le> 0xFFFFFFFF"
  shows "\<exists>i'. fill_attrs dn cfg sbi i st path = Ret (None, i') \<and> in_ISize i' = 0 \<and> IsReg i'"
proof -
  have t: "ucast (st_Mode st) AND S_IFMT \<in> inode_types" using assms(5) by (simp add: inode_types_def)
  obtain i' where i': "fill_attrs dn cfg sbi i st path = Ret (None, i')"
    using fill_attrs_new [OF assms(1-4) t assms(6), of dn path] by blast
  have reg: "IsReg i'" using fill_attrs_accepts(2) [OF i'] assms(5) by simp
  then have "in_ISize i' = 0" using fill_attrs_accepts(4) [OF i'] assms(3) by simp
  with i' reg show ?thesis by blast
qed

subsection \<open>Device numbers\<close>

text \<open>Twelve bits of major number and twenty of minor number survive the encoding.\<close>

lemma small_word_bit:
  assumes "(x :: u32) < 2 ^ k" "k < 32" "k \<le> n"
  shows "\<not> bit x n"
proof -
  have "take_bit k x = x" using assms(1,2) less_mask_eq [of x k] by (simp add: take_bit_eq_mask)
  then show ?thesis using assms(3) by (metis bit_take_bit_iff linorder_not_less)
qed

lemma encoded_dev_bits:
  fixes maj mn :: u32
  assumes "maj < 2 ^ 12" "mn < 2 ^ 20"
  defines "e \<equiv> (mn AND 0xff) OR push_bit 8 maj OR push_bit 12 (mn AND NOT 0xff)"
  shows "drop_bit 8 e AND 0xfff = maj" and "(e AND 0xff) OR (drop_bit 12 e AND 0xfff00) = mn"
proof -
  have m: "(0xff :: u32) = mask 8" "(0xfff :: u32) = mask 12" "(0xfff00 :: u32) = push_bit 8 (mask 12)"
    by (simp_all add: mask_eq_exp_minus_1)
  have hi: "bit maj n \<Longrightarrow> n < 12" "bit mn n \<Longrightarrow> n < 20" for n
    using small_word_bit [OF assms(1), of n] small_word_bit [OF assms(2), of n] by (auto simp: not_less [symmetric])
  show "drop_bit 8 e AND 0xfff = maj"
    unfolding e_def m by (rule bit_word_eqI) (auto simp: bit_simps dest: hi)
  show "(e AND 0xff) OR (drop_bit 12 e AND 0xfff00) = mn"
    unfolding e_def m by (rule bit_word_eqI) (auto simp: bit_simps dest: hi)
qed

end
