(* ===== verification/InodeTable.thy ===== *)
theory InodeTable
  imports Inode BufMgrInv
begin

text \<open>
  The table of inodes of \<open>pkg/types/inode1.go\<close>: \<open>inodeHashtable\<close> with \<open>ErofsInodeManagerInit\<close>,
  \<open>ErofsFillInode\<close>, \<open>ErofsInsertIhash\<close> and \<open>ErofsIput\<close>, the allocation of an inode, the lookup of its
  number, and the disk buffer streams of \<open>close.go\<close>.  Inodes are numbered; their three list heads, the
  slots of the table and the entries of directories are nodes of one store of links.
\<close>

section \<open>State\<close>

datatype inode_node = IHash nat | ISubdirs nat | IXattrs nat | HashSlot nat | DChild nat

record diskbufstrm =
  strm_count :: u64
  strm_TailOffset :: u64
  strm_DevPos :: u64
  strm_Fd :: int
  strm_AlignSize :: u64
  strm_locked :: bool

record itable =
  it_links :: "inode_node links"
  it_inodes :: "nat \<Rightarrow> inode"
  it_next :: nat
  it_streams :: "nat \<Rightarrow> diskbufstrm"

definition upd_in :: "nat \<Rightarrow> (inode \<Rightarrow> inode) \<Rightarrow> itable \<Rightarrow> itable" where
  "upd_in i f t = t\<lparr>it_inodes := (it_inodes t)(i := f (it_inodes t i))\<rparr>"

definition on_it :: "(inode_node links \<Rightarrow> inode_node links go) \<Rightarrow> itable \<Rightarrow> itable go" where
  "on_it f t = gbind (f (it_links t)) (\<lambda>h. Ret (t\<lparr>it_links := h\<rparr>))"

lemma upd_in_simps [simp]:
  "it_links (upd_in i f t) = it_links t" "it_next (upd_in i f t) = it_next t"
  "it_streams (upd_in i f t) = it_streams t" "it_inodes (upd_in i f t) = (it_inodes t)(i := f (it_inodes t i))"
  by (simp_all add: upd_in_def)

section \<open>Operations\<close>

definition hash_slots :: "inode_node list" where
  "hash_slots = map HashSlot [0..<unat NR_INODE_HASHTABLE]"

definition ErofsInodeManagerInit :: "itable \<Rightarrow> itable go" where
  "ErofsInodeManagerInit t = on_it (init_all hash_slots) t"

definition hash_slot :: "inode \<Rightarrow> nat" where
  "hash_slot i = unat ((in_IIno1 i XOR ucast (in_Dev i)) mod NR_INODE_HASHTABLE)"

definition ErofsInsertIhash :: "nat \<Rightarrow> itable \<Rightarrow> itable go" where
  "ErofsInsertIhash i t =
     on_it (\<lambda>h. ListAdd h (Some (IHash i)) (Some (HashSlot (hash_slot (it_inodes t i))))) t"

definition ErofsFillInode ::
  "dev_numbers \<Rightarrow> config \<Rightarrow> sbinfo \<Rightarrow> nat \<Rightarrow> stat \<Rightarrow> string \<Rightarrow> itable \<Rightarrow> (fill_error option \<times> itable) go" where
  "ErofsFillInode dn cfg sbi i st path t =
     gbind (fill_attrs dn cfg sbi (it_inodes t i) st path) (\<lambda>(err, inode1).
     let t1 = upd_in i (\<lambda>_. inode1) t in
     if err \<noteq> None then Ret (err, t1)
     else gbind (ErofsInsertIhash i t1) (\<lambda>t2. Ret (None, t2)))"

text \<open>\<open>ErofsNewInode\<close> assigns through its nil \<open>inode\<close> variable: \<open>self\<close> is that variable.\<close>

definition init_inode :: "nat option \<Rightarrow> itable \<Rightarrow> itable go" where
  "init_inode self t =
     gbind (deref self) (\<lambda>i.
     gbind (on_it (init_all [IHash i, ISubdirs i, IXattrs i])
             (upd_in i (\<lambda>x. x\<lparr>in_ICount := 1, in_DataLayout := EROFS_INODE_FLAT_PLAIN\<rparr>) t)) (\<lambda>t1.
     Ret t1))"

definition ErofsNewInode :: "itable \<Rightarrow> (nat option \<times> itable) go" where
  "ErofsNewInode t = (let inode = None in gbind (init_inode inode t) (\<lambda>t1. Ret (inode, t1)))"

text \<open>Reference counts: \<open>^(i - 1)\<close> is \<open>-i\<close>, and the new count is converted to \<open>uint\<close>, a negative one to a
  large number.\<close>

definition erofsAtomicSubReturn :: "u32 \<Rightarrow> u32 \<Rightarrow> u64 \<times> u32" where
  "erofsAtomicSubReturn c i = (let c1 = c + NOT (i - 1) in (scast c1, c1))"

definition ErofsAtomicDecReturn :: "u32 \<Rightarrow> u64 \<times> u32" where
  "ErofsAtomicDecReturn c = erofsAtomicSubReturn c 1"

text \<open>\<open>ErofsDiskbufClose\<close>: a missing stream is reported and then dereferenced.  (The source passes the
  address of a \<open>uint64\<close> counter as \<open>*int32\<close>, which does not type-check; the counter is decremented here.)\<close>

definition ErofsDiskbufClose :: "diskbuf option \<Rightarrow> itable \<Rightarrow> itable go" where
  "ErofsDiskbufClose db t =
     gbind (deref db) (\<lambda>d.
     gbind (deref (db_Sp d)) (\<lambda>n.
     Ret (t\<lparr>it_streams := (it_streams t)(n := (it_streams t n)\<lparr>strm_count := strm_count (it_streams t n) - 1\<rparr>)\<rparr>)))"

definition ErofsDentryFromList :: "inode_node option \<Rightarrow> nat option" where
  "ErofsDentryFromList p = (case p of Some (DChild d) \<Rightarrow> Some d | _ \<Rightarrow> None)"

definition ErofsIput :: "nat \<Rightarrow> nat \<Rightarrow> itable \<Rightarrow> (u64 \<times> itable) go" where
  "ErofsIput fuel i t =
     (let (got, c) = ErofsAtomicDecReturn (in_ICount (it_inodes t i));
          t1 = upd_in i (\<lambda>x. x\<lparr>in_ICount := c\<rparr>) t
      in if got \<ge> 1 then Ret (got, t1)
         else gbind (ListForEachInListSafe fuel it_links
                       (\<lambda>pos n s. let _ = ErofsDentryFromList pos in Ret (True, s)) (Some (ISubdirs i)) t1) (\<lambda>t2.
           let t3 = upd_in i (\<lambda>x. x\<lparr>in_Compressmeta := None, in_EofTailraw := None\<rparr>) t2 in
           gbind (on_it (\<lambda>h. ListDel h (Some (IHash i))) t3) (\<lambda>t4.
           let t5 = upd_in i (\<lambda>x. x\<lparr>in_ISrcpath := ''''\<rparr>) t4 in
           if in_DataSource (it_inodes t5 i) = EROFS_INODE_DATA_SOURCE_DISKBUF
           then gbind (ErofsDiskbufClose (in_IDiskbuf (it_inodes t5 i)) t5) (\<lambda>t6.
             Ret (0, upd_in i (\<lambda>x. x\<lparr>in_IDiskbuf := None\<rparr>) t6))
           else Ret (0, upd_in i (\<lambda>x. x\<lparr>in_ILink := ''''\<rparr>) t5))))"

text \<open>\<open>ErofsLookupNid\<close>: the assertion is inverted, an offset \<^emph>\<open>behind\<close> the metadata area panics.\<close>

definition ErofsLookupNid :: "nat \<Rightarrow> sbinfo \<Rightarrow> nat \<Rightarrow> itable \<Rightarrow> bufmgr \<Rightarrow> (u64 \<times> itable \<times> bufmgr) go" where
  "ErofsLookupNid fuel sbi i t bm =
     gbind (case in_Bh (it_inodes t i) of
              Some bh \<Rightarrow>
                if in_Nid (it_inodes t i) \<le> 0
                then gbind (MapBh fuel sbi False (bh_Block (bm_heads bm bh)) bm) (\<lambda>(_, bm1).
                     gbind (BhTell sbi bh False bm1) (\<lambda>off.
                     let metaOffset = ErofsPos sbi (ucast (si_MetaBlkAddr sbi)) in
                     if \<not> off < metaOffset then Panic (Bug ''Bug: off < metaOffset'')
                     else Ret (upd_in i (\<lambda>x. x\<lparr>in_Nid := drop_bit EROFSISLOTBITS (off - metaOffset)\<rparr>) t, bm1)))
                else Ret (t, bm)
            | None \<Rightarrow> Ret (t, bm)) (\<lambda>(t1, bm1).
     if IS_ROOT i (it_inodes t1 i) \<and> in_Nid (it_inodes t1 i) > 0xffff then Ret (ucast (si_RootNid sbi), t1, bm1)
     else Ret (in_Nid (it_inodes t1 i), t1, bm1))"


section \<open>The table as buckets\<close>

text \<open>\<open>B j\<close> lists the inodes of slot \<open>j\<close>, most recent first.\<close>

definition in_buckets :: "itable \<Rightarrow> (nat \<Rightarrow> nat list) \<Rightarrow> bool" where
  "in_buckets t B \<longleftrightarrow>
     (\<forall>j. (j < 16384 \<longrightarrow> dll (it_links t) (HashSlot j) (map IHash (B j))) \<and> (16384 \<le> j \<longrightarrow> B j = [])
        \<and> (\<forall>i\<in>set (B j). hash_slot (it_inodes t i) = j))"

lemma in_bucketsD:
  assumes "in_buckets t B"
  shows "j < 16384 \<Longrightarrow> dll (it_links t) (HashSlot j) (map IHash (B j))"
    and "i \<in> set (B j) \<Longrightarrow> hash_slot (it_inodes t i) = j" and "16384 \<le> j \<Longrightarrow> B j = []"
  using assms by (auto simp: in_buckets_def)

lemma hash_slot_less: "hash_slot i < 16384"
proof -
  have "(in_IIno1 i XOR ucast (in_Dev i)) mod (16384 :: u64) < 16384" by (rule word_mod_less_divisor) simp
  then show ?thesis by (simp add: hash_slot_def word_less_nat_alt)
qed

lemma in_buckets_cong:
  assumes "in_buckets t B" "it_links t' = it_links t" "\<And>i. hash_slot (it_inodes t' i) = hash_slot (it_inodes t i)"
  shows "in_buckets t' B"
  using assms by (simp add: in_buckets_def)

text \<open>Only slot \<open>j\<close> changes.\<close>

lemma in_buckets_change:
  assumes t: "in_buckets t B" and h: "same_outside (insert (HashSlot j) (IHash ` (insert i (set (B j))))) (it_links t) h'"
    and j: "j < 16384" "dll h' (HashSlot j) (map IHash xs)" "\<forall>k\<in>set xs. hash_slot (it_inodes t k) = j"
    and i: "hash_slot (it_inodes t i) = j"
  shows "in_buckets (t\<lparr>it_links := h'\<rparr>) (B(j := xs))"
proof -
  have "dll h' (HashSlot k) (map IHash (B k))" if "k < 16384" "k \<noteq> j" for k
    by (rule dll_frame [OF in_bucketsD(1) [OF t that(1)] h])
       (use that in_bucketsD(2) [OF t, of _ k] in_bucketsD(2) [OF t, of _ j] i in fastforce)
  with t j show ?thesis by (auto simp: in_buckets_def)
qed

lemma ErofsInodeManagerInit_buckets: "\<exists>t'. ErofsInodeManagerInit t = Ret t' \<and> in_buckets t' (\<lambda>_. []) \<and> it_inodes t' = it_inodes t"
proof -
  obtain h' where "init_all hash_slots (it_links t) = Ret h'" "\<forall>n\<in>set hash_slots. dll h' n []"
    using init_all_rings [of hash_slots "it_links t"] by blast
  then show ?thesis
    by (auto simp: ErofsInodeManagerInit_def on_it_def in_buckets_def hash_slots_def)
qed

lemma ErofsInsertIhash_buckets:
  assumes "in_buckets t B" "\<forall>j. i \<notin> set (B j)"
  defines "j \<equiv> hash_slot (it_inodes t i)"
  shows "\<exists>t'. ErofsInsertIhash i t = Ret t' \<and> in_buckets t' (B(j := i # B j)) \<and> it_inodes t' = it_inodes t"
proof -
  have j: "j < 16384" by (simp add: j_def hash_slot_less)
  obtain h' where h': "ListAdd (it_links t) (Some (IHash i)) (Some (HashSlot j)) = Ret h'"
      "dll h' (HashSlot j) (map IHash (i # B j))" "same_outside ({IHash i, HashSlot j} \<union> set (map IHash (B j))) (it_links t) h'"
    using ListAdd_dll [OF in_bucketsD(1) [OF assms(1) j], of "IHash i"] assms(2) by auto
  have "in_buckets (t\<lparr>it_links := h'\<rparr>) (B(j := i # B j))"
  proof (rule in_buckets_change [OF assms(1) _ j h'(2)])
    show "same_outside (insert (HashSlot j) (IHash ` (insert i (set (B j))))) (it_links t) h'"
      using h'(3) by (rule same_outside_mono) auto
  qed (use in_bucketsD(2) [OF assms(1)] in \<open>auto simp: j_def\<close>)
  with h'(1) show ?thesis by (simp add: ErofsInsertIhash_def on_it_def j_def)
qed

lemma unhash_buckets:
  assumes "in_buckets t B" "i \<in> set (B j)"
  shows "\<exists>t'. on_it (\<lambda>h. ListDel h (Some (IHash i))) t = Ret t' \<and> in_buckets t' (B(j := remove1 i (B j)))
     \<and> it_inodes t' = it_inodes t \<and> it_streams t' = it_streams t"
proof -
  have j: "j < 16384" using in_bucketsD(3) [OF assms(1), of j] assms(2) by (cases "j < 16384") auto
  obtain xs ys where xy: "B j = xs @ i # ys" "i \<notin> set xs" using split_list_first [OF assms(2)] by blast
  have d: "dll (it_links t) (HashSlot j) (map IHash xs @ IHash i # map IHash ys)"
    using in_bucketsD(1) [OF assms(1) j] xy(1) by simp
  obtain h' where h': "ListDel (it_links t) (Some (IHash i)) = Ret h'" "dll h' (HashSlot j) (map IHash xs @ map IHash ys)"
      "same_outside ({IHash i, HashSlot j} \<union> set (map IHash xs @ map IHash ys)) (it_links t) h'"
    using ListDel_dll [OF d] by blast
  have r: "remove1 i (B j) = xs @ ys" using xy by (simp add: remove1_append)
  have "in_buckets (t\<lparr>it_links := h'\<rparr>) (B(j := xs @ ys))"
  proof (rule in_buckets_change [OF assms(1) _ j])
    show "same_outside (insert (HashSlot j) (IHash ` (insert i (set (B j))))) (it_links t) h'"
      using h'(3) by (rule same_outside_mono) (auto simp: xy(1))
    show "dll h' (HashSlot j) (map IHash (xs @ ys))" using h'(2) by simp
  qed (use in_bucketsD(2) [OF assms(1), of _ j] xy(1) in auto)
  with h'(1) r show ?thesis by (simp add: on_it_def)
qed

subsection \<open>What a table of buckets promises\<close>

locale bucket_table =
  fixes holds :: "'s \<Rightarrow> (nat \<Rightarrow> 'e list) \<Rightarrow> bool" and slot :: "'s \<Rightarrow> 'e \<Rightarrow> nat"
    and ins :: "'e \<Rightarrow> 's \<Rightarrow> 's go" and del :: "'e \<Rightarrow> 's \<Rightarrow> 's go"
  assumes ins_law: "holds s B \<Longrightarrow> \<forall>j. e \<notin> set (B j) \<Longrightarrow>
      \<exists>s'. ins e s = Ret s' \<and> holds s' (B(slot s e := e # B (slot s e))) \<and> slot s' = slot s"
    and del_law: "holds s B \<Longrightarrow> e \<in> set (B (slot s e)) \<Longrightarrow>
      \<exists>s'. del e s = Ret s' \<and> holds s' (B(slot s e := remove1 e (B (slot s e)))) \<and> slot s' = slot s"
    and slot_law: "holds s B \<Longrightarrow> e \<in> set (B j) \<Longrightarrow> slot s e = j"
begin

text \<open>Insertion of a list: each slot holds the elements that hash to it, last inserted first.\<close>

lemma ins_all:
  assumes "holds s B" "distinct es" "\<forall>e\<in>set es. \<forall>j. e \<notin> set (B j)"
  shows "\<exists>s'. foldl (\<lambda>m e. gbind m (ins e)) (Ret s) es = Ret s'
     \<and> holds s' (\<lambda>j. rev (filter (\<lambda>e. slot s e = j) es) @ B j) \<and> slot s' = slot s"
  using assms
proof (induction es arbitrary: s B)
  case (Cons e es)
  let ?B = "B(slot s e := e # B (slot s e))"
  obtain s1 where s1: "ins e s = Ret s1" "holds s1 ?B" "slot s1 = slot s"
    using ins_law [of s B e] Cons.prems by auto
  have "\<forall>e'\<in>set es. \<forall>j. e' \<notin> set (?B j)" using Cons.prems by auto
  then obtain s2 where s2: "foldl (\<lambda>m e. gbind m (ins e)) (Ret s1) es = Ret s2"
      "holds s2 (\<lambda>j. rev (filter (\<lambda>e. slot s1 e = j) es) @ ?B j)" "slot s2 = slot s1"
    using Cons.IH [OF s1(2)] Cons.prems(2) by auto
  have "(\<lambda>j. rev (filter (\<lambda>e. slot s1 e = j) es) @ ?B j) = (\<lambda>j. rev (filter (\<lambda>e. slot s e = j) (e # es)) @ B j)"
    using s1(3) by (auto simp: fun_eq_iff)
  with s1 s2 show ?case by simp
qed auto

text \<open>Taking out what was put in last restores the table.\<close>

lemma ins_del:
  assumes "holds s B" "\<forall>j. e \<notin> set (B j)"
  shows "\<exists>s1 s2. ins e s = Ret s1 \<and> del e s1 = Ret s2 \<and> holds s2 B"
proof -
  obtain s1 where s1: "ins e s = Ret s1" "holds s1 (B(slot s e := e # B (slot s e)))" "slot s1 = slot s"
    using ins_law [OF assms] by blast
  obtain s2 where "del e s1 = Ret s2"
      "holds s2 ((B(slot s e := e # B (slot s e)))(slot s1 e := remove1 e ((B(slot s e := e # B (slot s e))) (slot s1 e))))"
    using del_law [OF s1(2), of e] s1(3) by auto
  then show ?thesis using s1 by auto
qed

end

interpretation itab: bucket_table in_buckets "\<lambda>t i. hash_slot (it_inodes t i)" ErofsInsertIhash
    "\<lambda>i. on_it (\<lambda>h. ListDel h (Some (IHash i)))"
proof unfold_locales
  fix t B i j
  assume t: "in_buckets t B"
  show "\<forall>j. i \<notin> set (B j) \<Longrightarrow> \<exists>t'. ErofsInsertIhash i t = Ret t'
      \<and> in_buckets t' (B(hash_slot (it_inodes t i) := i # B (hash_slot (it_inodes t i))))
      \<and> (\<lambda>i. hash_slot (it_inodes t' i)) = (\<lambda>i. hash_slot (it_inodes t i))"
    using ErofsInsertIhash_buckets [OF t, of i] by auto
  show "i \<in> set (B (hash_slot (it_inodes t i))) \<Longrightarrow> \<exists>t'. on_it (\<lambda>h. ListDel h (Some (IHash i))) t = Ret t'
      \<and> in_buckets t' (B(hash_slot (it_inodes t i) := remove1 i (B (hash_slot (it_inodes t i)))))
      \<and> (\<lambda>i. hash_slot (it_inodes t' i)) = (\<lambda>i. hash_slot (it_inodes t i))"
    using unhash_buckets [OF t, of i "hash_slot (it_inodes t i)"] by fastforce
  show "i \<in> set (B j) \<Longrightarrow> hash_slot (it_inodes t i) = j" by (rule in_bucketsD(2) [OF t])
qed


subsection \<open>Filling\<close>

lemma in_buckets_fresh:
  assumes "in_buckets t B" "\<forall>j. i \<notin> set (B j)"
  shows "in_buckets (upd_in i f t) B"
  using assms by (auto simp: in_buckets_def)

text \<open>A filled inode is well formed and stands first in its slot; a refused one is in no slot.\<close>

lemma ErofsFillInode_outcome:
  assumes t: "in_buckets t B" "\<forall>j. i \<notin> set (B j)" and run: "ErofsFillInode dn cfg sbi i st path t = Ret (err, t')"
  defines "x \<equiv> it_inodes t' i"
  shows "err = None \<Longrightarrow> inode_wf sbi x \<and> in_IMode x = ucast (st_Mode st) \<and> in_ISrcpath x = path
      \<and> in_buckets t' (B(hash_slot x := i # B (hash_slot x)))"
    and "err \<noteq> None \<Longrightarrow> in_buckets t' B" and "\<forall>k. k \<noteq> i \<longrightarrow> it_inodes t' k = it_inodes t k"
proof -
  obtain y where y: "fill_attrs dn cfg sbi (it_inodes t i) st path = Ret (err, y)"
    using run by (auto simp: ErofsFillInode_def gbind_eq_Ret Let_def split: if_splits)
  let ?t1 = "upd_in i (\<lambda>_. y) t"
  have t1: "in_buckets ?t1 B" using t by (rule in_buckets_fresh)
  obtain t2 where t2: "ErofsInsertIhash i ?t1 = Ret t2"
      "in_buckets t2 (B(hash_slot y := i # B (hash_slot y)))" "it_inodes t2 = it_inodes ?t1"
    using ErofsInsertIhash_buckets [OF t1 t(2)] by auto
  have t': "t' = (if err = None then t2 else ?t1)"
    using run y t2(1) by (auto simp: ErofsFillInode_def Let_def split: if_splits)
  then have x: "x = y" using t2(3) by (simp add: x_def)
  show "inode_wf sbi x \<and> in_IMode x = ucast (st_Mode st) \<and> in_ISrcpath x = path
      \<and> in_buckets t' (B(hash_slot x := i # B (hash_slot x)))" if "err = None"
    using fill_attrs_accepts(1-3) [of dn cfg sbi "it_inodes t i" st path y] y t2(2) t' that x by simp
  show "in_buckets t' B" if "err \<noteq> None" using t' t1 that by simp
  show "\<forall>k. k \<noteq> i \<longrightarrow> it_inodes t' k = it_inodes t k" using t' t2(3) by simp
qed

lemma fill_unknown_type:
  assumes "ErofsFillInode dn cfg sbi i st path t = Ret (err, t')"
  shows "ucast (st_Mode st) AND S_IFMT \<notin> inode_types \<Longrightarrow> err = Some (FillErrno EINVAL)"
proof -
  assume bad: "ucast (st_Mode st) AND S_IFMT \<notin> inode_types"
  obtain i1 where i1: "erofsFillInode cfg sbi (it_inodes t i) st path = (None, i1)"
    using erofsFillInode_ok [of cfg sbi "it_inodes t i" st path] by blast
  have "fill_type dn (i1\<lparr>in_IMode := ucast (st_Mode st), in_INlink := 1\<rparr>) st = None"
    using fill_type_Some(1) [of dn "i1\<lparr>in_IMode := ucast (st_Mode st), in_INlink := 1\<rparr>" st] bad
    by (cases "fill_type dn (i1\<lparr>in_IMode := ucast (st_Mode st), in_INlink := 1\<rparr>) st") auto
  with i1 assms show "err = Some (FillErrno EINVAL)"
    by (simp add: ErofsFillInode_def fill_attrs_def Let_def)
qed

section \<open>Releasing an inode\<close>

lemma quiet_iteration_loop:
  assumes "dll (lk s) head xs" "set ys \<subseteq> set xs" "xs = zs @ ys" "length ys < n"
  shows "ListForEachInListSafe_loop n lk (\<lambda>_ _ s. Ret (True, s)) (Some head) (Some (hd (ys @ [head]))) s = Ret s"
  using assms
proof (induction ys arbitrary: zs n)
  case Nil
  then show ?case by (cases n) auto
next
  case (Cons y ys)
  then obtain m where n: "n = Suc m" by (cases n) auto
  have "lnext (lk s) y = Some (hd (ys @ [head]))" using dll_mem_next [of "lk s" head zs y ys] Cons.prems(1,3) by simp
  moreover have "y \<noteq> head" using dll_distinct [OF Cons.prems(1)] Cons.prems(2) by auto
  moreover have "ListForEachInListSafe_loop m lk (\<lambda>_ _ s. Ret (True, s)) (Some head) (Some (hd (ys @ [head]))) s = Ret s"
    by (rule Cons.IH [of "zs @ [y]"]) (use Cons.prems n in auto)
  ultimately show ?case using n by (simp add: get_next_def)
qed

lemma quiet_iteration:
  assumes "dll (lk s) head xs" "length xs < n"
  shows "ListForEachInListSafe n lk (\<lambda>_ _ s. Ret (True, s)) (Some head) s = Ret s"
  using quiet_iteration_loop [of lk s head xs xs "[]" n] assms dll_next [OF assms(1)]
  by (simp add: ListForEachInListSafe_def get_next_def)

lemma dec_return: "fst (ErofsAtomicDecReturn c) = scast (c - 1)" "snd (ErofsAtomicDecReturn c) = c - 1"
  by (simp_all add: ErofsAtomicDecReturn_def erofsAtomicSubReturn_def Let_def)

text \<open>Only the transition from one reference to none releases the inode: a count that is already zero
  or negative is decremented further and reported as a large number.\<close>

lemma scast_zero_iff: "(scast (c :: u32) :: u64) = 0 \<longleftrightarrow> c = 0"
proof
  assume z: "(scast c :: u64) = 0"
  show "c = 0"
  proof (rule bit_word_eqI)
    fix n assume "n < LENGTH(32)"
    then have "n < 31 \<or> n = 31" by auto
    then have "bit (scast c :: u64) n = bit c n" by (auto simp: bit_signed_iff)
    then show "bit c n = bit 0 n" by (simp add: z)
  qed
qed simp

lemma ErofsIput_held:
  assumes "in_ICount (it_inodes t i) \<noteq> 1"
  shows "ErofsIput fuel i t = Ret (scast (in_ICount (it_inodes t i) - 1),
     upd_in i (\<lambda>x. x\<lparr>in_ICount := in_ICount (it_inodes t i) - 1\<rparr>) t)"
proof -
  let ?c = "in_ICount (it_inodes t i)"
  have "(scast (?c - 1) :: u64) \<noteq> 0" using assms scast_zero_iff [of "?c - 1"] by simp
  then have "1 \<le> (scast (?c - 1) :: u64)" by (simp add: word_le_nat_alt Suc_leI unat_gt_0)
  moreover have "ErofsAtomicDecReturn ?c = (scast (?c - 1), ?c - 1)" using dec_return [of ?c] by (simp add: prod_eq_iff)
  ultimately show ?thesis by (simp add: ErofsIput_def Let_def)
qed

lemma ErofsIput_last:
  assumes count: "in_ICount (it_inodes t i) = 1" and src: "in_DataSource (it_inodes t i) \<noteq> EROFS_INODE_DATA_SOURCE_DISKBUF"
    and sub: "dll (it_links t) (ISubdirs i) xs" "length xs < fuel"
    and t: "in_buckets t B" "i \<in> set (B (hash_slot (it_inodes t i)))"
  defines "j \<equiv> hash_slot (it_inodes t i)"
  shows "\<exists>t'. ErofsIput fuel i t = Ret (0, t') \<and> in_buckets t' (B(j := remove1 i (B j)))
     \<and> in_ISrcpath (it_inodes t' i) = '''' \<and> in_ILink (it_inodes t' i) = ''''
     \<and> (\<forall>k. k \<noteq> i \<longrightarrow> it_inodes t' k = it_inodes t k)"
proof -
  have d: "ErofsAtomicDecReturn 1 = (0, 0)" using dec_return [of 1] by (simp add: prod_eq_iff)
  let ?f = "\<lambda>x. (x\<lparr>in_ICount := 0\<rparr>)\<lparr>in_Compressmeta := None, in_EofTailraw := None\<rparr>"
  let ?t1 = "upd_in i (\<lambda>x. x\<lparr>in_ICount := 0\<rparr>) t"
  let ?t3 = "upd_in i (\<lambda>x. x\<lparr>in_Compressmeta := None, in_EofTailraw := None\<rparr>) ?t1"
  have it: "ListForEachInListSafe fuel it_links (\<lambda>_ _ s. Ret (True, s)) (Some (ISubdirs i)) ?t1 = Ret ?t1"
    by (rule quiet_iteration [where xs = xs]) (use sub in simp_all)
  have h: "hash_slot (it_inodes ?t3 k) = hash_slot (it_inodes t k)" for k by (simp add: hash_slot_def)
  have t3: "in_buckets ?t3 B" by (rule in_buckets_cong [OF t(1) _ h]) simp
  obtain t4 where t4: "on_it (\<lambda>h. ListDel h (Some (IHash i))) ?t3 = Ret t4" "in_buckets t4 (B(j := remove1 i (B j)))"
      "it_inodes t4 = it_inodes ?t3"
    using unhash_buckets [OF t3, of i j] t(2) by (auto simp: j_def)
  let ?t' = "upd_in i (\<lambda>x. x\<lparr>in_ILink := ''''\<rparr>) (upd_in i (\<lambda>x. x\<lparr>in_ISrcpath := ''''\<rparr>) t4)"
  have e: "ErofsIput fuel i t = Ret (0, ?t')"
    using count src d it t4 by (simp add: ErofsIput_def Let_def)
  have "in_buckets ?t' (B(j := remove1 i (B j)))"
    by (rule in_buckets_cong [OF t4(2)]) (simp_all add: hash_slot_def)
  with e t4(3) show ?thesis by (intro exI [of _ ?t']) simp
qed

section \<open>Inode numbers\<close>

lemma unat_wrapped_diff:
  assumes "(x :: u64) < y"
  shows "unat (x - y) = 2 ^ 64 - (unat y - unat x)"
  using assms by (simp add: unat_sub_if_size word_size word_less_nat_alt)

text \<open>A number that \<open>ErofsLookupNid\<close> assigns comes from a negative distance: it is beyond any image.\<close>

lemma ErofsLookupNid_assigned:
  assumes run: "ErofsLookupNid fuel sbi i t bm = Ret (n, t', bm')"
    and new: "in_Nid (it_inodes t i) = 0" "in_Bh (it_inodes t i) \<noteq> None" and bits: "unat (si_BlkSzBits sbi) \<le> 12"
  shows "2 ^ 58 \<le> unat (in_Nid (it_inodes t' i))"
proof -
  obtain bh where bh: "in_Bh (it_inodes t i) = Some bh" using new(2) by auto
  let ?m = "ErofsPos sbi (ucast (si_MetaBlkAddr sbi))"
  obtain off bm1 where off: "off < ?m" "t' = upd_in i (\<lambda>x. x\<lparr>in_Nid := drop_bit 5 (off - ?m)\<rparr>) t"
    using run bh new(1) by (auto simp: ErofsLookupNid_def gbind_eq_Ret Let_def split: if_splits prod.splits)
  have "unat ?m = unat (si_MetaBlkAddr sbi) * 2 ^ unat (si_BlkSzBits sbi)"
    using block_bytes(1) [OF bits] by (simp add: ErofsPos_def)
  also have "\<dots> \<le> 2 ^ 32 * 2 ^ 12"
    using unsigned_less [of "si_MetaBlkAddr sbi", where ?'a = nat] bits by (intro mult_mono power_increasing) simp_all
  finally have "unat ?m \<le> 2 ^ 44" by simp
  then have "2 ^ 64 - 2 ^ 44 \<le> unat (off - ?m)" using unat_wrapped_diff [OF off(1)] by simp
  then have "(2 ^ 64 - 2 ^ 44) div 32 \<le> unat (off - ?m) div 32" by (rule div_le_mono)
  then have "2 ^ 58 \<le> unat (off - ?m) div 32" by simp
  moreover have "unat (drop_bit 5 (off - ?m)) = unat (off - ?m) div 32"
    by (simp add: drop_bit_eq_div unat_div_distrib)
  ultimately show ?thesis using off(2) by simp
qed

text \<open>The whole outcome for an inode with a buffer and no number.\<close>

lemma ErofsLookupNid_unnumbered:
  assumes bh: "in_Bh (it_inodes t i) = Some bh" and new: "in_Nid (it_inodes t i) = 0" and bits: "unat (si_BlkSzBits sbi) \<le> 12"
    and map: "MapBh fuel sbi False (bh_Block (bm_heads bm bh)) bm = Ret (a, bm1)" and tell: "BhTell sbi bh False bm1 = Ret off"
  defines "meta \<equiv> ErofsPos sbi (ucast (si_MetaBlkAddr sbi))"
  shows "off < meta \<Longrightarrow> \<exists>nid t'. 2 ^ 58 \<le> unat nid \<and> in_Nid (it_inodes t' i) = nid
        \<and> ErofsLookupNid fuel sbi i t bm = Ret (if IS_ROOT i (it_inodes t i) then ucast (si_RootNid sbi) else nid, t', bm1)"
    and "\<not> off < meta \<Longrightarrow> ErofsLookupNid fuel sbi i t bm = Panic (Bug ''Bug: off < metaOffset'')"
proof -
  define nid where "nid = drop_bit EROFSISLOTBITS (off - meta)"
  let ?t' = "upd_in i (\<lambda>x. x\<lparr>in_Nid := nid\<rparr>) t"
  have root: "IS_ROOT i (it_inodes ?t' i) = IS_ROOT i (it_inodes t i)" by (simp add: IS_ROOT_def erofsParentInode_def)
  have run: "ErofsLookupNid fuel sbi i t bm =
      Ret (if IS_ROOT i (it_inodes t i) \<and> nid > 0xffff then ucast (si_RootNid sbi) else nid, ?t', bm1)" if "off < meta"
    using bh new map tell that root by (simp add: ErofsLookupNid_def meta_def nid_def)
  show "\<exists>nid t'. 2 ^ 58 \<le> unat nid \<and> in_Nid (it_inodes t' i) = nid
        \<and> ErofsLookupNid fuel sbi i t bm = Ret (if IS_ROOT i (it_inodes t i) then ucast (si_RootNid sbi) else nid, t', bm1)"
    if "off < meta"
  proof -
    have big: "2 ^ 58 \<le> unat nid" using ErofsLookupNid_assigned [OF run [OF that] new _ bits] bh by simp
    then have "nid > 0xffff" by (simp add: word_less_nat_alt)
    with run [OF that] big show ?thesis by (intro exI [of _ nid] exI [of _ ?t']) simp
  qed
  show "ErofsLookupNid fuel sbi i t bm = Panic (Bug ''Bug: off < metaOffset'')" if "\<not> off < meta"
    using bh new map tell that by (simp add: ErofsLookupNid_def meta_def)
qed

end
