(* ===== verification/Files.thy ===== *)
theory Files
  imports Device Codec
begin

text \<open>
  Open files by descriptor, for the code that reads source files and the packed file through
  \<open>syscall\<close>: \<open>Seek\<close>, \<open>Read\<close>, \<open>Write\<close>, \<open>Pread\<close> and \<open>Mmap\<close>, with \<open>lseek\<close> of \<open>helper.go\<close> and
  \<open>ErofsTempfile\<close> of \<open>inode.go\<close>.  A descriptor is a file of theory \<open>Device\<close> and a position; the
  file's script of answers serves all calls on it.
\<close>

section \<open>System calls on descriptors\<close>

record openfile =
  of_file :: osfile
  of_pos :: nat

type_synonym fds = "int \<Rightarrow> openfile option"

text \<open>\<open>Seek\<close> from the beginning (0) or from the current position (1).\<close>

definition sys_seek :: "fds \<Rightarrow> int \<Rightarrow> u64 \<Rightarrow> int \<Rightarrow> (u64 \<times> int option) \<times> fds" where
  "sys_seek fds fd off whence =
     (case fds fd of None \<Rightarrow> ((- 1, Some EBADF), fds)
      | Some f \<Rightarrow>
          let to = (if whence = 1 then of_nat (of_pos f) + off else off) in
          if sint to < 0 then ((- 1, Some EINVAL), fds)
          else ((to, None), fds(fd \<mapsto> f\<lparr>of_pos := unat to\<rparr>)))"

definition sys_read :: "fds \<Rightarrow> int \<Rightarrow> nat \<Rightarrow> (bytes \<times> int option) \<times> fds" where
  "sys_read fds fd want =
     (case fds fd of None \<Rightarrow> (([], Some EBADF), fds)
      | Some f \<Rightarrow>
          let ((bs, err), g) = sys_pread (of_file f) want (of_nat (of_pos f))
          in ((bs, err), fds(fd \<mapsto> \<lparr>of_file = g, of_pos = of_pos f + length bs\<rparr>)))"

definition sys_pread_fd :: "fds \<Rightarrow> int \<Rightarrow> nat \<Rightarrow> u64 \<Rightarrow> (bytes \<times> int option) \<times> fds" where
  "sys_pread_fd fds fd want pos =
     (case fds fd of None \<Rightarrow> (([], Some EBADF), fds)
      | Some f \<Rightarrow>
          let (r, g) = sys_pread (of_file f) want pos in (r, fds(fd \<mapsto> f\<lparr>of_file := g\<rparr>)))"

definition sys_write :: "fds \<Rightarrow> int \<Rightarrow> bytes \<Rightarrow> (int \<times> int option) \<times> fds" where
  "sys_write fds fd bs =
     (case fds fd of None \<Rightarrow> ((- 1, Some EBADF), fds)
      | Some f \<Rightarrow>
          let ((n, err), g) = sys_pwrite (of_file f) bs (of_nat (of_pos f))
          in ((n, err), fds(fd \<mapsto> \<lparr>of_file = g, of_pos = of_pos f + nat n\<rparr>)))"

text \<open>\<open>Mmap\<close> of the first \<open>n\<close> bytes; the page beyond the end of the file reads as zero.\<close>

definition sys_mmap :: "fds \<Rightarrow> int \<Rightarrow> int \<Rightarrow> (int + bytes) \<times> fds" where
  "sys_mmap fds fd n =
     (case fds fd of None \<Rightarrow> (Inl EBADF, fds)
      | Some f \<Rightarrow>
          if n \<le> 0 then (Inl EINVAL, fds)
          else let (r, g) = next_resp (of_file f); fds1 = fds(fd \<mapsto> f\<lparr>of_file := g\<rparr>) in
            case r of Full \<Rightarrow> (Inr (padded (f_data g) 0 (nat n)), fds1)
            | Fail e \<Rightarrow> (Inl e, fds1)
            | _ \<Rightarrow> (Inl ENOMEM, fds1))"

definition lseek :: "fds \<Rightarrow> int \<Rightarrow> u64 \<Rightarrow> int \<Rightarrow> int \<times> fds" where
  "lseek fds fd off whence =
     (let ((to, err), fds1) = sys_seek fds fd off whence
      in (if err \<noteq> None then - EINVAL else sint to, fds1))"

section \<open>The temporary file\<close>

text \<open>What the system answers to \<open>ErofsTempfile\<close>: the descriptor of the new file or an error, then the
  results of unlinking it and of changing its mode.\<close>

record tmp_answers =
  ta_tmpdir :: string
  ta_create :: "int + int"
  ta_remove :: "int option"
  ta_umask :: u32
  ta_chmod :: "int option"

datatype tmp_error = CreateFailed int | UnlinkFailed int | ChmodFailed int

record tempfile =
  tf_fd :: int
  tf_err :: "tmp_error option"
  tf_dir :: string
  tf_mode :: u32

definition new_openfile :: openfile where
  "new_openfile = \<lparr>of_file = \<lparr>f_data = [], f_script = [], f_rest = Full, f_isblk = False\<rparr>, of_pos = 0\<rparr>"

definition ErofsTempfile :: "tmp_answers \<Rightarrow> fds \<Rightarrow> tempfile \<times> fds" where
  "ErofsTempfile ta fds =
     (let dir = (if ta_tmpdir ta = '''' then ''/tmp'' else ta_tmpdir ta);
          fail = (\<lambda>e. \<lparr>tf_fd = -1, tf_err = Some e, tf_dir = dir, tf_mode = 0\<rparr>)
      in case ta_create ta of
           Inl e \<Rightarrow> (fail (CreateFailed e), fds)
         | Inr fd \<Rightarrow>
             (case ta_remove ta of
                Some e \<Rightarrow> (fail (UnlinkFailed e), fds(fd := None))
              | None \<Rightarrow>
                (case ta_chmod ta of
                   Some e \<Rightarrow> (fail (ChmodFailed e), fds(fd := None))
                 | None \<Rightarrow>
                   (\<lparr>tf_fd = fd, tf_err = None, tf_dir = dir, tf_mode = 0x1B6 AND NOT (ta_umask ta)\<rparr>,
                    fds(fd \<mapsto> new_openfile)))))"

section \<open>The payload of a virtual file\<close>

text \<open>\<open>GetPayload\<close> and \<open>SetPayload\<close> of \<open>file.go\<close> view the fields \<open>Offset\<close> and \<open>Fd\<close> of an \<open>ErofsVFile\<close>, two
  adjacent 64-bit words, as 16 bytes in the order of the machine.\<close>

definition native_store64 :: "endian \<Rightarrow> u64 \<Rightarrow> bytes" where
  "native_store64 e v = (case e of LittleEndian \<Rightarrow> le_bytes 8 v | BigEndian \<Rightarrow> rev (le_bytes 8 v))"

definition native_load64 :: "endian \<Rightarrow> bytes \<Rightarrow> u64" where
  "native_load64 e bs =
     (case e of LittleEndian \<Rightarrow> le_word (take 8 bs) | BigEndian \<Rightarrow> le_word (rev (take 8 bs)))"

definition GetPayload :: "endian \<Rightarrow> u64 \<times> u64 \<Rightarrow> bytes" where
  "GetPayload e vf = (let (off, fd) = vf in native_store64 e off @ native_store64 e fd)"

definition SetPayload :: "endian \<Rightarrow> bytes \<Rightarrow> u64 \<times> u64 \<Rightarrow> u64 \<times> u64" where
  "SetPayload e payload vf = (native_load64 e payload, native_load64 e (drop 8 payload))"

section \<open>Lemmas\<close>

lemma length_native_store64 [simp]: "length (native_store64 e v) = 8"
  by (cases e) (simp_all add: native_store64_def)

lemma payload_round_trip:
  "SetPayload e (GetPayload e vf) vf' = vf"
  "length payload = 16 \<Longrightarrow> GetPayload e (SetPayload e payload vf) = payload"
proof -
  have ls: "native_load64 e (native_store64 e v @ xs) = v" for v xs
    by (cases e) (simp_all add: native_load64_def native_store64_def le_word_le_bytes)
  show "SetPayload e (GetPayload e vf) vf' = vf"
    using ls [of _ "[]"] by (cases vf) (simp add: SetPayload_def GetPayload_def ls)
  have sl: "native_store64 e (native_load64 e bs) = take 8 bs" if "8 \<le> length bs" for bs
    using that by (cases e)
      (auto simp: native_load64_def native_store64_def le_bytes_le_word_width [where 'a = 64])
  show "GetPayload e (SetPayload e payload vf) = payload" if "length payload = 16"
    using that sl [of payload] sl [of "drop 8 payload"]
    by (simp add: GetPayload_def SetPayload_def)
qed


lemma sys_seek_set:
  assumes "fds fd = Some f" "unat off < 2 ^ 63"
  shows "sys_seek fds fd off 0 = ((off, None), fds(fd \<mapsto> f\<lparr>of_pos := unat off\<rparr>))"
  using assms sint_nonneg [OF assms(2)] by (simp add: sys_seek_def Let_def)

text \<open>Seeking to the beginning answers 0 or an error, never a positive offset.\<close>

lemma lseek_start_not_positive: "fst (lseek fds fd 0 0) \<le> 0"
  by (simp add: lseek_def sys_seek_def Let_def split: option.split)

lemma sint_of_nat_pos: "p < 2 ^ 63 \<Longrightarrow> 0 \<le> sint (of_nat p :: u64)"
  by (rule sint_nonneg) (simp add: unsigned_of_nat take_bit_nat_eq_self)

lemma unat_of_pos: "p < 2 ^ 63 \<Longrightarrow> unat (of_nat p :: u64) = p"
  by (simp add: unsigned_of_nat take_bit_nat_eq_self)

text \<open>A file that is served whole: every call is answered in full.\<close>

definition served :: "fds \<Rightarrow> int \<Rightarrow> bytes \<Rightarrow> nat \<Rightarrow> bool" where
  "served fds fd data p \<longleftrightarrow> (\<exists>f. fds fd = Some f \<and> f_data (of_file f) = data \<and> of_pos f = p
     \<and> f_script (of_file f) = [] \<and> f_rest (of_file f) = Full \<and> length data < 2 ^ 62 \<and> p < 2 ^ 62)"

lemma served_seek:
  assumes "served fds fd data p" "unat off < 2 ^ 62"
  shows "\<exists>fds'. sys_seek fds fd off 0 = ((off, None), fds') \<and> served fds' fd data (unat off)
     \<and> (\<forall>x. x \<noteq> fd \<longrightarrow> fds' x = fds x)"
proof -
  obtain f where f: "fds fd = Some f" "f_data (of_file f) = data" "of_pos f = p"
     "f_script (of_file f) = []" "f_rest (of_file f) = Full" "length data < 2 ^ 62" "p < 2 ^ 62"
    using assms(1) by (auto simp: served_def)
  have "unat off < 2 ^ 63" using assms(2) by simp
  with sys_seek_set [of fds fd f off] f assms(2) show ?thesis by (simp add: served_def)
qed

lemma served_read:
  assumes "served fds fd data p"
  shows "\<exists>fds'. sys_read fds fd n = ((read_at data p n, None), fds') \<and> served fds' fd data (p + length (read_at data p n))
     \<and> (\<forall>x. x \<noteq> fd \<longrightarrow> fds' x = fds x)"
proof -
  obtain f where f: "fds fd = Some f" "f_data (of_file f) = data" "of_pos f = p"
     "f_script (of_file f) = []" "f_rest (of_file f) = Full" "length data < 2 ^ 62" "p < 2 ^ 62"
    using assms by (auto simp: served_def)
  have p: "p < 2 ^ 63" using f(7) by simp
  have "length (read_at data p n) \<le> length data - p" by (simp add: read_at_def cut_def)
  with f(6,7) have "p + length (read_at data p n) < 2 ^ 62" by linarith
  with f sint_of_nat_pos [OF p] unat_of_pos [OF p] show ?thesis
    by (simp add: sys_read_def sys_pread_def next_resp_def served_def not_less)
qed

lemma served_pread:
  assumes "served fds fd data p" "unat off < 2 ^ 63"
  shows "\<exists>fds'. sys_pread_fd fds fd n off = ((read_at data (unat off) n, None), fds') \<and> served fds' fd data p
     \<and> (\<forall>x. x \<noteq> fd \<longrightarrow> fds' x = fds x)"
  using assms sint_nonneg [OF assms(2)]
  by (auto simp: served_def sys_pread_fd_def sys_pread_def next_resp_def not_less)

lemma served_write:
  assumes "served fds fd data p" "p + length bs < 2 ^ 62" "length data < 2 ^ 62"
  shows "\<exists>fds'. sys_write fds fd bs = ((int (length bs), None), fds')
     \<and> served fds' fd (write_at data p bs) (p + length bs) \<and> (\<forall>x. x \<noteq> fd \<longrightarrow> fds' x = fds x)"
proof -
  obtain f where f: "fds fd = Some f" "f_data (of_file f) = data" "of_pos f = p"
     "f_script (of_file f) = []" "f_rest (of_file f) = Full"
    using assms(1) by (auto simp: served_def)
  have p: "p < 2 ^ 63" using assms(2) by simp
  have "length (write_at data p bs) < 2 ^ 62" using assms(2,3) by (simp add: length_write_at)
  with f assms(2) sint_of_nat_pos [OF p] unat_of_pos [OF p] show ?thesis
    by (simp add: sys_write_def sys_pwrite_def next_resp_def served_def not_less)
qed

lemma served_mmap:
  assumes "served fds fd data p" "0 < n" "n \<le> length data"
  shows "\<exists>fds'. sys_mmap fds fd (int n) = (Inr (take n data), fds') \<and> served fds' fd data p
     \<and> (\<forall>x. x \<noteq> fd \<longrightarrow> fds' x = fds x)"
proof -
  have "padded data 0 n = take n data"
    by (rule nth_equalityI) (use assms(3) in \<open>auto simp: nth_padded byte_at_def\<close>)
  then show ?thesis using assms by (auto simp: served_def sys_mmap_def next_resp_def)
qed

lemma write_at_append: "write_at (write_at d q xs) (q + length xs) ys = write_at d q (xs @ ys)"
proof (rule nth_equalityI)
  show l: "length (write_at (write_at d q xs) (q + length xs) ys) = length (write_at d q (xs @ ys))"
    by (auto simp: length_write_at)
  fix i assume i: "i < length (write_at (write_at d q xs) (q + length xs) ys)"
  have "byte_at (write_at (write_at d q xs) (q + length xs) ys) i = byte_at (write_at d q (xs @ ys)) i"
    by (auto simp: byte_at_write_at nth_append)
  then show "write_at (write_at d q xs) (q + length xs) ys ! i = write_at d q (xs @ ys) ! i"
    using i l by (simp add: byte_at_def)
qed

lemma cut_cut_append: "cut p m xs @ cut (p + m) n xs = cut p (m + n) xs"
  by (simp add: cut_def take_add add.commute)

lemma read_at_rest: "read_at data p n @ drop (p + length (read_at data p n)) data = drop p data"
proof (cases "n \<le> length data - p")
  case True
  then have "length (read_at data p n) = n" by (simp add: length_read_at)
  then show ?thesis by (simp add: read_at_def cut_def add.commute flip: drop_drop)
qed (simp add: read_at_def cut_def)

lemma served_other: "served fds fd data p \<Longrightarrow> \<forall>x. x \<noteq> g \<longrightarrow> fds' x = fds x \<Longrightarrow> fd \<noteq> g \<Longrightarrow> served fds' fd data p"
  by (simp add: served_def)

end
