(* ===== verification/FileData.thy ===== *)
theory FileData
  imports InodeTable Files BufMgrRun
begin

text \<open>
  The data of a regular file, from \<open>pkg/types/inode1.go\<close>: \<open>ErofsIoXcopy\<close> copies a range of the source to
  the image by whatever means the kernel offers, \<open>ErofsAllocateInodeBhData\<close> reserves the extent, and
  \<open>WriteUncompressedFileFromFd\<close> stores whole blocks in the image and the rest in the inode.
\<close>

section \<open>Copying between files\<close>

text \<open>What the kernel makes of the two calls that copy without a buffer, \<open>copy_file_range\<close> (a wrapper of
  package \<open>unix\<close>) and \<open>sendfile\<close>, and of the seek between them.\<close>

record xcopy_os =
  xo_range :: sysresp
  xo_seek_ok :: bool
  xo_sendfile :: sysresp

text \<open>A transfer inside the kernel: how many bytes, and the destination afterwards.\<close>

definition kernel_copy :: "sysresp \<Rightarrow> bytes \<Rightarrow> nat \<Rightarrow> osfile \<Rightarrow> u64 \<Rightarrow> nat \<Rightarrow> nat \<times> osfile" where
  "kernel_copy r src fpos dst pos n =
     (let bs = read_at src fpos (case r of Full \<Rightarrow> n | Part k \<Rightarrow> min k n | _ \<Rightarrow> 0)
      in if sint pos < 0 then (0, dst)
         else (length bs, dst\<lparr>f_data := write_at (f_data dst) (unat pos) bs\<rparr>))"

datatype xcopy_error = XcopyFailed int | IoErrno int

record xcopy =
  xc_err :: "xcopy_error option"
  xc_out :: vfile
  xc_in :: vfile
  xc_fpos :: nat

fun xcopy_loop :: "nat \<Rightarrow> nat \<Rightarrow> bool \<Rightarrow> vfile \<Rightarrow> u64 \<Rightarrow> vfile \<Rightarrow> nat \<Rightarrow> u64 \<Rightarrow> xcopy go" where
  "xcopy_loop 0 fuel dry vout pos vin fpos len = NoFuel"
| "xcopy_loop (Suc k) fuel dry vout pos vin fpos len =
     (if \<not> len > 0 then Ret \<lparr>xc_err = None, xc_out = vout, xc_in = vin, xc_fpos = fpos\<rparr>
      else
        let bufSize = (if len < 32768 then unat len else 32768) in
        gbind (ErofsIoRead fuel vin fpos (replicate bufSize 0) (int bufSize)) (\<lambda>((n, err), buf, fpos1, vin1).
        if err \<noteq> None then Ret \<lparr>xc_err = map_option IoErrno err, xc_out = vout, xc_in = vin1, xc_fpos = fpos1\<rparr>
        else if n \<le> 0 then Ret \<lparr>xc_err = None, xc_out = vout, xc_in = vin1, xc_fpos = fpos1\<rparr>
        else gbind (gguard (nat n \<le> length buf) SliceBounds) (\<lambda>_.
          gbind (ErofsIoPwrite fuel dry vout buf (nat n) pos n) (\<lambda>((written, err2), vout1).
          if err2 \<noteq> None then Ret \<lparr>xc_err = map_option IoErrno err2, xc_out = vout1, xc_in = vin1, xc_fpos = fpos1\<rparr>
          else xcopy_loop k fuel dry vout1 (pos + of_int written) vin1 fpos1 (len - of_int written)))))"

text \<open>The two kernel calls come first, for a source without an operation table; \<open>sendfile\<close> only when the
  destination may be moved.\<close>

definition xcopy_kernel ::
  "xcopy_os \<Rightarrow> vfile \<Rightarrow> u64 \<Rightarrow> vfile \<Rightarrow> nat \<Rightarrow> u64 \<Rightarrow> bool \<Rightarrow> vfile \<times> u64 \<times> nat \<times> u64" where
  "xcopy_kernel xo vout pos vin fpos len noseek =
     (if len > 0 \<and> vf_Ops vin = None
      then
        let (n1, dst1) = kernel_copy (xo_range xo) (f_data (vf_file vin)) fpos (vf_file vout) pos (unat len);
            pos1 = pos + of_nat n1; len1 = len - of_nat n1
        in if len1 > 0 \<and> \<not> noseek \<and> xo_seek_ok xo
           then let (n2, dst2) = kernel_copy (xo_sendfile xo) (f_data (vf_file vin)) (fpos + n1) dst1 pos1 (unat len1)
                in (vout\<lparr>vf_file := dst2\<rparr>, pos1 + of_nat n2, fpos + n1 + n2, len1 - of_nat n2)
           else (vout\<lparr>vf_file := dst1\<rparr>, pos1, fpos + n1, len1)
      else (vout, pos, fpos, len))"

definition ErofsIoXcopy ::
  "nat \<Rightarrow> xcopy_os \<Rightarrow> bool \<Rightarrow> vfile \<Rightarrow> u64 \<Rightarrow> vfile \<Rightarrow> nat \<Rightarrow> u64 \<Rightarrow> bool \<Rightarrow> xcopy go" where
  "ErofsIoXcopy fuel xo dry vout pos vin fpos len noseek =
     (case vf_Ops vout of
        Some ops \<Rightarrow> gbind (deref (op_Xcopy ops)) (\<lambda>xcopy.
          let (r, f1) = xcopy (vf_file vout) pos (vf_file vin) len noseek
          in Ret \<lparr>xc_err = (if r < 0 then Some (XcopyFailed r) else None), xc_out = vout\<lparr>vf_file := f1\<rparr>,
                 xc_in = vin, xc_fpos = fpos\<rparr>)
      | None \<Rightarrow>
          let (vout1, pos1, fpos1, len1) = xcopy_kernel xo vout pos vin fpos len noseek
          in xcopy_loop fuel fuel dry vout1 pos1 vin fpos1 len1)"

section \<open>The extent of a file\<close>

datatype alloc_error = ExtentFailed balloc_error

text \<open>\<open>os.FileMode(inode.IMode).IsDir()\<close> tests bit 31 of a 16-bit mode; the result of \<open>MapBh\<close> is unsigned.\<close>

definition extent_type :: "inode \<Rightarrow> int" where
  "extent_type i = (if (ucast (in_IMode i) :: u32) AND 0x80000000 \<noteq> 0 then DIRA else DATA)"

definition ErofsAllocateInodeBhData ::
  "nat \<Rightarrow> sbinfo \<Rightarrow> inode \<Rightarrow> u32 \<Rightarrow> bufmgr \<Rightarrow> (alloc_error option \<times> inode \<times> bufmgr) go" where
  "ErofsAllocateInodeBhData fuel sbi i nblocks bm =
     (if nblocks = 0 then Ret (None, i\<lparr>in_IBlkaddr := NULL_ADDR\<rparr>, bm)
      else gbind (Balloc fuel sbi (extent_type i) (ErofsPos sbi (ucast nblocks)) 0 0 bm) (\<lambda>(r, bm1).
        case r of
          Inl e \<Rightarrow> Ret (Some (ExtentFailed e), i, bm1)
        | Inr bh \<Rightarrow>
            let bm2 = upd_bh bh (\<lambda>x. x\<lparr>bh_Op := Some SkipWriteBhops\<rparr>) bm1 in
            gbind (MapBh fuel sbi False (bh_Block (bm_heads bm2 bh)) bm2) (\<lambda>(_, bm3).
            gbind (deref (bh_Block (bm_heads bm3 bh))) (\<lambda>b.
            Ret (None, i\<lparr>in_BhData := Some bh, in_IBlkaddr := bb_BlkAddr (bm_blocks bm3 b)\<rparr>, bm3)))))"

section \<open>Writing a file\<close>

text \<open>\<open>io.ReadFull\<close> on the descriptor: reads until the buffer is full; \<open>None\<close> is any error.\<close>

fun read_full :: "nat \<Rightarrow> fds \<Rightarrow> int \<Rightarrow> nat \<Rightarrow> bytes \<Rightarrow> (bytes option \<times> fds) go" where
  "read_full 0 fds fd want acc = NoFuel"
| "read_full (Suc k) fds fd want acc =
     (if want = 0 then Ret (Some acc, fds)
      else let ((bs, err), fds1) = sys_read fds fd want in
        case err of
          Some e \<Rightarrow> if e = EINTR then read_full k fds1 fd want acc else Ret (None, fds1)
        | None \<Rightarrow> if bs = [] then Ret (None, fds1)
                  else read_full k fds1 fd (want - length bs) (acc @ bs))"

datatype write_error = WriteAlloc alloc_error | WriteCopy xcopy_error | WriteTail

text \<open>The copy of the whole blocks.  The loop counts blocks in \<open>i\<close> but takes its offsets from \<open>ii\<close>, which
  stays 0.\<close>

definition copy_length :: "sbinfo \<Rightarrow> u32 \<Rightarrow> u64" where
  "copy_length sbi nblocks =
     (let maxLen = 0xFFFFFFFF AND NOT (push_bit (unat (si_BlkSzBits sbi)) 1 - 1 :: u64);
          remaining = ErofsPos sbi (ucast (nblocks - 0))
      in if maxLen < remaining then maxLen else remaining)"

fun copy_blocks ::
  "nat \<Rightarrow> xcopy_os \<Rightarrow> sbinfo \<Rightarrow> inode \<Rightarrow> int \<Rightarrow> u32 \<Rightarrow> int \<Rightarrow> io \<Rightarrow> fds \<Rightarrow> (write_error option \<times> io \<times> fds) go" where
  "copy_blocks 0 xo sbi i fd nblocks done w fds = NoFuel"
| "copy_blocks (Suc k) xo sbi i fd nblocks done w fds =
     (if \<not> done < uint nblocks then Ret (None, w, fds)
      else case fds fd of None \<Rightarrow> Ret (Some (WriteCopy (IoErrno EBADF)), w, fds)
      | Some f \<Rightarrow>
          let len = copy_length sbi nblocks in
          gbind (ErofsIoXcopy (io_fuel w) xo (io_DryRun w) (io_BDev w) (ErofsPos sbi (ucast (in_IBlkaddr i + 0)))
                   \<lparr>vf_Ops = None, vf_Offset = 0, vf_file = of_file f\<rparr> (of_pos f) len
                   (in_DataSource i = EROFS_INODE_DATA_SOURCE_DISKBUF)) (\<lambda>c.
          let w1 = w\<lparr>io_BDev := xc_out c\<rparr>;
              fds1 = fds(fd \<mapsto> \<lparr>of_file = vf_file (xc_in c), of_pos = xc_fpos c\<rparr>)
          in case xc_err c of
               Some e \<Rightarrow> Ret (Some (WriteCopy e), w1, fds1)
             | None \<Rightarrow> copy_blocks k xo sbi i fd nblocks
                         (done + uint (drop_bit (unat (si_BlkSzBits sbi)) len)) w1 fds1))"

definition WriteUncompressedFileFromFd ::
  "nat \<Rightarrow> xcopy_os \<Rightarrow> sbinfo \<Rightarrow> inode \<Rightarrow> int \<Rightarrow> bufmgr \<Rightarrow> io \<Rightarrow> fds
     \<Rightarrow> (write_error option \<times> inode \<times> bufmgr \<times> io \<times> fds) go" where
  "WriteUncompressedFileFromFd fuel xo sbi i fd bm w fds =
     (let i1 = i\<lparr>in_DataLayout := EROFS_INODE_FLAT_INLINE\<rparr>;
          nblocks = drop_bit (unat (si_BlkSzBits sbi)) (ucast (in_ISize i1)) :: u32
      in gbind (ErofsAllocateInodeBhData fuel sbi i1 nblocks bm) (\<lambda>(err, i2, bm1).
         case err of
           Some e \<Rightarrow> Ret (Some (WriteAlloc e), i2, bm1, w, fds)
         | None \<Rightarrow>
           gbind (copy_blocks fuel xo sbi i2 fd nblocks 0 w fds) (\<lambda>(err2, w1, fds1).
           if err2 \<noteq> None then Ret (err2, i2, bm1, w1, fds1)
           else gbind (gguard (ErofsBlkSiz sbi \<noteq> 0) DivideByZero) (\<lambda>_.
             let i3 = i2\<lparr>in_IdataSize := ucast (ucast (in_ISize i2) mod ErofsBlkSiz sbi)\<rparr> in
             if in_IdataSize i3 = 0 then Ret (None, i3, bm1, w1, fds1)
             else gbind (read_full fuel fds1 fd (unat (in_IdataSize i3)) []) (\<lambda>(tail, fds2).
               case tail of
                 None \<Rightarrow> Ret (Some WriteTail, i3\<lparr>in_Idata := None\<rparr>, bm1, w1, fds2)
               | Some bs \<Rightarrow> Ret (None, i3\<lparr>in_Idata := Some bs\<rparr>, bm1, w1, fds2))))))"


section \<open>Lemmas\<close>

text \<open>A source that answers every read, possibly in part.\<close>

definition src_ok :: "nat \<Rightarrow> osfile \<Rightarrow> bool" where
  "src_ok fuel f \<longleftrightarrow> (\<forall>r\<in>set (f_script f). r = Full \<or> (\<exists>m. r = Part (Suc m))) \<and> f_rest f = Full
     \<and> length (f_script f) + 2 \<le> fuel \<and> length (f_data f) < 2 ^ 62"

lemma src_ok_next:
  assumes "src_ok fuel f" "next_resp f = (r, f1)"
  shows "src_ok fuel f1" "f_data f1 = f_data f" "r = Full \<or> (\<exists>m. r = Part (Suc m))"
    "r \<noteq> Full \<Longrightarrow> length (f_script f) = Suc (length (f_script f1))" "length (f_script f1) \<le> length (f_script f)"
  using assms by (auto simp: src_ok_def next_resp_def split: list.splits)

lemma src_read:
  assumes "src_ok fuel f" "p < 2 ^ 62"
  shows "\<exists>w f1. sys_pread f n (of_nat p) = ((read_at (f_data f) p w, None), f1) \<and> src_ok fuel f1 \<and> f_data f1 = f_data f
     \<and> w \<le> n \<and> (0 < n \<longrightarrow> 0 < w) \<and> (w = n \<or> length (f_script f) = Suc (length (f_script f1)))
     \<and> length (f_script f1) \<le> length (f_script f)"
proof -
  obtain r f1 where n: "next_resp f = (r, f1)" by fastforce
  note s = src_ok_next [OF assms(1) n]
  have p: "p < 2 ^ 63" using assms(2) by simp
  show ?thesis
  proof (cases r)
    case Full
    with n s show ?thesis
      by (intro exI [of _ n] exI [of _ f1]) (simp add: sys_pread_def not_less sint_of_nat_pos [OF p] unat_of_pos [OF p])
  next
    case (Part k)
    with s(3) have "0 < k" by auto
    with Part n s show ?thesis
      by (intro exI [of _ "min k n"] exI [of _ f1]) (auto simp: sys_pread_def not_less sint_of_nat_pos [OF p] unat_of_pos [OF p])
  qed (use s(3) in auto)
qed

lemma ErofsIoRead_loop_full:
  assumes "src_ok fuel f" "length (f_script f) + (if i = n then 1 else 2) \<le> k" "i \<le> n" "n = length buf" "n \<le> 2147483647"
    and "p + n \<le> length (f_data f)"
  shows "\<exists>f'. ErofsIoRead_loop k (splice buf 0 (cut p i (f_data f))) (p + i) (int i) (int (n - i)) f
      = Ret ((int n, None), cut p n (f_data f), p + n, f') \<and> src_ok fuel f' \<and> f_data f' = f_data f"
  using assms
proof (induction k arbitrary: i f)
  case (Suc k)
  have lb: "length (splice buf 0 (cut p i (f_data f))) = n" using Suc.prems(3,4,6) by simp
  show ?case
  proof (cases "i = n")
    case True
    with Suc.prems show ?thesis by simp
  next
    case False
    then have i: "i < n" using Suc.prems(3) by simp
    have pi: "p + i < 2 ^ 62" using Suc.prems(1,6) i by (simp add: src_ok_def)
    obtain w f1 where w: "sys_pread f (n - i) (of_nat (p + i)) = ((read_at (f_data f) (p + i) w, None), f1)" "src_ok fuel f1"
        "f_data f1 = f_data f" "w \<le> n - i" "0 < n - i \<longrightarrow> 0 < w"
        "w = n - i \<or> length (f_script f) = Suc (length (f_script f1))" "length (f_script f1) \<le> length (f_script f)"
      using src_read [OF Suc.prems(1) pi, of "n - i"] apply (elim exE conjE)
      subgoal for w f1 using that [of w f1] by simp done
    let ?bs = "read_at (f_data f) (p + i) w"
    have l: "length ?bs = w" using w(4) Suc.prems(6) i by (simp add: length_read_at)
    have w0: "0 < w" using w(5) i by simp
    have c: "chunk_of (int (n - i)) = int (n - i)" using Suc.prems(5) by (simp add: chunk_of_def)
    have "cut p (i + w) (f_data f) = cut p i (f_data f) @ ?bs"
      using w(4) i Suc.prems(6) by (simp add: cut_def read_at_def take_add add.commute)
    moreover have "length (cut p i (f_data f)) = i" using Suc.prems(6) i by simp
    ultimately have sp: "splice (splice buf 0 (cut p i (f_data f))) i ?bs = splice buf 0 (cut p (i + w) (f_data f))"
      using splice_append_cuts [of 0 "cut p i (f_data f)" buf ?bs] Suc.prems(4) i by simp
    have step: "ErofsIoRead_loop (Suc k) (splice buf 0 (cut p i (f_data f))) (p + i) (int i) (int (n - i)) f
        = ErofsIoRead_loop k (splice buf 0 (cut p (i + w) (f_data f1))) (p + (i + w)) (int (i + w)) (int (n - (i + w))) f1"
    proof -
      have e: "int (n - i) - int w = int (n - (i + w))" using w(4) i by linarith
      have "?bs \<noteq> []" using l w0 by auto
      moreover have "int i + int (n - i) \<le> int (length (splice buf 0 (cut p i (f_data f))))" using lb i by simp
      ultimately show ?thesis
        using i c w(1,3) l sp e by (simp add: add.assoc del: of_nat_diff)
    qed
    have "length (f_script f1) + (if i + w = n then 1 else 2) \<le> k"
      using w(6)
    proof
      assume "w = n - i"
      then show ?thesis using Suc.prems(2) i w(7) by simp
    next
      assume "length (f_script f) = Suc (length (f_script f1))"
      then show ?thesis using Suc.prems(2) False by simp
    qed
    moreover have "i + w \<le> n" "p + n \<le> length (f_data f1)" using w(3,4) i Suc.prems(6) by simp_all
    ultimately have "\<exists>f'. ErofsIoRead_loop k (splice buf 0 (cut p (i + w) (f_data f1))) (p + (i + w)) (int (i + w)) (int (n - (i + w))) f1
        = Ret ((int n, None), cut p n (f_data f1), p + n, f') \<and> src_ok fuel f' \<and> f_data f' = f_data f1"
      using Suc.IH [OF w(2)] Suc.prems(4,5) by blast
    with step w(3) show ?thesis by simp
  qed
qed (simp split: if_splits)

lemma ErofsIoRead_full:
  assumes "src_ok fuel (vf_file vin)" "vf_Ops vin = None" "n \<le> 32768" "p + n \<le> length (f_data (vf_file vin))"
  shows "\<exists>vin'. ErofsIoRead fuel vin p (replicate n 0) (int n) = Ret ((int n, None), cut p n (f_data (vf_file vin)), p + n, vin')
     \<and> src_ok fuel (vf_file vin') \<and> vf_Ops vin' = None \<and> f_data (vf_file vin') = f_data (vf_file vin)"
proof -
  have "length (f_script (vf_file vin)) + (if 0 = n then 1 else 2) \<le> fuel" using assms(1) by (simp add: src_ok_def)
  then obtain f' where "ErofsIoRead_loop fuel (replicate n 0) p 0 (int n) (vf_file vin)
      = Ret ((int n, None), cut p n (f_data (vf_file vin)), p + n, f')" "src_ok fuel f'" "f_data f' = f_data (vf_file vin)"
    using ErofsIoRead_loop_full [OF assms(1), of 0 n fuel "replicate n 0" p] assms(3,4) by (auto simp: cut_def)
  with assms(2) show ?thesis by (simp add: ErofsIoRead_def)
qed


lemma unat_of_nat_le: "n \<le> unat (x :: u64) \<Longrightarrow> unat (of_nat n :: u64) = n"
  using unsigned_less [of x, where ?'a = nat] by (simp add: unsigned_of_nat take_bit_nat_eq_self)

lemma unat_minus_of_nat: "n \<le> unat (x :: u64) \<Longrightarrow> unat (x - of_nat n) = unat x - n"
  using unat_of_nat_le [of n x] by (subst unat_sub) (simp_all add: word_le_nat_alt)

text \<open>The copy through a buffer.\<close>

lemma xcopy_loop_all:
  assumes "vf_ready fuel vout" "src_ok fuel (vf_file vin)" "vf_Ops vin = None"
    and "fpos + unat len \<le> length (f_data (vf_file vin))" "unat pos + unat len < 2 ^ 63"
    and "(unat len + 32767) div 32768 < k"
  shows "\<exists>vout' vin'. xcopy_loop k fuel False vout pos vin fpos len
       = Ret \<lparr>xc_err = None, xc_out = vout', xc_in = vin', xc_fpos = fpos + unat len\<rparr>
     \<and> vf_ready fuel vout' \<and> src_ok fuel (vf_file vin') \<and> vf_Ops vin' = None \<and> f_data (vf_file vin') = f_data (vf_file vin)
     \<and> f_data (vf_file vout') = write_at (f_data (vf_file vout)) (unat pos) (cut fpos (unat len) (f_data (vf_file vin)))"
  using assms
proof (induction k arbitrary: vout pos vin fpos len)
  case (Suc k)
  show ?case
  proof (cases "len = 0")
    case True
    with Suc.prems show ?thesis by (simp add: cut_def)
  next
    case False
    define n where "n = (if len < 32768 then unat len else 32768)"
    have n: "n = min (unat len) 32768" by (simp add: n_def word_less_nat_alt min_def)
    have nle: "n \<le> unat len" by (simp add: n)
    have n0: "0 < n" using False by (simp add: n unat_gt_0)
    let ?d = "f_data (vf_file vin)"
    have rd: "n \<le> 32768" "fpos + n \<le> length ?d" using Suc.prems(4) by (simp_all add: n)
    obtain vin1 where r: "ErofsIoRead fuel vin fpos (replicate n 0) (int n) = Ret ((int n, None), cut fpos n ?d, fpos + n, vin1)"
        "src_ok fuel (vf_file vin1)" "vf_Ops vin1 = None" "f_data (vf_file vin1) = ?d"
      using ErofsIoRead_full [OF Suc.prems(2,3) rd] by blast
    have lc: "length (cut fpos n ?d) = n" using rd(2) by simp
    obtain vout1 where w: "ErofsIoPwrite fuel False vout (cut fpos n ?d) n pos (int n) = Ret ((int n, None), vout1)"
        "vf_ready fuel vout1" "f_data (vf_file vout1) = write_at (f_data (vf_file vout)) (unat pos) (cut fpos n ?d)"
      using ErofsIoPwrite_ready [OF Suc.prems(1), of pos n n "cut fpos n ?d"] Suc.prems(5) lc by auto
    let ?len = "len - of_nat n" let ?pos = "pos + of_nat n"
    have ul: "unat ?len = unat len - n" by (rule unat_minus_of_nat) (simp add: n)
    have up: "unat ?pos = unat pos + n" using Suc.prems(5) by (intro unat_add_small) (simp add: n)
    have fuel: "(unat ?len + 32767) div 32768 < k"
    proof (cases "unat len \<le> 32768")
      case True
      then have "(unat len + 32767) div 32768 = 1" using False by (simp add: div_nat_eqI unat_gt_0 Suc_leI)
      with True Suc.prems(6) show ?thesis unfolding ul n by simp
    next
      case big: False
      then have "n = 32768" by (simp add: n)
      with big ul have "unat len + 32767 = 32768 + (unat ?len + 32767)" by linarith
      then have "(unat len + 32767) div 32768 = Suc ((unat ?len + 32767) div 32768)"
        by (simp only: div_add_self1 [of "32768 :: nat"] Suc_eq_plus1)
      with Suc.prems(6) show ?thesis by linarith
    qed
    have pre: "fpos + n + unat ?len \<le> length (f_data (vf_file vin1))" "unat ?pos + unat ?len < 2 ^ 63"
      unfolding r(4) ul up using Suc.prems(4,5) nle by linarith+
    obtain vout' vin' where IH: "xcopy_loop k fuel False vout1 ?pos vin1 (fpos + n) ?len
        = Ret \<lparr>xc_err = None, xc_out = vout', xc_in = vin', xc_fpos = fpos + n + unat ?len\<rparr>"
       "vf_ready fuel vout'" "src_ok fuel (vf_file vin')" "vf_Ops vin' = None" "f_data (vf_file vin') = ?d"
       "f_data (vf_file vout') = write_at (f_data (vf_file vout1)) (unat ?pos) (cut (fpos + n) (unat ?len) ?d)"
      using Suc.IH [OF w(2) r(2,3) pre fuel] unfolding r(4) by blast
    have c: "cut fpos n ?d @ cut (fpos + n) (unat ?len) ?d = cut fpos (unat len) ?d"
    proof -
      have "unat len = n + unat ?len" using ul nle by linarith
      then show ?thesis by (simp only: cut_def take_add drop_drop add.commute [of n fpos])
    qed
    have "f_data (vf_file vout') = write_at (f_data (vf_file vout)) (unat pos) (cut fpos (unat len) ?d)"
      using write_at_append [of "f_data (vf_file vout)" "unat pos" "cut fpos n ?d" "cut (fpos + n) (unat ?len) ?d"]
      by (simp only: IH(6) w(3) up lc c)
    moreover have "xcopy_loop (Suc k) fuel False vout pos vin fpos len
        = Ret \<lparr>xc_err = None, xc_out = vout', xc_in = vin', xc_fpos = fpos + unat len\<rparr>"
    proof -
      have "fpos + n + unat ?len = fpos + unat len" using ul nle by linarith
      moreover have "len > 0" using False by (simp add: word_neq_0_conv)
      ultimately show ?thesis using n0 r(1) w(1) IH(1) lc by (simp add: n_def [symmetric])
    qed
    ultimately show ?thesis using IH(2-5) by blast
  qed
qed simp


text \<open>The calls inside the kernel transfer some prefix, possibly nothing.\<close>

lemma kernel_copy_prefix:
  assumes "fpos + n \<le> length src" "unat pos + n < 2 ^ 63"
  shows "\<exists>m. kernel_copy r src fpos dst pos n = (m, dst\<lparr>f_data := write_at (f_data dst) (unat pos) (cut fpos m src)\<rparr>) \<and> m \<le> n"
proof -
  let ?w = "case r of Full \<Rightarrow> n | Part k \<Rightarrow> min k n | _ \<Rightarrow> 0"
  have w: "?w \<le> n" by (cases r) auto
  then have l: "length (read_at src fpos ?w) = ?w" using assms(1) by (simp add: length_read_at)
  have "unat pos < 2 ^ 63" using assms(2) by simp
  then have "\<not> sint pos < 0" using sint_nonneg [of pos] by simp
  with l w show ?thesis by (intro exI [of _ ?w]) (simp add: kernel_copy_def Let_def read_at_def)
qed

lemma kernel_copy_rest:
  fixes len pos :: u64
  assumes "fpos + unat len \<le> length src" "unat pos + unat len < 2 ^ 63" "m \<le> unat len"
  shows "unat (len - of_nat m) = unat len - m" "unat (pos + of_nat m) = unat pos + m"
    "fpos + m + unat (len - of_nat m) \<le> length src" "unat (pos + of_nat m) + unat (len - of_nat m) < 2 ^ 63"
proof -
  show l: "unat (len - of_nat m) = unat len - m" by (rule unat_minus_of_nat [OF assms(3)])
  show p: "unat (pos + of_nat m) = unat pos + m" using assms(2,3) by (intro unat_add_small) simp
  show "fpos + m + unat (len - of_nat m) \<le> length src" "unat (pos + of_nat m) + unat (len - of_nat m) < 2 ^ 63"
    using assms by (simp_all add: l p)
qed

lemma vf_ready_data: "vf_ready fuel vout \<Longrightarrow> vf_ready fuel (vout\<lparr>vf_file := (vf_file vout)\<lparr>f_data := d\<rparr>\<rparr>)"
  by (simp add: vf_ready_def)

lemma xcopy_kernel_prefix:
  assumes "vf_Ops vin = None" "vf_ready fuel vout" "fpos + unat len \<le> length (f_data (vf_file vin))" "unat pos + unat len < 2 ^ 63"
  shows "\<exists>m vout'. xcopy_kernel xo vout pos vin fpos len noseek = (vout', pos + of_nat m, fpos + m, len - of_nat m)
     \<and> m \<le> unat len \<and> vf_ready fuel vout'
     \<and> f_data (vf_file vout') = write_at (f_data (vf_file vout)) (unat pos) (cut fpos m (f_data (vf_file vin)))"
proof (cases "len > 0")
  case False
  with assms(2) show ?thesis by (intro exI [of _ 0] exI [of _ vout]) (simp add: xcopy_kernel_def cut_def)
next
  case True
  let ?d = "f_data (vf_file vin)" let ?o = "vf_file vout"
  obtain m where m: "kernel_copy (xo_range xo) ?d fpos ?o pos (unat len)
      = (m, ?o\<lparr>f_data := write_at (f_data ?o) (unat pos) (cut fpos m ?d)\<rparr>)" "m \<le> unat len"
    using kernel_copy_prefix [OF assms(3,4), of "xo_range xo" ?o] by blast
  note k = kernel_copy_rest [OF assms(3,4) m(2)]
  let ?o1 = "?o\<lparr>f_data := write_at (f_data ?o) (unat pos) (cut fpos m ?d)\<rparr>"
  show ?thesis
  proof (cases "len - of_nat m > 0 \<and> \<not> noseek \<and> xo_seek_ok xo")
    case False
    with True m assms(1) vf_ready_data [OF assms(2)] show ?thesis
      by (intro exI [of _ m] exI [of _ "vout\<lparr>vf_file := ?o1\<rparr>"]) (auto simp: xcopy_kernel_def)
  next
    case again: True
    obtain n where n: "kernel_copy (xo_sendfile xo) ?d (fpos + m) ?o1 (pos + of_nat m) (unat (len - of_nat m))
        = (n, ?o1\<lparr>f_data := write_at (f_data ?o1) (unat (pos + of_nat m)) (cut (fpos + m) n ?d)\<rparr>)" "n \<le> unat (len - of_nat m)"
      using kernel_copy_prefix [OF k(3,4), of "xo_sendfile xo" ?o1] by blast
    have "length (cut fpos m ?d) = m" using assms(3) m(2) by simp
    then have w: "write_at (f_data ?o1) (unat (pos + of_nat m)) (cut (fpos + m) n ?d)
        = write_at (f_data ?o) (unat pos) (cut fpos (m + n) ?d)"
      using write_at_append [of "f_data ?o" "unat pos" "cut fpos m ?d" "cut (fpos + m) n ?d"] k(2)
      by (simp add: cut_cut_append)
    let ?v = "vout\<lparr>vf_file := ?o\<lparr>f_data := write_at (f_data ?o) (unat pos) (cut fpos (m + n) ?d)\<rparr>\<rparr>"
    have "xcopy_kernel xo vout pos vin fpos len noseek
        = (?v, pos + of_nat (m + n), fpos + (m + n), len - of_nat (m + n))"
      using True assms(1) m(1) n(1) again w by (simp add: xcopy_kernel_def add.assoc diff_diff_add)
    moreover have "m + n \<le> unat len" using n(2) m(2) k(1) by simp
    ultimately show ?thesis using vf_ready_data [OF assms(2)] by (intro exI [of _ "m + n"] exI [of _ ?v]) simp
  qed
qed

text \<open>Whatever the kernel does, the range arrives.\<close>

lemma ErofsIoXcopy_all:
  assumes "vf_ready fuel vout" "src_ok fuel (vf_file vin)" "vf_Ops vin = None"
    and "fpos + unat len \<le> length (f_data (vf_file vin))" "unat pos + unat len < 2 ^ 63"
    and "(unat len + 32767) div 32768 < fuel"
  shows "\<exists>vout' vin'. ErofsIoXcopy fuel xo False vout pos vin fpos len noseek
       = Ret \<lparr>xc_err = None, xc_out = vout', xc_in = vin', xc_fpos = fpos + unat len\<rparr>
     \<and> vf_ready fuel vout' \<and> src_ok fuel (vf_file vin') \<and> f_data (vf_file vin') = f_data (vf_file vin)
     \<and> f_data (vf_file vout') = write_at (f_data (vf_file vout)) (unat pos) (cut fpos (unat len) (f_data (vf_file vin)))"
proof -
  let ?d = "f_data (vf_file vin)"
  obtain m v where m: "xcopy_kernel xo vout pos vin fpos len noseek = (v, pos + of_nat m, fpos + m, len - of_nat m)"
      "m \<le> unat len" "vf_ready fuel v" "f_data (vf_file v) = write_at (f_data (vf_file vout)) (unat pos) (cut fpos m ?d)"
    using xcopy_kernel_prefix [OF assms(3,1,4,5), of xo noseek] by blast
  note k = kernel_copy_rest [OF assms(4,5) m(2)]
  have "unat (len - of_nat m) + 32767 \<le> unat len + 32767" by (simp add: k(1))
  then have "(unat (len - of_nat m) + 32767) div 32768 < fuel" using assms(6) by (meson div_le_mono le_less_trans)
  then obtain vout' vin' where l: "xcopy_loop fuel fuel False v (pos + of_nat m) vin (fpos + m) (len - of_nat m)
        = Ret \<lparr>xc_err = None, xc_out = vout', xc_in = vin', xc_fpos = fpos + m + unat (len - of_nat m)\<rparr>"
      "vf_ready fuel vout'" "src_ok fuel (vf_file vin')" "f_data (vf_file vin') = ?d"
      "f_data (vf_file vout') = write_at (f_data (vf_file v)) (unat (pos + of_nat m)) (cut (fpos + m) (unat (len - of_nat m)) ?d)"
    using xcopy_loop_all [OF m(3) assms(2,3) k(3,4), of fuel] by blast
  have e: "m + unat (len - of_nat m) = unat len" using m(2) by (simp add: k(1))
  have "length (cut fpos m ?d) = m" using assms(4) m(2) by simp
  then have "f_data (vf_file vout') = write_at (f_data (vf_file vout)) (unat pos) (cut fpos (unat len) ?d)"
    using write_at_append [of "f_data (vf_file vout)" "unat pos" "cut fpos m ?d" "cut (fpos + m) (unat (len - of_nat m)) ?d"]
    by (simp add: l(5) m(4) k(2) cut_cut_append e)
  moreover have "ErofsIoXcopy fuel xo False vout pos vin fpos len noseek
       = Ret \<lparr>xc_err = None, xc_out = vout', xc_in = vin', xc_fpos = fpos + unat len\<rparr>"
    using m(1) l(1) e assms(1) by (simp add: ErofsIoXcopy_def vf_ready_def add.assoc)
  ultimately show ?thesis using l(2-4) by blast
qed


subsection \<open>One round copies every whole block\<close>

lemma and_not_low: "(y :: u64) AND NOT (push_bit b 1 - 1) = push_bit b (drop_bit b y)"
proof -
  have m: "push_bit b 1 - 1 = (mask b :: u64)" by (simp add: mask_eq_exp_minus_1)
  show ?thesis unfolding m by (rule bit_word_eqI) (auto simp: bit_simps)
qed

lemma unat_shifted: "unat (drop_bit b x) = unat x div 2 ^ b"
  by (simp only: unat_drop_bit_eq drop_bit_eq_div [where ?'a = nat])

lemma copy_length_all:
  assumes "unat (si_BlkSzBits sbi) \<le> 12" "nblocks = drop_bit (unat (si_BlkSzBits sbi)) (x :: u32)"
  shows "copy_length sbi nblocks = push_bit (unat (si_BlkSzBits sbi)) (ucast nblocks)"
proof -
  let ?b = "unat (si_BlkSzBits sbi)" let ?m = "drop_bit ?b (- 1 :: u32)"
  have "drop_bit ?b (0xFFFFFFFF :: u64) = ucast ?m"
  proof (rule bit_word_eqI)
    fix n assume "n < LENGTH(64)"
    have f: "(0xFFFFFFFF :: u64) = mask 32" by (simp add: mask_eq_exp_minus_1)
    show "bit (drop_bit ?b (0xFFFFFFFF :: u64)) n = bit (ucast ?m :: u64) n"
      unfolding f by (auto simp: bit_simps)
  qed
  then have max: "0xFFFFFFFF AND NOT (push_bit ?b 1 - 1 :: u64) = push_bit ?b (ucast ?m)"
    by (simp only: and_not_low)
  have "unat x \<le> unat (- 1 :: u32)" by (simp flip: word_le_nat_alt)
  then have "unat nblocks \<le> unat ?m"
    unfolding assms(2) unat_shifted by (rule div_le_mono)
  then have "unat nblocks * 2 ^ ?b \<le> unat ?m * 2 ^ ?b" by simp
  then have "unat (push_bit ?b (ucast nblocks) :: u64) \<le> unat (push_bit ?b (ucast ?m) :: u64)"
    by (simp only: block_bytes(1) [OF assms(1)])
  then have "\<not> push_bit ?b (ucast ?m) < (push_bit ?b (ucast nblocks) :: u64)"
    by (simp only: not_less word_le_nat_alt)
  then show ?thesis unfolding copy_length_def Let_def max ErofsPos_def by simp
qed

lemma copy_blocks_none: "copy_blocks (Suc k) xo sbi i fd 0 0 w fds = Ret (None, w, fds)"
  by simp

lemma copy_blocks_once:
  assumes b: "unat (si_BlkSzBits sbi) \<le> 12" "nblocks = drop_bit (unat (si_BlkSzBits sbi)) (x :: u32)"
    and dev: "\<not> io_DryRun w" "vf_ready (io_fuel w) (io_BDev w)"
    and src: "fds fd = Some f" "src_ok (io_fuel w) (of_file f)" "of_pos f + unat nblocks * 2 ^ unat (si_BlkSzBits sbi) \<le> length (f_data (of_file f))"
    and fuel: "(unat nblocks * 2 ^ unat (si_BlkSzBits sbi) + 32767) div 32768 < io_fuel w"
  defines "n \<equiv> unat nblocks * 2 ^ unat (si_BlkSzBits sbi)"
  shows "\<exists>w1 fds1 f1. copy_blocks (Suc (Suc k)) xo sbi i fd nblocks 0 w fds = Ret (None, w1, fds1)
     \<and> dev_data w1 = write_at (dev_data w) (unat (in_IBlkaddr i) * 2 ^ unat (si_BlkSzBits sbi)) (cut (of_pos f) n (f_data (of_file f)))
     \<and> fds1 fd = Some f1 \<and> src_ok (io_fuel w) (of_file f1) \<and> f_data (of_file f1) = f_data (of_file f) \<and> of_pos f1 = of_pos f + n"
proof (cases "nblocks = 0")
  case True
  with src show ?thesis by (intro exI [of _ w] exI [of _ fds] exI [of _ f]) (simp add: n_def cut_def)
next
  case False
  let ?b = "unat (si_BlkSzBits sbi)" let ?vin = "\<lparr>vf_Ops = None, vf_Offset = 0, vf_file = of_file f\<rparr>"
  let ?pos = "ErofsPos sbi (ucast (in_IBlkaddr i))"
  have l: "copy_length sbi nblocks = push_bit ?b (ucast nblocks)" by (rule copy_length_all [OF b])
  have ul: "unat (copy_length sbi nblocks) = n" unfolding l n_def by (rule block_bytes(1) [OF b(1)])
  have up: "unat ?pos = unat (in_IBlkaddr i) * 2 ^ ?b" unfolding ErofsPos_def by (rule block_bytes(1) [OF b(1)])
  have lim: "unat y * 2 ^ ?b \<le> 2 ^ 44" for y :: u32
  proof -
    have "unat y * 2 ^ ?b \<le> 2 ^ 32 * 2 ^ 12"
      using unsigned_less [of y, where ?'a = nat] b(1) by (intro mult_mono power_increasing) simp_all
    then show ?thesis by simp
  qed
  have sum: "unat ?pos + unat (copy_length sbi nblocks) < 2 ^ 63"
    using lim [of "in_IBlkaddr i"] lim [of nblocks] unfolding up ul n_def by simp
  obtain vout vin where c: "ErofsIoXcopy (io_fuel w) xo False (io_BDev w) ?pos ?vin (of_pos f) (copy_length sbi nblocks)
        (in_DataSource i = EROFS_INODE_DATA_SOURCE_DISKBUF)
      = Ret \<lparr>xc_err = None, xc_out = vout, xc_in = vin, xc_fpos = of_pos f + n\<rparr>"
     "src_ok (io_fuel w) (vf_file vin)" "f_data (vf_file vin) = f_data (of_file f)"
     "f_data (vf_file vout) = write_at (f_data (vf_file (io_BDev w))) (unat ?pos) (cut (of_pos f) n (f_data (of_file f)))"
    using ErofsIoXcopy_all [of "io_fuel w" "io_BDev w" ?vin "of_pos f" "copy_length sbi nblocks" ?pos xo
        "in_DataSource i = EROFS_INODE_DATA_SOURCE_DISKBUF"] dev(2) src(2,3) fuel sum
    unfolding ul n_def by auto
  have shifted: "drop_bit ?b (push_bit ?b (ucast nblocks :: u64)) = ucast nblocks"
  proof -
    have "unat (drop_bit ?b (push_bit ?b (ucast nblocks :: u64))) = unat nblocks"
      by (simp add: unat_shifted block_bytes(1) [OF b(1)] del: push_bit_eq_mult)
    then show ?thesis by (simp add: word_unat_eq_iff unat_u64_of_u32)
  qed
  have "0 < uint nblocks" using False by (simp add: uint_0_iff order_less_le)
  moreover have "uint (ucast nblocks :: u64) = uint nblocks" by (rule uint_u64_of_u32)
  ultimately have "copy_blocks (Suc (Suc k)) xo sbi i fd nblocks 0 w fds
      = Ret (None, w\<lparr>io_BDev := vout\<rparr>, fds(fd \<mapsto> \<lparr>of_file = vf_file vin, of_pos = of_pos f + n\<rparr>))"
    using src(1) c(1) dev(1) shifted l by simp
  with c up show ?thesis by (auto simp: dev_data_def)
qed

lemma read_full_all:
  assumes "fds fd = Some f" "src_ok fuel (of_file f)" "of_pos f + want \<le> length (f_data (of_file f))"
    and "length (f_script (of_file f)) + (if want = 0 then 1 else 2) \<le> k"
  shows "\<exists>fds'. read_full k fds fd want acc = Ret (Some (acc @ cut (of_pos f) want (f_data (of_file f))), fds')"
  using assms
proof (induction k arbitrary: fds f want acc)
  case (Suc k)
  show ?case
  proof (cases "want = 0")
    case False
    let ?p = "of_pos f" let ?d = "f_data (of_file f)"
    have p: "?p < 2 ^ 62" using Suc.prems(2,3) False by (simp add: src_ok_def)
    have "\<exists>w f1. sys_pread (of_file f) want (of_nat ?p) = ((read_at ?d ?p w, None), f1) \<and> src_ok fuel f1 \<and> f_data f1 = ?d
        \<and> w \<le> want \<and> 0 < w \<and> length (f_script f1) + (if want - w = 0 then 1 else 2) \<le> k"
      using src_read [OF Suc.prems(2) p, of want] Suc.prems(4) False by (elim exE conjE) (auto split: if_splits)
    then obtain w g where w: "sys_pread (of_file f) want (of_nat ?p) = ((read_at ?d ?p w, None), g)" "src_ok fuel g"
        "f_data g = ?d" "w \<le> want" "0 < w" "length (f_script g) + (if want - w = 0 then 1 else 2) \<le> k"
      by blast
    have l: "length (read_at ?d ?p w) = w" using w(4) Suc.prems(3) by (simp add: length_read_at)
    let ?f1 = "\<lparr>of_file = g, of_pos = ?p + w\<rparr>"
    have rd: "sys_read fds fd want = ((read_at ?d ?p w, None), fds(fd \<mapsto> ?f1))"
      using Suc.prems(1) w(1) l by (simp add: sys_read_def)
    have le: "of_pos ?f1 + (want - w) \<le> length (f_data (of_file ?f1))" using Suc.prems(3) w(3,4) by simp
    have "\<exists>fds'. read_full k (fds(fd \<mapsto> ?f1)) fd (want - w) (acc @ read_at ?d ?p w)
        = Ret (Some ((acc @ read_at ?d ?p w) @ cut (of_pos ?f1) (want - w) (f_data (of_file ?f1))), fds')"
      by (rule Suc.IH [OF _ _ le]) (use w in simp_all)
    moreover have "read_at ?d ?p w @ cut (?p + w) (want - w) ?d = cut ?p want ?d"
      using cut_cut_append [of ?p w ?d "want - w"] w(4) by (simp add: read_at_def)
    moreover have "read_at ?d ?p w \<noteq> []" using l w(5) by auto
    ultimately show ?thesis using False rd l w(3) by (simp add: Let_def)
  qed (use Suc.prems in \<open>simp add: cut_def\<close>)
qed (simp split: if_splits)


subsection \<open>Extents\<close>

lemma extent_type_data: "extent_type i = DATA"
proof -
  have "(ucast (in_IMode i) :: u32) AND 0x80000000 = 0"
  proof (rule bit_word_eqI)
    fix n assume "n < LENGTH(32)"
    have "bit (0x80000000 :: u32) n \<Longrightarrow> n = 31"
      using bit_exp_iff [of 31 n, where ?'a = u32] by simp
    then show "bit ((ucast (in_IMode i) :: u32) AND 0x80000000) n = bit 0 n"
      by (auto simp: bit_simps dest: bit_imp_le_length)
  qed
  then show ?thesis by (simp add: extent_type_def)
qed

lemma ErofsBlockSize_sint:
  assumes "small_blocks sbi"
  shows "sint (ErofsBlockSize sbi) = 2 ^ unat (si_BlkSzBits sbi)" "(of_int (sint (ErofsBlockSize sbi)) :: u32) = ErofsBlkSiz sbi"
proof -
  let ?b = "unat (si_BlkSzBits sbi)"
  have b: "?b \<le> 12" using assms by (simp add: small_blocks_def)
  have u: "unat (ErofsBlockSize sbi) = 2 ^ ?b" using block_bytes(1) [OF b, of 1] by (simp add: ErofsBlockSize_def)
  also have "(2::nat) ^ ?b < 2 ^ 63" using b by (intro power_strict_increasing) simp_all
  finally show s: "sint (ErofsBlockSize sbi) = 2 ^ ?b" using u by (simp add: sint_small)
  show "(of_int (sint (ErofsBlockSize sbi)) :: u32) = ErofsBlkSiz sbi"
    unfolding s by (simp add: ErofsBlkSiz_def push_bit_eq_mult)
qed

lemma data_no_search:
  assumes "small_blocks sbi"
  shows "no_search sbi DATA sz 0 0"
proof -
  have "((ucast sz :: u32) AND (ErofsBlkSiz sbi - 1)) \<le> ErofsBlkSiz sbi - 1" by (rule word_and_le1)
  moreover have "unat (ErofsBlkSiz sbi - 1) \<le> unat (ErofsBlkSiz sbi)" by (simp add: block_size_bounds [OF assms])
  ultimately have "((ucast sz :: u32) AND (ErofsBlkSiz sbi - 1)) \<le> ErofsBlkSiz sbi"
    by (meson order_trans word_le_nat_alt)
  then show ?thesis using ErofsBlockSize_sint [OF assms] by (simp add: no_search_def GetAlignSize_def)
qed

text \<open>A new data block is empty, so a request for whole blocks only succeeds when an existing data block
  already extends that far.\<close>

lemma extent_refused:
  assumes wf: "bm_wf sbi start bm ms us hs" and small: "small_blocks sbi" and fuel: "bm_next_bb bm < fuel" and n: "nblocks \<noteq> 0"
    and none: "\<forall>b. 0 < b \<and> b < bm_next_bb bm \<and> bb_Type (bm_blocks bm b) = DATA \<longrightarrow> bb_Off (bm_blocks bm b) < ErofsPos sbi (ucast nblocks)"
  shows "\<exists>bm' hs'. ErofsAllocateInodeBhData fuel sbi i nblocks bm = Ret (Some (ExtentFailed EmptyBufferBlock), i, bm')
     \<and> bm_wf sbi start bm' ms (place_new DATA (bm_next_bb bm) us) hs' \<and> bm_next_bb bm' = Suc (bm_next_bb bm)
     \<and> bm_blocks bm' = (bm_blocks bm)(bm_next_bb bm := \<lparr>bb_BlkAddr = NULL_ADDR, bb_Type = DATA, bb_Off = 0, bb_FsPrivate = True\<rparr>)
     \<and> dll (bm_links bm') (BbBufs (bm_next_bb bm)) []"
proof -
  have inv: "bm_inv sbi start bm ms us" and rings: "rings_ok bm (set (ms @ us)) hs" and ids: "set (ms @ us) = {1..<bm_next_bb bm}"
    by (rule bm_wfD [OF wf])+
  let ?sz = "ErofsPos sbi (ucast nblocks)" let ?al = "sint (ErofsBlockSize sbi)"
  let ?f = "(bm_blocks bm)(bm_next_bb bm := \<lparr>bb_BlkAddr = NULL_ADDR, bb_Type = DATA, bb_Off = 0, bb_FsPrivate = True\<rparr>)"
  have al: "GetAlignSize sbi DATA = (?al, DATA)" "0 \<le> ?al" using ErofsBlockSize_sint(1) [OF small] by (simp_all add: GetAlignSize_def)
  note ns = data_no_search [OF small, of ?sz]
  have early: "BfindForAttach fuel sbi DATA ?sz 0 0 (of_int ?al) bm = Ret (Inr None, bm)"
    by (rule BfindForAttach_early [OF small]) (use ns al(1) ErofsBlockSize_sint(2) [OF small] in \<open>simp_all add: no_search_def Let_def\<close>)
  have len: "Suc (length (ms @ us)) < fuel" using bm_inv_ids(2) [OF inv] fuel by simp
  have b12: "unat (si_BlkSzBits sbi) \<le> 12" using small by (simp add: small_blocks_def)
  have "unat ?sz = unat nblocks * 2 ^ unat (si_BlkSzBits sbi)"
    unfolding ErofsPos_def by (rule block_bytes(1) [OF b12])
  then have pos: "?sz > 0" using n by (simp add: word_less_nat_alt unat_gt_0)
  have "find (\<lambda>b. bb_Type (?f b) = DATA \<and> ?sz \<le> bb_Off (?f b)) (ms @ place_new DATA (bm_next_bb bm) us) = None"
    unfolding find_None_iff
  proof (rule notI, elim exE conjE)
    fix b assume b: "b \<in> set (ms @ place_new DATA (bm_next_bb bm) us)" "bb_Type (?f b) = DATA" "?sz \<le> bb_Off (?f b)"
    then have "b \<noteq> bm_next_bb bm" using pos by auto
    moreover have "b = bm_next_bb bm \<or> b \<in> set (ms @ us)" using b(1) by (auto simp: place_new_def)
    ultimately have "b \<in> {1..<bm_next_bb bm}" "b \<noteq> bm_next_bb bm" using ids by blast+
    then have "0 < b \<and> b < bm_next_bb bm" "b \<noteq> bm_next_bb bm" by auto
    with none b(2,3) show False by (auto simp: not_less [symmetric])
  qed
  then have t: "alloc_target DATA (?sz + ucast (0 + 0 :: u32) * ucast (of_int ?al :: u32)) ?f (ms @ place_new DATA (bm_next_bb bm) us) (bm_next_bb bm) = bm_next_bb bm"
    by (simp add: alloc_target_def)
  obtain bm' where bm': "Balloc fuel sbi DATA ?sz 0 0 bm = Ret (Inl EmptyBufferBlock, bm')"
      "bm_blocks bm' = ?f" "bm_next_bb bm' = Suc (bm_next_bb bm)" "dll (bm_links bm') (BbBufs (bm_next_bb bm)) []"
    using Balloc_no_search [OF inv rings_bufs_linked [OF rings] al(1,2) _ _ early len, unfolded t] pos by auto
  obtain r bm'' hs' where w: "Balloc fuel sbi DATA ?sz 0 0 bm = Ret (r, bm'')"
      "bm_wf sbi start bm'' ms (place_new (snd (GetAlignSize sbi DATA)) (bm_next_bb bm) us) hs'"
    using Balloc_wf [OF wf ns fuel] by blast
  then have "bm_wf sbi start bm' ms (place_new DATA (bm_next_bb bm) us) hs'" using bm' al(1) by simp
  then show ?thesis using bm' n by (auto simp: ErofsAllocateInodeBhData_def extent_type_data simp del: DATA_def)
qed

subsection \<open>A stored file\<close>

text \<open>An extent in a block that is mapped already.\<close>

lemma Allocate_granted:
  assumes "nblocks \<noteq> 0" "Balloc fuel sbi DATA (ErofsPos sbi (ucast nblocks)) 0 0 bm = Ret (Inr bh, bm1)"
    and "bh_Block (bm_heads bm1 bh) = Some b" "bb_FsPrivate (bm_blocks bm1 b)" "bb_BlkAddr (bm_blocks bm1 b) \<noteq> NULL_ADDR"
  shows "\<exists>bm2. ErofsAllocateInodeBhData fuel sbi i nblocks bm
     = Ret (None, i\<lparr>in_BhData := Some bh, in_IBlkaddr := bb_BlkAddr (bm_blocks bm1 b)\<rparr>, bm2)"
  using assms by (simp add: ErofsAllocateInodeBhData_def extent_type_data MapBh_def manager_of_def upd_bh_def del: DATA_def)

lemma Allocate_keeps:
  assumes "ErofsAllocateInodeBhData fuel sbi i nblocks bm = Ret (None, i', bm')"
  shows "in_ISize i' = in_ISize i" "in_DataSource i' = in_DataSource i" "in_Idata i' = in_Idata i" "in_IMode i' = in_IMode i"
    "nblocks = 0 \<Longrightarrow> in_IBlkaddr i' = NULL_ADDR"
proof -
  have "nblocks = 0 \<or> (\<exists>bh bm1. Balloc fuel sbi (extent_type i) (ErofsPos sbi (ucast nblocks)) 0 0 bm = Ret (Inr bh, bm1))"
  proof (cases "nblocks = 0")
    case False
    then obtain r bm1 where r: "Balloc fuel sbi (extent_type i) (ErofsPos sbi (ucast nblocks)) 0 0 bm = Ret (r, bm1)"
      using assms by (auto simp: ErofsAllocateInodeBhData_def gbind_eq_Ret)
    with False assms show ?thesis by (cases r) (simp_all add: ErofsAllocateInodeBhData_def)
  qed simp
  then show "in_ISize i' = in_ISize i" "in_DataSource i' = in_DataSource i" "in_Idata i' = in_Idata i" "in_IMode i' = in_IMode i"
    "nblocks = 0 \<Longrightarrow> in_IBlkaddr i' = NULL_ADDR"
    using assms by (auto simp: ErofsAllocateInodeBhData_def gbind_eq_Ret Let_def split: if_splits)
qed

text \<open>Once the extent is there, the whole blocks of the file are in the image and the rest is in the inode.\<close>

lemma WriteUncompressed_stores:
  fixes sbi :: sbinfo
  defines "b \<equiv> unat (si_BlkSzBits sbi)"
  assumes b12: "b \<le> 12" and size: "unat (in_ISize i) = n" "n < 2 ^ 32"
    and ext: "ErofsAllocateInodeBhData fuel sbi (i\<lparr>in_DataLayout := EROFS_INODE_FLAT_INLINE\<rparr>) (drop_bit b (ucast (in_ISize i))) bm = Ret (None, i2, bm1)"
    and dev: "\<not> io_DryRun w" "vf_ready (io_fuel w) (io_BDev w)"
    and src: "fds fd = Some f" "src_ok (io_fuel w) (of_file f)" "of_pos f + n \<le> length (f_data (of_file f))"
    and fuel: "(n + 32767) div 32768 < io_fuel w" "io_fuel w \<le> fuel"
  shows "\<exists>i3 w1 fds1. WriteUncompressedFileFromFd fuel xo sbi i fd bm w fds = Ret (None, i3, bm1, w1, fds1)
     \<and> in_IBlkaddr i3 = in_IBlkaddr i2 \<and> unat (in_IdataSize i3) = n mod 2 ^ b
     \<and> dev_data w1 = write_at (dev_data w) (unat (in_IBlkaddr i2) * 2 ^ b) (cut (of_pos f) (n div 2 ^ b * 2 ^ b) (f_data (of_file f)))
     \<and> in_Idata i3 = (if n mod 2 ^ b = 0 then in_Idata i else Some (cut (of_pos f + n div 2 ^ b * 2 ^ b) (n mod 2 ^ b) (f_data (of_file f))))"
proof -
  let ?d = "f_data (of_file f)" let ?x = "ucast (in_ISize i) :: u32" let ?nb = "drop_bit b ?x"
  have ux: "unat ?x = n" using size by (simp add: unsigned_ucast_eq take_bit_nat_eq_self)
  then have un: "unat ?nb = n div 2 ^ b" by (simp only: unat_shifted)
  have le: "n div 2 ^ b * 2 ^ b \<le> n" by simp
  have le2: "of_pos f + unat ?nb * 2 ^ b \<le> length ?d" unfolding un using le src(3) by linarith
  have "unat ?nb * 2 ^ b + 32767 \<le> n + 32767" unfolding un using le by simp
  then have fl: "(unat ?nb * 2 ^ b + 32767) div 32768 < io_fuel w" using fuel(1) by (meson div_le_mono le_less_trans)
  have "2 \<le> fuel" using fuel(2) src(2) by (simp add: src_ok_def)
  then obtain k where k: "fuel = Suc (Suc k)" by (metis Suc_le_D numeral_2_eq_2 Suc_le_mono)
  obtain w1 fds1 f1 where c: "copy_blocks (Suc (Suc k)) xo sbi i2 fd ?nb 0 w fds = Ret (None, w1, fds1)"
      "dev_data w1 = write_at (dev_data w) (unat (in_IBlkaddr i2) * 2 ^ b) (cut (of_pos f) (unat ?nb * 2 ^ b) ?d)"
      "fds1 fd = Some f1" "src_ok (io_fuel w) (of_file f1)" "f_data (of_file f1) = ?d" "of_pos f1 = of_pos f + unat ?nb * 2 ^ b"
    using copy_blocks_once [where sbi = sbi and nblocks = ?nb and x = ?x and w = w and fds = fds and fd = fd and f = f and xo = xo and i = i2 and k = k, folded b_def, OF b12 refl dev src(1,2) le2 fl] by blast
  have b2: "(2::nat) ^ b \<le> 4096" using power_increasing [OF b12, of "2::nat"] by simp
  have bs: "unat (ErofsBlkSiz sbi) = 2 ^ b" using block_size_bounds(1) [of sbi] b12 by (simp add: small_blocks_def b_def)
  then have nz: "ErofsBlkSiz sbi \<noteq> 0" by (auto simp flip: unat_eq_zero)
  have s2: "in_ISize i2 = in_ISize i" "in_Idata i2 = in_Idata i" using Allocate_keeps [OF ext] by simp_all
  have "n mod 2 ^ b < 2 ^ b" by simp
  then have m: "n mod 2 ^ b < 4096" using b2 by linarith
  have "unat (?x mod ErofsBlkSiz sbi) = n mod 2 ^ b" by (simp add: unat_mod_distrib ux bs)
  then have tail: "unat (ucast (?x mod ErofsBlkSiz sbi) :: u16) = n mod 2 ^ b"
    using m by (simp add: unsigned_ucast_eq take_bit_nat_eq_self)
  let ?i3 = "i2\<lparr>in_IdataSize := ucast (?x mod ErofsBlkSiz sbi)\<rparr>"
  show ?thesis
  proof (cases "n mod 2 ^ b = 0")
    case True
    then have "ucast (?x mod ErofsBlkSiz sbi) = (0 :: u16)" using tail by (metis unat_eq_zero)
    then have "WriteUncompressedFileFromFd fuel xo sbi i fd bm w fds = Ret (None, ?i3, bm1, w1, fds1)"
      using ext c(1) nz s2 k by (simp add: WriteUncompressedFileFromFd_def Let_def b_def [symmetric] del: copy_blocks.simps)
    with c(2) tail True s2 un show ?thesis by (intro exI [of _ ?i3] exI [of _ w1] exI [of _ fds1]) simp
  next
    case False
    then have nt: "ucast (?x mod ErofsBlkSiz sbi) \<noteq> (0 :: u16)" using tail by auto
    have le3: "of_pos f1 + n mod 2 ^ b \<le> length (f_data (of_file f1))"
      using src(3) div_mult_mod_eq [of n "2 ^ b"] unfolding c(5,6) un by linarith
    have "length (f_script (of_file f1)) + (if n mod 2 ^ b = 0 then 1 else 2) \<le> fuel"
      using c(4) fuel(2) by (simp add: src_ok_def)
    then obtain fds2 where r: "read_full fuel fds1 fd (n mod 2 ^ b) [] = Ret (Some ([] @ cut (of_pos f1) (n mod 2 ^ b) (f_data (of_file f1))), fds2)"
      using read_full_all [where fds = fds1 and fd = fd and f = f1, OF c(3,4) le3, of fuel "[]"] by blast
    let ?i4 = "?i3\<lparr>in_Idata := Some (cut (of_pos f + n div 2 ^ b * 2 ^ b) (n mod 2 ^ b) ?d)\<rparr>"
    have "WriteUncompressedFileFromFd fuel xo sbi i fd bm w fds = Ret (None, ?i4, bm1, w1, fds2)"
      using ext c(1,5,6) nz s2 k nt tail r un
      by (simp add: WriteUncompressedFileFromFd_def Let_def b_def [symmetric] del: copy_blocks.simps read_full.simps)
    with c(2) tail False un show ?thesis by (intro exI [of _ ?i4] exI [of _ w1] exI [of _ fds2]) simp
  qed
qed

text \<open>A file whose recorded size is 0 stores nothing.\<close>

lemma WriteUncompressed_empty:
  assumes "in_ISize i = 0" "unat (si_BlkSzBits sbi) \<le> 12" "0 < fuel"
  shows "\<exists>i'. WriteUncompressedFileFromFd fuel xo sbi i fd bm w fds = Ret (None, i', bm, w, fds)
     \<and> in_IBlkaddr i' = NULL_ADDR \<and> in_IdataSize i' = 0 \<and> in_Idata i' = in_Idata i"
proof -
  obtain k where "fuel = Suc k" using assms(3) by (cases fuel) auto
  moreover have "ErofsBlkSiz sbi \<noteq> 0" using unat_ErofsBlkSiz [of sbi] assms(2) by (auto simp flip: unat_eq_zero)
  ultimately show ?thesis
    using assms(1) by (simp add: WriteUncompressedFileFromFd_def ErofsAllocateInodeBhData_def copy_blocks_none)
qed

end
