(* ===== verification/Fragments.thy ===== *)
theory Fragments
  imports Inode Files Codec BufMgrInv
begin

text \<open>
  The packed inode and the index of fragments: \<open>InitPackedFile\<close> (\<open>pkg/types/inode.go\<close>), the functions of
  \<open>pkg/types/dedupe.go\<close>, and \<open>ZErofsPackFileFromFd\<close> (\<open>inode1.go\<close>).  The index is a table of list heads and
  of items that remember the tail of each packed fragment; \<open>pk_Hash\<close> tells whether the table was
  allocated.  Dereferencing a slot of a table that was not is a fault at a small address.
\<close>

section \<open>State\<close>

datatype frag_node = FragHead nat | FragItem nat

record frag_item =
  fi_length :: u32
  fi_pos :: u64
  fi_data :: bytes

record packed =
  pk_Hash :: bool
  pk_links :: "frag_node links"
  pk_items :: "nat \<Rightarrow> frag_item"
  pk_next :: nat
  pk_Fd :: int

definition zero_item :: frag_item where
  "zero_item = \<lparr>fi_length = 0, fi_pos = 0, fi_data = []\<rparr>"

definition new_packed :: packed where
  "new_packed = \<lparr>pk_Hash = False, pk_links = \<lparr>lprev = (\<lambda>_. None), lnext = (\<lambda>_. None)\<rparr>,
     pk_items = (\<lambda>_. zero_item), pk_next = 0, pk_Fd = 0\<rparr>"

datatype packed_error = AlreadyInitialized | TempfileFailed tmp_error

text \<open>\<open>InitPackedFile\<close>: the loop over the table initialises its first head again and again.\<close>

definition InitPackedFile ::
  "tmp_answers \<Rightarrow> packed option \<Rightarrow> bool \<Rightarrow> fds \<Rightarrow> (packed_error option \<times> packed option \<times> fds) go" where
  "InitPackedFile ta pk fragmentsMkfs fds =
     (if pk \<noteq> None then Ret (Some AlreadyInitialized, pk, fds)
      else
        gbind (if fragmentsMkfs
               then gbind (init_all (replicate (unat FRAGMENT_HASHSIZE) (FragHead 0)) (pk_links new_packed))
                 (\<lambda>h. Ret (new_packed\<lparr>pk_Hash := True, pk_links := h\<rparr>))
               else Ret new_packed) (\<lambda>epi.
        let (tf, fds1) = ErofsTempfile ta fds in
        case tf_err tf of
          Some e \<Rightarrow> Ret (Some (TempfileFailed e), Some epi, fds1)
        | None \<Rightarrow> Ret (None, Some (epi\<lparr>pk_Fd := tf_fd tf\<rparr>), fds1)))"

definition frag_head :: "packed \<Rightarrow> u32 \<Rightarrow> frag_node option" where
  "frag_head pk crc = (if pk_Hash pk then Some (FragHead (unat (FRAGMENT_HASH (ucast crc)))) else None)"

section \<open>Recording a fragment\<close>

definition clip_fragment :: "bytes \<Rightarrow> u64 \<Rightarrow> u64 \<Rightarrow> bytes \<times> u64 \<times> u64" where
  "clip_fragment data len pos =
     (if sint len > sint EROFS_FRAGMENT_INMEM_SZ_MAX
      then (drop (unat (len - EROFS_FRAGMENT_INMEM_SZ_MAX)) data, EROFS_FRAGMENT_INMEM_SZ_MAX,
            pos + (len - EROFS_FRAGMENT_INMEM_SZ_MAX))
      else (data, len, pos))"

definition ZErofsFragmentsDedupeInsert ::
  "frag_node option \<Rightarrow> bytes \<Rightarrow> u64 \<Rightarrow> u64 \<Rightarrow> packed \<Rightarrow> packed go" where
  "ZErofsFragmentsDedupeInsert hash data len pos pk =
     (if sint len \<le> sint EROFS_TOF_HASHLEN then Ret pk
      else
        let (data1, len1, pos1) = clip_fragment data len pos;
            k = pk_next pk;
            di = \<lparr>fi_length = ucast len1, fi_pos = pos1, fi_data = take (unat len1) data1\<rparr>;
            pk1 = pk\<lparr>pk_items := (pk_items pk)(k := di), pk_next := Suc k\<rparr>
        in gbind (ListAddTail (pk_links pk1) (Some (FragItem k)) hash) (\<lambda>h.
           Ret (pk1\<lparr>pk_links := h\<rparr>)))"

section \<open>Looking for a fragment\<close>

text \<open>\<open>ListEntry\<close> yields a fresh zero item whose first word, its \<open>list.Prev\<close>, is the address of the entry.\<close>

definition fragment_entry :: "frag_node option \<Rightarrow> packed \<Rightarrow> nat \<times> packed" where
  "fragment_entry p pk =
     (let k = pk_next pk; h = pk_links pk
      in (k, pk\<lparr>pk_next := Suc k, pk_items := (pk_items pk)(k := zero_item),
               pk_links := \<lparr>lprev = (lprev h)(FragItem k := p), lnext = (lnext h)(FragItem k := None)\<rparr>\<rparr>))"

text \<open>How far two byte strings agree backwards from positions \<open>e2\<close> and \<open>e1\<close>, at most \<open>mn\<close> bytes.\<close>

fun match_back :: "nat \<Rightarrow> bytes \<Rightarrow> nat \<Rightarrow> bytes \<Rightarrow> nat \<Rightarrow> nat \<Rightarrow> nat" where
  "match_back 0 xs e2 ys e1 i = i"
| "match_back (Suc mn) xs e2 ys e1 i =
     (if xs ! (e2 - i - 1) = ys ! (e1 - i - 1) then match_back mn xs e2 ys e1 (Suc i) else i)"

text \<open>The extension of a full match by comparing the packed file with the source file, 16 KiB at a time.\<close>

fun extend_match :: "nat \<Rightarrow> int \<Rightarrow> int \<Rightarrow> u64 \<Rightarrow> u64 \<Rightarrow> u64 \<Rightarrow> fds \<Rightarrow> (u64 \<times> fds) go" where
  "extend_match 0 pfd fd isize i pos fds = NoFuel"
| "extend_match (Suc fuel) pfd fd isize i pos fds =
     (if \<not> (sint i < sint isize \<and> sint pos > 0) then Ret (i, fds)
      else
        let sz0 = (if pos < 16384 then pos else 16384);
            sz = (if isize - i < sz0 then isize - i else sz0);
            ((b0, err0), fds1) = sys_pread_fd fds pfd (unat sz) (pos - sz)
        in if length b0 \<noteq> unat sz \<or> err0 \<noteq> None then Ret (i, fds1)
           else let ((b1, err1), fds2) = sys_pread_fd fds1 fd (unat sz) (isize - i - sz)
             in if length b1 \<noteq> unat sz \<or> err1 \<noteq> None then Ret (i, fds2)
                else if b0 \<noteq> b1 then Ret (i, fds2)
                else extend_match fuel pfd fd isize (i + sz) (pos - sz) fds2)"

text \<open>What one candidate is worth: the length of the match, at least \<open>EROFS_TOF_HASHLEN\<close>, or \<open>None\<close>.\<close>

definition try_candidate ::
  "nat \<Rightarrow> frag_item \<Rightarrow> int \<Rightarrow> int \<Rightarrow> u64 \<Rightarrow> bytes \<Rightarrow> u64 \<Rightarrow> fds \<Rightarrow> (u64 option \<times> fds) go" where
  "try_candidate fuel cur pfd fd isize data s1 fds =
     (let hl = EROFS_TOF_HASHLEN; e1 = ucast s1 - ucast hl :: u32 in
      if fi_length cur \<le> ucast hl then Ret (None, fds)
      else
        let e2 = fi_length cur - ucast hl in
        gbind (gguard (unat e1 + 16 \<le> length data \<and> unat e2 + 16 \<le> length (fi_data cur)) SliceBounds) (\<lambda>_.
        if cut (unat e1) 16 data \<noteq> cut (unat e2) 16 (fi_data cur) then Ret (None, fds)
        else
          let mn = (if e1 < e2 then e1 else e2);
              i = of_nat (match_back (unat mn) (fi_data cur) (unat e2) data (unat e1) 0) + hl :: u64
          in if sint i \<ge> sint s1
             then gbind (extend_match fuel pfd fd isize i (fi_pos cur + ucast (fi_length cur) - s1) fds)
               (\<lambda>(j, fds1). Ret (Some j, fds1))
             else Ret (Some i, fds)))"

fun scan_fragments ::
  "nat \<Rightarrow> frag_node option \<Rightarrow> frag_node option \<Rightarrow> int \<Rightarrow> u64 \<Rightarrow> bytes \<Rightarrow> u64
     \<Rightarrow> frag_item option \<Rightarrow> u64 \<Rightarrow> packed \<Rightarrow> fds \<Rightarrow> ((frag_item option \<times> u64) \<times> packed \<times> fds) go" where
  "scan_fragments 0 ptr head fd isize data s1 di deduped pk fds = NoFuel"
| "scan_fragments (Suc fuel) ptr head fd isize data s1 di deduped pk fds =
     (if ptr = head then Ret ((di, deduped), pk, fds)
      else
        let (k, pk1) = fragment_entry ptr pk; cur = pk_items pk1 k in
        gbind (try_candidate fuel cur (pk_Fd pk1) fd isize data s1 fds) (\<lambda>(r, fds1).
        case r of
          Some i \<Rightarrow>
            if \<not> sint i \<le> sint deduped
            then if i = isize then Ret ((Some cur, i), pk1, fds1)
                 else gbind (get_next (pk_links pk1) ptr) (\<lambda>nx.
                   scan_fragments fuel nx head fd isize data s1 (Some cur) i pk1 fds1)
            else gbind (get_next (pk_links pk1) ptr) (\<lambda>nx.
                   scan_fragments fuel nx head fd isize data s1 di deduped pk1 fds1)
        | None \<Rightarrow> gbind (get_next (pk_links pk1) ptr) (\<lambda>nx.
                   scan_fragments fuel nx head fd isize data s1 di deduped pk1 fds1)))"

text \<open>Both searches read a system error out of \<open>err\<close> by a type assertion, which panics when a short read
  left \<open>err\<close> nil.\<close>

definition errno_of :: "int option \<Rightarrow> int go" where
  "errno_of err = (case err of Some e \<Rightarrow> Ret e | None \<Rightarrow> Panic TypeAssertion)"

definition ZErofsFragmentsDedupeFind ::
  "nat \<Rightarrow> inode \<Rightarrow> int \<Rightarrow> u32 \<Rightarrow> packed option \<Rightarrow> fds \<Rightarrow> (int \<times> inode \<times> packed option \<times> fds) go" where
  "ZErofsFragmentsDedupeFind fuel inode fd crc epi fds =
     gbind (deref epi) (\<lambda>pk.
     let head = frag_head pk crc in
     gbind (IsListEmpty (pk_links pk) head) (\<lambda>empty.
     if empty then Ret (0, inode, epi, fds)
     else if sint (in_ISize inode) < 0 then Panic (Bug ''makeslice: len out of range'')
     else
       let isize = in_ISize inode;
           s1 = (if sint isize < sint EROFS_FRAGMENT_INMEM_SZ_MAX then isize else EROFS_FRAGMENT_INMEM_SZ_MAX);
           ((data, err), fds1) = sys_pread_fd fds fd (unat s1) (isize - s1)
       in if length data \<noteq> unat s1
          then gbind (errno_of err) (\<lambda>e. Ret (- e, inode, epi, fds1))
          else gbind (get_next (pk_links pk) head) (\<lambda>first.
            gbind (scan_fragments fuel first head fd isize data s1 None 0 pk fds1) (\<lambda>((di, deduped), pk1, fds2).
            if sint deduped > 0
            then gbind (deref di) (\<lambda>d.
              Ret (0, inode\<lparr>in_FragmentSize := deduped,
                           in_Fragmentoff := fi_pos d + ucast (fi_length d) - deduped\<rparr>, Some pk1, fds2))
            else Ret (0, inode, Some pk1, fds2)))))"

definition ZErofsFragmentsDedupe ::
  "nat \<Rightarrow> inode \<Rightarrow> int \<Rightarrow> u32 \<Rightarrow> packed option \<Rightarrow> fds \<Rightarrow> (int \<times> u32 \<times> inode \<times> packed option \<times> fds) go" where
  "ZErofsFragmentsDedupe fuel inode fd tofcrc epi fds =
     (if in_ISize inode \<le> EROFS_TOF_HASHLEN then Ret (0, tofcrc, inode, epi, fds)
      else
        let ((_, err), fds1) = sys_seek fds fd (in_ISize inode - EROFS_TOF_HASHLEN) 0 in
        case err of
          Some e \<Rightarrow> Ret (- e, tofcrc, inode, epi, fds1)
        | None \<Rightarrow>
          let ((dataToHash, err2), fds2) = sys_read fds1 fd (unat EROFS_TOF_HASHLEN) in
          if length dataToHash \<noteq> unat EROFS_TOF_HASHLEN
          then gbind (errno_of err2) (\<lambda>e. Ret (- e, tofcrc, inode, epi, fds2))
          else gbind (ErofsGetCrc32c (NOT 0) dataToHash (uint EROFS_TOF_HASHLEN)) (\<lambda>crc.
            gbind (ZErofsFragmentsDedupeFind fuel inode fd crc epi fds2) (\<lambda>(ret, inode1, epi1, fds3).
            if ret < 0 then Ret (ret, crc, inode1, epi1, fds3)
            else let ((_, err3), fds4) = sys_seek fds3 fd 0 0 in
              case err3 of Some e \<Rightarrow> Ret (- e, crc, inode1, epi1, fds4)
              | None \<Rightarrow> Ret (0, crc, inode1, epi1, fds4))))"


section \<open>Packing a whole file\<close>

datatype pack_error = PackErrno int | UnexpectedEof | IncompleteWrite

text \<open>Without a mapping the file is copied in pieces of at most 32 KiB.\<close>

fun pack_copy :: "nat \<Rightarrow> int \<Rightarrow> int \<Rightarrow> u64 \<Rightarrow> fds \<Rightarrow> (pack_error option \<times> fds) go" where
  "pack_copy 0 pfd fd remaining fds = NoFuel"
| "pack_copy (Suc fuel) pfd fd remaining fds =
     (if \<not> sint remaining > 0 then Ret (None, fds)
      else
        let bufSize = (if sint remaining < 32768 then unat remaining else 32768);
            ((buf, err), fds1) = sys_read fds fd bufSize
        in case err of
             Some e \<Rightarrow> Ret (Some (PackErrno e), fds1)
           | None \<Rightarrow>
             if buf = [] then Ret (Some UnexpectedEof, fds1)
             else let ((written, err2), fds2) = sys_write fds1 pfd buf in
               case err2 of
                 Some e \<Rightarrow> Ret (Some (PackErrno e), fds2)
               | None \<Rightarrow>
                 if written \<noteq> int (length buf) then Ret (Some IncompleteWrite, fds2)
                 else pack_copy fuel pfd fd (remaining - of_nat (length buf)) fds2)"

text \<open>The data of the file reach the packed file, either from a mapping or by copying; \<open>Inr\<close> is the
  mapping, if there is one.\<close>

definition pack_data :: "nat \<Rightarrow> int \<Rightarrow> int \<Rightarrow> u64 \<Rightarrow> fds \<Rightarrow> ((pack_error + bytes option) \<times> fds) go" where
  "pack_data fuel pfd fd isize fds =
     (let (m, fds1) = sys_mmap fds fd (sint isize) in
      case m of
        Inl _ \<Rightarrow>
          gbind (pack_copy fuel pfd fd isize fds1) (\<lambda>(err, fds2).
          case err of Some e \<Rightarrow> Ret (Inl e, fds2)
          | None \<Rightarrow> let ((_, err3), fds3) = sys_seek fds2 fd 0 0 in
              case err3 of Some e \<Rightarrow> Ret (Inl (PackErrno e), fds3) | None \<Rightarrow> Ret (Inr None, fds3))
      | Inr memblock \<Rightarrow>
          let ((written, err), fds2) = sys_write fds1 pfd memblock in
          case err of Some e \<Rightarrow> Ret (Inl (PackErrno e), fds2)
          | None \<Rightarrow> if written \<noteq> sint isize then Ret (Inl IncompleteWrite, fds2)
                    else Ret (Inr (Some memblock), fds2))"

definition ZErofsPackFileFromFd ::
  "nat \<Rightarrow> inode \<Rightarrow> int \<Rightarrow> u32 \<Rightarrow> packed option \<Rightarrow> fds \<Rightarrow> (pack_error option \<times> inode \<times> packed option \<times> fds) go" where
  "ZErofsPackFileFromFd fuel inode fd toCrc epi fds =
     gbind (deref epi) (\<lambda>pk.
     let ((offset, err), fds1) = sys_seek fds (pk_Fd pk) 0 1 in
     case err of
       Some e \<Rightarrow> Ret (Some (PackErrno e), inode, epi, fds1)
     | None \<Rightarrow>
       let inode1 = inode\<lparr>in_Fragmentoff := offset, in_FragmentSize := in_ISize inode\<rparr> in
       gbind (pack_data fuel (pk_Fd pk) fd (in_ISize inode) fds1) (\<lambda>(r, fds2).
       case r of
         Inl e \<Rightarrow> Ret (Some e, inode1, epi, fds2)
       | Inr None \<Rightarrow> Ret (None, inode1, epi, fds2)
       | Inr (Some memblock) \<Rightarrow>
           gbind (ZErofsFragmentsDedupeInsert (frag_head pk toCrc) memblock (in_FragmentSize inode1)
                    (in_Fragmentoff inode1) pk) (\<lambda>pk1.
           Ret (None, inode1, Some pk1, fds2))))"


section \<open>The index as a table of lists\<close>

text \<open>Slot \<open>j\<close> of the index holds \<open>items\<close>.\<close>

definition frag_index :: "packed \<Rightarrow> nat \<Rightarrow> frag_item list \<Rightarrow> bool" where
  "frag_index pk j items \<longleftrightarrow>
     (\<exists>ids. dll (pk_links pk) (FragHead j) (map FragItem ids) \<and> map (pk_items pk) ids = items
        \<and> (\<forall>i\<in>set ids. i < pk_next pk))"

lemma Insert_short: "sint len \<le> sint EROFS_TOF_HASHLEN \<Longrightarrow> ZErofsFragmentsDedupeInsert hash data len pos pk = Ret pk"
  by (simp add: ZErofsFragmentsDedupeInsert_def)

text \<open>The item a fragment leaves in the index: its last 256 KiB.\<close>

definition fragment_item :: "bytes \<Rightarrow> u64 \<Rightarrow> u64 \<Rightarrow> frag_item" where
  "fragment_item data len pos =
     (let (data1, len1, pos1) = clip_fragment data len pos
      in \<lparr>fi_length = ucast len1, fi_pos = pos1, fi_data = take (unat len1) data1\<rparr>)"

lemma Insert_long:
  assumes "\<not> sint len \<le> sint EROFS_TOF_HASHLEN"
  shows "ZErofsFragmentsDedupeInsert hash data len pos pk =
     gbind (ListAddTail (pk_links pk) (Some (FragItem (pk_next pk))) hash) (\<lambda>h.
       Ret (pk\<lparr>pk_items := (pk_items pk)(pk_next pk := fragment_item data len pos), pk_next := Suc (pk_next pk), pk_links := h\<rparr>))"
  using assms by (simp add: ZErofsFragmentsDedupeInsert_def fragment_item_def Let_def split: prod.split)

lemma Insert_indexed:
  assumes "frag_index pk j items" "\<not> sint len \<le> sint EROFS_TOF_HASHLEN"
  shows "\<exists>pk'. ZErofsFragmentsDedupeInsert (Some (FragHead j)) data len pos pk = Ret pk'
     \<and> frag_index pk' j (items @ [fragment_item data len pos]) \<and> pk_Hash pk' = pk_Hash pk \<and> pk_Fd pk' = pk_Fd pk"
proof -
  obtain ids where ids: "dll (pk_links pk) (FragHead j) (map FragItem ids)" "map (pk_items pk) ids = items"
      "\<forall>i\<in>set ids. i < pk_next pk"
    using assms(1) by (auto simp: frag_index_def)
  have new: "pk_next pk \<notin> set ids" using ids(3) by auto
  obtain h where h: "ListAddTail (pk_links pk) (Some (FragItem (pk_next pk))) (Some (FragHead j)) = Ret h"
      "dll h (FragHead j) (map FragItem ids @ [FragItem (pk_next pk)])"
    using ring.add_tail_rep [OF ids(1), of "FragItem (pk_next pk)"] new by auto
  have "map ((pk_items pk)(pk_next pk := x)) ids = items" for x using ids(2) new by auto
  with h ids(3) Insert_long [OF assms(2)] show ?thesis
    by (auto simp: frag_index_def less_Suc_eq intro!: exI [of _ "ids @ [pk_next pk]"])
qed

text \<open>A head that was never initialised.\<close>

lemma Insert_zero_head:
  assumes "lprev (pk_links pk) (FragHead j) = None" "\<not> sint len \<le> sint EROFS_TOF_HASHLEN"
  shows "ZErofsFragmentsDedupeInsert (Some (FragHead j)) data len pos pk = Panic NilDeref"
  using assms by (simp add: Insert_long link_defs)

lemma InitPackedFile_heads:
  assumes "ta_create ta = Inr pfd" "ta_remove ta = None" "ta_chmod ta = None"
  shows "\<exists>pk. InitPackedFile ta None True fds = Ret (None, Some pk, fds(pfd \<mapsto> new_openfile))
     \<and> pk_Hash pk \<and> pk_Fd pk = pfd \<and> frag_index pk 0 []
     \<and> (\<forall>j. j \<noteq> 0 \<longrightarrow> lprev (pk_links pk) (FragHead j) = None \<and> lnext (pk_links pk) (FragHead j) = None)"
proof -
  obtain h where h: "init_all (replicate 65536 (FragHead 0)) (pk_links new_packed) = Ret h"
      "\<forall>n\<in>set (replicate 65536 (FragHead 0)). dll h n []" "same_outside (set (replicate 65536 (FragHead 0))) (pk_links new_packed) h"
    using init_all_rings [of "replicate 65536 (FragHead 0)" "pk_links new_packed"] by blast
  have "dll h (FragHead 0) []" using h(2) by (simp add: set_replicate_conv_if)
  moreover have "lprev h (FragHead j) = None \<and> lnext h (FragHead j) = None" if "j \<noteq> 0" for j
    using h(3) that by (simp add: same_outside_def new_packed_def set_replicate_conv_if)
  ultimately show ?thesis
    using h(1) assms by (simp add: InitPackedFile_def ErofsTempfile_def frag_index_def)
qed

section \<open>The search finds nothing\<close>

text \<open>Every candidate is a fresh zero item of length 0, so it is skipped.\<close>

lemma fragment_entry_skipped: "try_candidate fuel zero_item pfd fd isize data s1 fds = Ret (None, fds)"
  by (simp add: try_candidate_def zero_item_def Let_def)

lemma fragment_entry_facts:
  assumes "fragment_entry p pk = (k, pk1)"
  shows "k = pk_next pk" "pk_items pk1 k = zero_item" "pk_next pk1 = Suc (pk_next pk)" "pk_Hash pk1 = pk_Hash pk" "pk_Fd pk1 = pk_Fd pk"
    "\<And>i. i \<noteq> k \<Longrightarrow> pk_items pk1 i = pk_items pk i" "same_outside {FragItem k} (pk_links pk) (pk_links pk1)"
  using assms by (auto simp: fragment_entry_def Let_def same_outside_def)

lemma scan_fragments_nothing:
  assumes "dll (pk_links pk) (FragHead j) (map FragItem (zs @ ys))" "\<forall>i\<in>set (zs @ ys). i < pk_next pk" "length ys < fuel"
  shows "\<exists>pk'. scan_fragments fuel (Some (hd (map FragItem ys @ [FragHead j]))) (Some (FragHead j)) fd isize data s1 di deduped pk fds
       = Ret ((di, deduped), pk', fds)
     \<and> dll (pk_links pk') (FragHead j) (map FragItem (zs @ ys)) \<and> pk_next pk \<le> pk_next pk'
     \<and> (\<forall>i<pk_next pk. pk_items pk' i = pk_items pk i) \<and> pk_Hash pk' = pk_Hash pk \<and> pk_Fd pk' = pk_Fd pk"
  using assms
proof (induction ys arbitrary: zs pk fuel)
  case Nil
  then show ?case by (cases fuel) auto
next
  case (Cons y ys)
  obtain m where m: "fuel = Suc m" using Cons.prems(3) by (cases fuel) auto
  obtain k pk1 where e: "fragment_entry (Some (FragItem y)) pk = (k, pk1)" by fastforce
  note f = fragment_entry_facts [OF e]
  have d1: "dll (pk_links pk1) (FragHead j) (map FragItem ((zs @ [y]) @ ys))"
    by (rule dll_frame [OF _ f(7)]) (use Cons.prems(1,2) f(1) in auto)
  have nx: "lnext (pk_links pk1) (FragItem y) = Some (hd (map FragItem ys @ [FragHead j]))"
    using dll_mem_next [of "pk_links pk1" "FragHead j" "map FragItem zs" "FragItem y" "map FragItem ys"] d1 by simp
  obtain pk' where pk': "scan_fragments m (Some (hd (map FragItem ys @ [FragHead j]))) (Some (FragHead j)) fd isize data s1 di deduped pk1 fds
       = Ret ((di, deduped), pk', fds)" "dll (pk_links pk') (FragHead j) (map FragItem ((zs @ [y]) @ ys))"
      "pk_next pk1 \<le> pk_next pk'" "\<forall>i<pk_next pk1. pk_items pk' i = pk_items pk1 i" "pk_Hash pk' = pk_Hash pk1" "pk_Fd pk' = pk_Fd pk1"
  proof -
    have "\<forall>i\<in>set ((zs @ [y]) @ ys). i < pk_next pk1" "length ys < m"
      using Cons.prems(2,3) f(3) m by (auto simp: less_Suc_eq)
    from Cons.IH [OF d1 this] show thesis using that by blast
  qed
  have "scan_fragments fuel (Some (hd (map FragItem (y # ys) @ [FragHead j]))) (Some (FragHead j)) fd isize data s1 di deduped pk fds
     = Ret ((di, deduped), pk', fds)"
    using m e f(2) nx pk'(1) by (simp add: fragment_entry_skipped get_next_def)
  with pk' f show ?case by (intro exI [of _ pk']) auto
qed

text \<open>The tail of the source file that the search works on.\<close>

lemma Find_tail_read:
  assumes src: "served fds fd data p" "unat n = length data"
  defines "s1 \<equiv> if sint n < sint EROFS_FRAGMENT_INMEM_SZ_MAX then n else EROFS_FRAGMENT_INMEM_SZ_MAX"
  shows "\<exists>fds1. sys_pread_fd fds fd (unat s1) (n - s1) = ((read_at data (unat (n - s1)) (unat s1), None), fds1)
     \<and> served fds1 fd data p \<and> (\<forall>x. x \<noteq> fd \<longrightarrow> fds1 x = fds x)
     \<and> length (read_at data (unat (n - s1)) (unat s1)) = unat s1"
proof -
  have n: "unat n < 2 ^ 62" using src by (auto simp: served_def)
  then have pos: "sint n = int (unat n)" by (intro sint_small) simp
  have le: "unat s1 \<le> unat n"
  proof (cases "sint n < sint EROFS_FRAGMENT_INMEM_SZ_MAX")
    case False
    then have "262144 \<le> int (unat n)" using pos by simp
    then have "(262144 :: nat) \<le> unat n" by linarith
    with False show ?thesis by (simp add: s1_def)
  qed (simp add: s1_def)
  then have o: "unat (n - s1) = unat n - unat s1" by (intro unat_sub) (simp only: word_le_nat_alt)
  then have "length (read_at data (unat (n - s1)) (unat s1)) = unat s1"
    using src(2) le by (simp only: length_read_at)
  moreover have "unat (n - s1) < 2 ^ 63" using n o by simp
  ultimately show ?thesis using served_pread [OF src(1), of "n - s1" "unat s1"] by blast
qed

lemma Find_nothing:
  assumes idx: "frag_index pk j items" "length items < fuel" and pk: "pk_Hash pk" "unat (FRAGMENT_HASH (ucast crc)) = j"
    and src: "served fds fd data p" "unat (in_ISize inode) = length data"
  shows "\<exists>pk' fds'. ZErofsFragmentsDedupeFind fuel inode fd crc (Some pk) fds = Ret (0, inode, Some pk', fds')
     \<and> frag_index pk' j items \<and> pk_Hash pk' \<and> pk_Fd pk' = pk_Fd pk \<and> served fds' fd data p \<and> (\<forall>x. x \<noteq> fd \<longrightarrow> fds' x = fds x)"
proof -
  obtain ids where ids: "dll (pk_links pk) (FragHead j) (map FragItem ids)" "map (pk_items pk) ids = items"
      "\<forall>i\<in>set ids. i < pk_next pk"
    using idx(1) by (auto simp: frag_index_def)
  have h: "frag_head pk crc = Some (FragHead j)" using pk by (simp add: frag_head_def)
  show ?thesis
  proof (cases "ids = []")
    case True
    have "IsListEmpty (pk_links pk) (Some (FragHead j)) = Ret True" using IsListEmpty_dll [OF ids(1)] True by simp
    with h src idx(1) pk(1) show ?thesis by (simp add: ZErofsFragmentsDedupeFind_def)
  next
    case False
    have e: "IsListEmpty (pk_links pk) (Some (FragHead j)) = Ret False" using IsListEmpty_dll [OF ids(1)] False by simp
    let ?n = "in_ISize inode"
    let ?s1 = "if sint ?n < sint EROFS_FRAGMENT_INMEM_SZ_MAX then ?n else EROFS_FRAGMENT_INMEM_SZ_MAX"
    have "unat ?n < 2 ^ 62" using src by (auto simp: served_def)
    then have pos: "sint ?n = int (unat ?n)" by (intro sint_small) simp
    obtain fds1 where r: "sys_pread_fd fds fd (unat ?s1) (?n - ?s1) = ((read_at data (unat (?n - ?s1)) (unat ?s1), None), fds1)"
        "served fds1 fd data p" "\<forall>x. x \<noteq> fd \<longrightarrow> fds1 x = fds x"
        and l: "length (read_at data (unat (?n - ?s1)) (unat ?s1)) = unat ?s1"
      using Find_tail_read [OF src] by blast
    have nx: "lnext (pk_links pk) (FragHead j) = Some (hd (map FragItem ids @ [FragHead j]))" using dll_next [OF ids(1)] .
    obtain pk' where pk': "scan_fragments fuel (Some (hd (map FragItem ids @ [FragHead j]))) (Some (FragHead j)) fd ?n
          (read_at data (unat (?n - ?s1)) (unat ?s1)) ?s1 None 0 pk fds1 = Ret ((None, 0), pk', fds1)"
        "dll (pk_links pk') (FragHead j) (map FragItem ids)" "pk_next pk \<le> pk_next pk'"
        "\<forall>i<pk_next pk. pk_items pk' i = pk_items pk i" "pk_Hash pk' = pk_Hash pk" "pk_Fd pk' = pk_Fd pk"
    proof -
      have "dll (pk_links pk) (FragHead j) (map FragItem ([] @ ids))" "\<forall>i\<in>set ([] @ ids). i < pk_next pk" "length ids < fuel"
        using ids idx(2) by auto
      from scan_fragments_nothing [OF this, of fd ?n "read_at data (unat (?n - ?s1)) (unat ?s1)" ?s1 None 0 fds1]
      show thesis using that by (simp only: append_Nil) blast
    qed
    have "map (pk_items pk') ids = items" using ids(2,3) pk'(4) by auto
    then have "frag_index pk' j items" using pk'(2,3) ids(3) by (auto simp: frag_index_def intro!: exI [of _ ids] dest: less_le_trans)
    moreover have "ZErofsFragmentsDedupeFind fuel inode fd crc (Some pk) fds = Ret (0, inode, Some pk', fds1)"
      using h e pos r(1) l nx pk'(1) by (simp add: ZErofsFragmentsDedupeFind_def Let_def get_next_def del: EROFS_FRAGMENT_INMEM_SZ_MAX_def)
    ultimately show ?thesis using pk'(5,6) pk(1) r by blast
  qed
qed


lemma Find_zero_head:
  assumes "pk_Hash pk" "lnext (pk_links pk) (FragHead (unat (FRAGMENT_HASH (ucast crc)))) = None"
    and src: "served fds fd data p" "unat (in_ISize inode) = length data"
  shows "ZErofsFragmentsDedupeFind fuel inode fd crc (Some pk) fds = (if fuel = 0 then NoFuel else Panic NilDeref)"
proof -
  let ?j = "unat (FRAGMENT_HASH (ucast crc))" let ?n = "in_ISize inode"
  let ?s1 = "if sint ?n < sint EROFS_FRAGMENT_INMEM_SZ_MAX then ?n else EROFS_FRAGMENT_INMEM_SZ_MAX"
  have h: "frag_head pk crc = Some (FragHead ?j)" using assms(1) by (simp add: frag_head_def)
  have e: "IsListEmpty (pk_links pk) (Some (FragHead ?j)) = Ret False" using assms(2) by (simp add: link_defs)
  have n: "unat ?n < 2 ^ 62" using src by (auto simp: served_def)
  then have pos: "sint ?n = int (unat ?n)" by (intro sint_small) simp
  obtain fds1 where r: "sys_pread_fd fds fd (unat ?s1) (?n - ?s1) = ((read_at data (unat (?n - ?s1)) (unat ?s1), None), fds1)"
      "length (read_at data (unat (?n - ?s1)) (unat ?s1)) = unat ?s1"
    using Find_tail_read [OF src] by blast
  obtain k pk1 where f: "fragment_entry None pk = (k, pk1)" by fastforce
  have "scan_fragments fuel None (Some (FragHead ?j)) fd ?n (read_at data (unat (?n - ?s1)) (unat ?s1)) ?s1 None 0 pk fds1
      = (if fuel = 0 then NoFuel else Panic NilDeref)"
    using f fragment_entry_facts(2) [OF f] by (cases fuel) (simp_all add: fragment_entry_skipped get_next_def)
  then show ?thesis
    using h e pos r assms(2) by (simp add: ZErofsFragmentsDedupeFind_def Let_def get_next_def del: EROFS_FRAGMENT_INMEM_SZ_MAX_def split: if_split)
qed


lemma Dedupe_nothing:
  assumes long: "in_ISize inode > EROFS_TOF_HASHLEN" and src: "served fds fd data p" "unat (in_ISize inode) = length data"
  defines "crc \<equiv> Crc32c (NOT 0) (drop (length data - 16) data)"
  assumes idx: "frag_index pk (unat (FRAGMENT_HASH (ucast crc))) items" "length items < fuel" "pk_Hash pk"
  shows "\<exists>pk' fds'. ZErofsFragmentsDedupe fuel inode fd tofcrc (Some pk) fds = Ret (0, crc, inode, Some pk', fds')
     \<and> frag_index pk' (unat (FRAGMENT_HASH (ucast crc))) items \<and> pk_Fd pk' = pk_Fd pk \<and> served fds' fd data 0"
proof -
  let ?n = "in_ISize inode"
  have n: "16 < unat ?n" "unat ?n < 2 ^ 62" using long src by (auto simp: word_less_nat_alt served_def)
  then have o: "unat (?n - 16) = length data - 16" using src(2) by (subst unat_sub) (simp_all add: word_le_nat_alt)
  then have "unat (?n - 16) < 2 ^ 62" using n src(2) by simp
  then obtain fds1 where f1: "sys_seek fds fd (?n - 16) 0 = ((?n - 16, None), fds1)" "served fds1 fd data (length data - 16)"
    using served_seek [OF src(1)] o by metis
  have r: "read_at data (length data - 16) 16 = drop (length data - 16) data"
    using n src(2) by (simp add: read_at_def cut_def)
  obtain fds2 where f2: "sys_read fds1 fd 16 = ((drop (length data - 16) data, None), fds2)" "served fds2 fd data (length data)"
    using served_read [OF f1(2), of 16] n src(2) unfolding r by auto
  have l: "length (drop (length data - 16) data) = 16" using n src(2) by simp
  have c: "ErofsGetCrc32c (NOT 0) (drop (length data - 16) data) 16 = Ret crc"
    using l by (simp add: ErofsGetCrc32c_eq crc_def)
  obtain pk' fds3 where f3: "ZErofsFragmentsDedupeFind fuel inode fd crc (Some pk) fds2 = Ret (0, inode, Some pk', fds3)"
      "frag_index pk' (unat (FRAGMENT_HASH (ucast crc))) items" "pk_Fd pk' = pk_Fd pk" "served fds3 fd data (length data)"
    using Find_nothing [OF idx(1,2,3) refl f2(2) src(2)] by blast
  obtain fds4 where "sys_seek fds3 fd 0 0 = ((0, None), fds4)" "served fds4 fd data 0"
    using served_seek [OF f3(4), of 0] by auto
  moreover have "\<not> ?n \<le> 16" using long by simp
  ultimately show ?thesis using f1(1) f2(1) f3 l c by (simp add: ZErofsFragmentsDedupe_def)
qed

section \<open>Packing copies the file\<close>

lemma pack_copy_all:
  assumes "served fds fd data p" "served fds pfd old q" "fd \<noteq> pfd" "p \<le> length data" "unat remaining = length data - p"
    and "q + (length data - p) < 2 ^ 62" "(length data - p + 32767) div 32768 < fuel"
  shows "\<exists>fds'. pack_copy fuel pfd fd remaining fds = Ret (None, fds') \<and> served fds' fd data (length data)
     \<and> served fds' pfd (write_at old q (drop p data)) (q + (length data - p))"
  using assms
proof (induction fuel arbitrary: fds p old q remaining)
  case (Suc fuel)
  have lim: "length data < 2 ^ 62" "length old < 2 ^ 62" using Suc.prems(1,2) by (auto simp: served_def)
  then have r: "unat remaining < 2 ^ 62" using Suc.prems(5) by simp
  then have sr: "sint remaining = int (unat remaining)" by (intro sint_small) simp
  show ?case
  proof (cases "p = length data")
    case True
    then have "\<not> sint remaining > 0" using sr Suc.prems(5) by simp
    with True Suc.prems(1,2) show ?thesis by simp
  next
    case False
    let ?b = "if sint remaining < 32768 then unat remaining else 32768"
    let ?bs = "read_at data p ?b"
    have b: "?b = min (length data - p) 32768"
      using sr Suc.prems(5) by auto
    have lb: "length ?bs = min (length data - p) 32768" unfolding length_read_at b by simp
    have ne: "?bs \<noteq> []" using lb False Suc.prems(4) by (auto simp flip: length_0_conv)
    obtain fds1 where f1: "sys_read fds fd ?b = ((?bs, None), fds1)" "served fds1 fd data (p + length ?bs)"
        "\<forall>x. x \<noteq> fd \<longrightarrow> fds1 x = fds x"
      using served_read [OF Suc.prems(1), of ?b] by blast
    have p1: "served fds1 pfd old q" using served_other [OF Suc.prems(2) f1(3)] Suc.prems(3) by auto
    have q1: "q + length ?bs < 2 ^ 62" using Suc.prems(6) lb by simp
    obtain fds2 where f2: "sys_write fds1 pfd ?bs = ((int (length ?bs), None), fds2)"
        "served fds2 pfd (write_at old q ?bs) (q + length ?bs)" "\<forall>x. x \<noteq> pfd \<longrightarrow> fds2 x = fds1 x"
      using served_write [OF p1 q1 lim(2)] by blast
    have s2: "served fds2 fd data (p + length ?bs)" using served_other [OF f1(2) f2(3) Suc.prems(3)] .
    let ?r = "remaining - of_nat (length ?bs)"
    have lr: "length ?bs \<le> unat remaining" using lb Suc.prems(5) by simp
    have "unat (of_nat (length ?bs) :: u64) = length ?bs" using lb by (simp add: unat_of_pos)
    then have ur: "unat ?r = length data - (p + length ?bs)"
      using lr Suc.prems(5) by (subst unat_sub) (simp_all add: word_le_nat_alt)
    have pre: "p + length ?bs \<le> length data" "q + length ?bs + (length data - (p + length ?bs)) < 2 ^ 62"
      using lb Suc.prems(4,6) by simp_all
    have fuel: "(length data - (p + length ?bs) + 32767) div 32768 < fuel"
    proof (cases "length data - p \<le> 32768")
      case True
      then have "length data - (p + length ?bs) = 0" using lb by simp
      moreover have "1 \<le> (length data - p + 32767) div 32768" using False Suc.prems(4) by (simp add: Suc_leI div_greater_zero_iff)
      ultimately show ?thesis using Suc.prems(7) by simp
    next
      case big: False
      then have "length data - p + 32767 = 32768 + (length data - (p + length ?bs) + 32767)" using lb by simp
      then have "(length data - p + 32767) div 32768 = Suc ((length data - (p + length ?bs) + 32767) div 32768)"
        by (simp only: div_add_self1 [of "32768 :: nat"] Suc_eq_plus1)
      with Suc.prems(7) show ?thesis by linarith
    qed
    obtain fds' where f': "pack_copy fuel pfd fd ?r fds2 = Ret (None, fds')" "served fds' fd data (length data)"
        "served fds' pfd (write_at (write_at old q ?bs) (q + length ?bs) (drop (p + length ?bs) data))
           (q + length ?bs + (length data - (p + length ?bs)))"
      using Suc.IH [OF s2 f2(2) Suc.prems(3) pre(1) ur pre(2) fuel] by blast
    have w: "write_at (write_at old q ?bs) (q + length ?bs) (drop (p + length ?bs) data) = write_at old q (drop p data)"
      by (simp add: write_at_append read_at_rest)
    have e: "q + length ?bs + (length data - (p + length ?bs)) = q + (length data - p)" using pre(1) by simp
    have "pack_copy (Suc fuel) pfd fd remaining fds = Ret (None, fds')"
      using False sr Suc.prems(4,5) f1(1) ne f2(1) f'(1) by (simp add: Let_def)
    with f'(2,3) w e show ?thesis by auto
  qed
qed simp


text \<open>A source file whose mapping is refused, and that is served otherwise.\<close>

definition mmap_refused :: "fds \<Rightarrow> int \<Rightarrow> bytes \<Rightarrow> bool" where
  "mmap_refused fds fd data \<longleftrightarrow> (\<exists>f e. fds fd = Some f \<and> f_data (of_file f) = data \<and> of_pos f = 0
     \<and> f_script (of_file f) = [Fail e] \<and> f_rest (of_file f) = Full \<and> length data < 2 ^ 62)"

lemma mmap_refused_served:
  assumes "mmap_refused fds fd data" "0 < n"
  shows "\<exists>e fds'. sys_mmap fds fd n = (Inl e, fds') \<and> served fds' fd data 0 \<and> (\<forall>x. x \<noteq> fd \<longrightarrow> fds' x = fds x)"
  using assms by (auto simp: mmap_refused_def sys_mmap_def next_resp_def served_def)

lemma pack_data_all:
  assumes src: "served fds fd data 0 \<or> mmap_refused fds fd data" and dst: "served fds pfd old q" "fd \<noteq> pfd"
    and n: "unat isize = length data" "0 < length data" "q + length data < 2 ^ 62" and fuel: "(length data + 32767) div 32768 < fuel"
  shows "\<exists>m fds'. pack_data fuel pfd fd isize fds = Ret (Inr m, fds')
     \<and> served fds' pfd (write_at old q data) (q + length data) \<and> served fds' fd data 0
     \<and> m = (if mmap_refused fds fd data then None else Some data)"
proof -
  have lim: "length data < 2 ^ 62" "length old < 2 ^ 62" using src dst(1) by (auto simp: served_def mmap_refused_def)
  then have s: "sint isize = int (length data)" using n(1) by (subst sint_small) simp_all
  show ?thesis
  proof (cases "mmap_refused fds fd data")
    case False
    then have sv: "served fds fd data 0" using src by simp
    obtain fds1 where f1: "sys_mmap fds fd (int (length data)) = (Inr data, fds1)" "served fds1 fd data 0"
        "\<forall>x. x \<noteq> fd \<longrightarrow> fds1 x = fds x"
      using served_mmap [OF sv n(2) order_refl] by auto
    have p1: "served fds1 pfd old q" using served_other [OF dst(1) f1(3)] dst(2) by auto
    obtain fds2 where f2: "sys_write fds1 pfd data = ((int (length data), None), fds2)"
        "served fds2 pfd (write_at old q data) (q + length data)" "\<forall>x. x \<noteq> pfd \<longrightarrow> fds2 x = fds1 x"
      using served_write [OF p1 n(3) lim(2)] by blast
    have "served fds2 fd data 0" by (rule served_other [OF f1(2) f2(3) dst(2)])
    with f1(1) f2 s False show ?thesis by (simp add: pack_data_def)
  next
    case True
    obtain e fds1 where f1: "sys_mmap fds fd (int (length data)) = (Inl e, fds1)" "served fds1 fd data 0"
        "\<forall>x. x \<noteq> fd \<longrightarrow> fds1 x = fds x"
      using mmap_refused_served [OF True, of "int (length data)"] n(2) by auto
    have p1: "served fds1 pfd old q" using served_other [OF dst(1) f1(3)] dst(2) by auto
    obtain fds2 where f2: "pack_copy fuel pfd fd isize fds1 = Ret (None, fds2)" "served fds2 fd data (length data)"
        "served fds2 pfd (write_at old q data) (q + length data)"
      using pack_copy_all [OF f1(2) p1 dst(2), of isize fuel] n fuel by auto
    obtain fds3 where f3: "sys_seek fds2 fd 0 0 = ((0, None), fds3)" "served fds3 fd data 0" "\<forall>x. x \<noteq> fd \<longrightarrow> fds3 x = fds2 x"
      using served_seek [OF f2(2), of 0] by auto
    have "served fds3 pfd (write_at old q data) (q + length data)" using served_other [OF f2(3) f3(3)] dst(2) by auto
    with f1(1) f2(1) f3 s True show ?thesis by (simp add: pack_data_def)
  qed
qed

text \<open>Mapped or copied, the bytes end up at the position recorded in the inode; only a mapped file is
  entered into the index.\<close>

lemma PackFile_all:
  assumes src: "served fds fd data 0 \<or> mmap_refused fds fd data" and dst: "served fds (pk_Fd pk) old q" "fd \<noteq> pk_Fd pk"
    and n: "unat (in_ISize inode) = length data" "16 < length data" "q + length data < 2 ^ 62"
    and fuel: "(length data + 32767) div 32768 < fuel"
    and idx: "pk_Hash pk" "frag_index pk (unat (FRAGMENT_HASH (ucast crc))) items"
  shows "\<exists>inode' pk' fds'. ZErofsPackFileFromFd fuel inode fd crc (Some pk) fds = Ret (None, inode', Some pk', fds')
     \<and> in_Fragmentoff inode' = of_nat q \<and> in_FragmentSize inode' = in_ISize inode
     \<and> served fds' (pk_Fd pk) (write_at old q data) (q + length data) \<and> served fds' fd data 0
     \<and> frag_index pk' (unat (FRAGMENT_HASH (ucast crc)))
         (items @ (if mmap_refused fds fd data then [] else [fragment_item data (in_ISize inode) (of_nat q)]))"
proof -
  obtain f where f: "fds (pk_Fd pk) = Some f" "of_pos f = q" using dst(1) by (auto simp: served_def)
  have q: "q < 2 ^ 62" using n(3) by simp
  have sk: "sys_seek fds (pk_Fd pk) 0 1 = ((of_nat q, None), fds(pk_Fd pk \<mapsto> f))"
    using f q sint_of_nat_pos [of q] unat_of_pos [of q] by (auto simp: sys_seek_def Let_def not_less)
  have id: "fds(pk_Fd pk \<mapsto> f) = fds" using f(1) by auto
  obtain m fds' where d: "pack_data fuel (pk_Fd pk) fd (in_ISize inode) fds = Ret (Inr m, fds')"
      "served fds' (pk_Fd pk) (write_at old q data) (q + length data)" "served fds' fd data 0"
      "m = (if mmap_refused fds fd data then None else Some data)"
    using pack_data_all [OF src dst n(1) _ n(3) fuel] n(2) by (cases "data = []") auto
  have "length data < 2 ^ 63" using n(3) by simp
  then have "sint (in_ISize inode) = int (length data)" using n(1) by (subst sint_small) simp_all
  then have long: "\<not> sint (in_ISize inode) \<le> sint EROFS_TOF_HASHLEN" using n(2) by simp
  have h: "frag_head pk crc = Some (FragHead (unat (FRAGMENT_HASH (ucast crc))))" using idx(1) by (simp add: frag_head_def)
  show ?thesis
  proof (cases "mmap_refused fds fd data")
    case True
    with sk id d idx(2) show ?thesis by (simp add: ZErofsPackFileFromFd_def)
  next
    case False
    obtain pk' where "ZErofsFragmentsDedupeInsert (frag_head pk crc) data (in_ISize inode) (of_nat q) pk = Ret pk'"
        "frag_index pk' (unat (FRAGMENT_HASH (ucast crc))) (items @ [fragment_item data (in_ISize inode) (of_nat q)])"
      using Insert_indexed [OF idx(2) long] unfolding h by blast
    with False sk id d show ?thesis by (simp add: ZErofsPackFileFromFd_def)
  qed
qed

text \<open>In a slot that \<open>InitPackedFile\<close> left at zero the data are written first, then the run panics.\<close>

lemma PackFile_zero_head:
  assumes src: "served fds fd data 0" and dst: "served fds (pk_Fd pk) old q" "fd \<noteq> pk_Fd pk"
    and n: "unat (in_ISize inode) = length data" "16 < length data" "q + length data < 2 ^ 62"
    and fuel: "(length data + 32767) div 32768 < fuel"
    and idx: "pk_Hash pk" "lprev (pk_links pk) (FragHead (unat (FRAGMENT_HASH (ucast crc)))) = None"
  shows "ZErofsPackFileFromFd fuel inode fd crc (Some pk) fds = Panic NilDeref"
proof -
  obtain f where f: "fds (pk_Fd pk) = Some f" "of_pos f = q" using dst(1) by (auto simp: served_def)
  have q: "q < 2 ^ 62" using n(3) by simp
  have sk: "sys_seek fds (pk_Fd pk) 0 1 = ((of_nat q, None), fds(pk_Fd pk \<mapsto> f))"
    using f q sint_of_nat_pos [of q] unat_of_pos [of q] by (auto simp: sys_seek_def Let_def not_less)
  have id: "fds(pk_Fd pk \<mapsto> f) = fds" using f(1) by auto
  have "\<not> mmap_refused fds fd data" using src by (auto simp: mmap_refused_def served_def)
  then obtain fds' where d: "pack_data fuel (pk_Fd pk) fd (in_ISize inode) fds = Ret (Inr (Some data), fds')"
    using pack_data_all [OF disjI1 [OF src] dst n(1) _ n(3) fuel] n(2) by (cases "data = []") auto
  have "length data < 2 ^ 63" using n(3) by simp
  then have "sint (in_ISize inode) = int (length data)" using n(1) by (subst sint_small) simp_all
  then have "\<not> sint (in_ISize inode) \<le> sint EROFS_TOF_HASHLEN" using n(2) by simp
  then have "ZErofsFragmentsDedupeInsert (frag_head pk crc) data (in_ISize inode) (of_nat q) pk = Panic NilDeref"
    using Insert_zero_head [OF idx(2)] idx(1) by (simp add: frag_head_def)
  with sk id d show ?thesis by (simp add: ZErofsPackFileFromFd_def)
qed

end
