(* ===== verification/Reflect.thy ===== *)
theory Reflect
  imports Links
begin

text \<open>
  The reflective list iterators of \<open>pkg/types/list.go\<close>: \<open>ListEntry\<close> and \<open>ContainerOf\<close> for an arbitrary
  struct type, \<open>ListNextEntry\<close>, \<open>ListPrevEntry\<close> and the \<open>ListForEachEntry\<close> family.  A struct type is the
  list of its fields; memory is a store of links between addresses, and the address 0 is \<open>nil\<close>.
\<close>

section \<open>Struct types and values\<close>

text \<open>The type of a field is \<open>ListHead\<close>, \<open>*ListHead\<close>, or another one.\<close>

datatype field_type = ListHeadField | ListHeadPtr | OtherField

record struct_field =
  fd_name :: string
  fd_type :: field_type
  fd_offset :: nat

type_synonym container = "struct_field list"

text \<open>A pointer to a struct: its type and its words by offset.\<close>

record entry =
  en_type :: container
  en_words :: "nat \<Rightarrow> u64"

definition FieldByName :: "container \<Rightarrow> string \<Rightarrow> struct_field option" where
  "FieldByName ct name = find (\<lambda>f. fd_name f = name) ct"

definition exported :: "string \<Rightarrow> bool" where
  "exported name = (case name of [] \<Rightarrow> False | c # _ \<Rightarrow> c \<in> set ''ABCDEFGHIJKLMNOPQRSTUVWXYZ'')"

definition as_pointer :: "u64 \<Rightarrow> u64 option" where
  "as_pointer w = (if w = 0 then None else Some w)"

definition address :: "u64 option \<Rightarrow> u64" where
  "address p = (case p of None \<Rightarrow> 0 | Some a \<Rightarrow> a)"

section \<open>Operations\<close>

text \<open>\<open>ContainerOf\<close> makes a new zero struct and stores the address it computed in the first word.\<close>

definition container_of :: "u64 option \<Rightarrow> container \<Rightarrow> string \<Rightarrow> entry go" where
  "container_of ptr ct member =
     (case FieldByName ct member of
        None \<Rightarrow> Panic (Bug ''ContainerOf: member not found'')
      | Some f \<Rightarrow> Ret \<lparr>en_type = ct, en_words = (\<lambda>_. 0)(0 := address ptr - of_nat (fd_offset f))\<rparr>)"

definition ListEntry :: "u64 option \<Rightarrow> container \<Rightarrow> string \<Rightarrow> entry go" where
  "ListEntry ptr ct member = container_of ptr ct member"

definition ListFirstEntry :: "u64 links \<Rightarrow> u64 option \<Rightarrow> container \<Rightarrow> string \<Rightarrow> entry go" where
  "ListFirstEntry h head ct member = gbind (get_next h head) (\<lambda>p. ListEntry p ct member)"

definition ListLastEntry :: "u64 links \<Rightarrow> u64 option \<Rightarrow> container \<Rightarrow> string \<Rightarrow> entry go" where
  "ListLastEntry h head ct member = gbind (get_prev h head) (\<lambda>p. ListEntry p ct member)"

text \<open>\<open>memberField.Interface().(*ListHead)\<close>: reflection refuses unexported fields, the assertion every type
  but \<open>*ListHead\<close>.\<close>

definition member_head :: "entry \<Rightarrow> struct_field \<Rightarrow> u64 option go" where
  "member_head pos f =
     gbind (gguard (exported (fd_name f)) (Bug ''reflect: unexported field'')) (\<lambda>_.
     gbind (gguard (fd_type f = ListHeadPtr) TypeAssertion) (\<lambda>_.
     Ret (as_pointer (en_words pos (fd_offset f)))))"

text \<open>\<open>ListNextEntry\<close> and \<open>ListPrevEntry\<close> insist on a field of type \<open>*ListHead\<close>.\<close>

definition ListNextEntry :: "u64 links \<Rightarrow> entry \<Rightarrow> string \<Rightarrow> entry go" where
  "ListNextEntry h pos member =
     (case FieldByName (en_type pos) member of
        None \<Rightarrow> Panic (Bug ''ListNextEntry: invalid member field'')
      | Some f \<Rightarrow>
          if fd_type f \<noteq> ListHeadPtr then Panic (Bug ''ListNextEntry: invalid member field'')
          else gbind (member_head pos f) (\<lambda>l. gbind (get_next h l) (\<lambda>p. ListEntry p (en_type pos) member)))"

definition ListPrevEntry :: "u64 links \<Rightarrow> entry \<Rightarrow> string \<Rightarrow> entry go" where
  "ListPrevEntry h pos member =
     (case FieldByName (en_type pos) member of
        None \<Rightarrow> Panic (Bug ''ListPrevEntry: invalid member field'')
      | Some f \<Rightarrow>
          if fd_type f \<noteq> ListHeadPtr then Panic (Bug ''ListPrevEntry: invalid member field'')
          else gbind (member_head pos f) (\<lambda>l. gbind (get_prev h l) (\<lambda>p. ListEntry p (en_type pos) member)))"

text \<open>The test at the top of every loop: the member of \<open>pos\<close>, compared with the head.\<close>

definition entry_head :: "string \<Rightarrow> entry \<Rightarrow> string \<Rightarrow> u64 option go" where
  "entry_head msg pos member =
     (case FieldByName (en_type pos) member of None \<Rightarrow> Panic (Bug msg) | Some f \<Rightarrow> member_head pos f)"

fun ListForEachEntry_loop ::
  "nat \<Rightarrow> ('s \<Rightarrow> u64 links) \<Rightarrow> u64 option \<Rightarrow> string \<Rightarrow> (entry \<Rightarrow> 's \<Rightarrow> (bool \<times> 's) go) \<Rightarrow> entry \<Rightarrow> 's \<Rightarrow> 's go" where
  "ListForEachEntry_loop 0 lk head member f pos s = NoFuel"
| "ListForEachEntry_loop (Suc n) lk head member f pos s =
     gbind (entry_head ''ListForEachEntry: invalid member field'' pos member) (\<lambda>l.
     if l = head then Ret s
     else gbind (f pos s) (\<lambda>(go_on, s1).
       if \<not> go_on then Ret s1
       else gbind (ListNextEntry (lk s1) pos member) (\<lambda>pos1.
         ListForEachEntry_loop n lk head member f pos1 s1)))"

definition ListForEachEntry ::
  "nat \<Rightarrow> ('s \<Rightarrow> u64 links) \<Rightarrow> u64 option \<Rightarrow> container \<Rightarrow> string \<Rightarrow> (entry \<Rightarrow> 's \<Rightarrow> (bool \<times> 's) go) \<Rightarrow> 's \<Rightarrow> 's go" where
  "ListForEachEntry n lk head ct member f s =
     gbind (ListFirstEntry (lk s) head ct member) (\<lambda>pos. ListForEachEntry_loop n lk head member f pos s)"

fun ListForEachEntryReverse_loop ::
  "nat \<Rightarrow> ('s \<Rightarrow> u64 links) \<Rightarrow> u64 option \<Rightarrow> string \<Rightarrow> (entry \<Rightarrow> 's \<Rightarrow> (bool \<times> 's) go) \<Rightarrow> entry \<Rightarrow> 's \<Rightarrow> 's go" where
  "ListForEachEntryReverse_loop 0 lk head member f pos s = NoFuel"
| "ListForEachEntryReverse_loop (Suc n) lk head member f pos s =
     gbind (entry_head ''ListForEachEntryReverse: invalid member field'' pos member) (\<lambda>l.
     if l = head then Ret s
     else gbind (f pos s) (\<lambda>(go_on, s1).
       if \<not> go_on then Ret s1
       else gbind (ListPrevEntry (lk s1) pos member) (\<lambda>pos1.
         ListForEachEntryReverse_loop n lk head member f pos1 s1)))"

definition ListForEachEntryReverse ::
  "nat \<Rightarrow> ('s \<Rightarrow> u64 links) \<Rightarrow> u64 option \<Rightarrow> container \<Rightarrow> string \<Rightarrow> (entry \<Rightarrow> 's \<Rightarrow> (bool \<times> 's) go) \<Rightarrow> 's \<Rightarrow> 's go" where
  "ListForEachEntryReverse n lk head ct member f s =
     gbind (ListLastEntry (lk s) head ct member) (\<lambda>pos. ListForEachEntryReverse_loop n lk head member f pos s)"

fun ListForEachEntrySafe_loop ::
  "nat \<Rightarrow> ('s \<Rightarrow> u64 links) \<Rightarrow> u64 option \<Rightarrow> string \<Rightarrow> (entry \<Rightarrow> entry \<Rightarrow> 's \<Rightarrow> (bool \<times> 's) go) \<Rightarrow> entry \<Rightarrow> 's \<Rightarrow> 's go" where
  "ListForEachEntrySafe_loop 0 lk head member f pos s = NoFuel"
| "ListForEachEntrySafe_loop (Suc k) lk head member f pos s =
     gbind (entry_head ''ListForEachEntrySafe: invalid member field'' pos member) (\<lambda>l.
     if l = head then Ret s
     else gbind (ListNextEntry (lk s) pos member) (\<lambda>n.
       gbind (f pos n s) (\<lambda>(go_on, s1).
         if \<not> go_on then Ret s1
         else ListForEachEntrySafe_loop k lk head member f n s1)))"

definition ListForEachEntrySafe ::
  "nat \<Rightarrow> ('s \<Rightarrow> u64 links) \<Rightarrow> u64 option \<Rightarrow> container \<Rightarrow> string \<Rightarrow> (entry \<Rightarrow> entry \<Rightarrow> 's \<Rightarrow> (bool \<times> 's) go) \<Rightarrow> 's \<Rightarrow> 's go" where
  "ListForEachEntrySafe n lk head ct member f s =
     gbind (ListFirstEntry (lk s) head ct member) (\<lambda>pos. ListForEachEntrySafe_loop n lk head member f pos s)"

text \<open>\<open>ListForEachEntrySafeWithPos\<close> returns a closure over \<open>pos\<close> and \<open>n\<close>, here the value \<open>At pos n\<close>, or one
  that always answers \<open>(nil, nil, false)\<close>; \<open>next_pair\<close> is a call of the closure.\<close>

datatype pair_iterator = Exhausted | At entry entry

definition pos_head :: "entry \<Rightarrow> string \<Rightarrow> u64 option go" where
  "pos_head pos member = entry_head ''reflect: call of Interface on zero Value'' pos member"

definition ListForEachEntrySafeWithPos :: "u64 links \<Rightarrow> u64 option \<Rightarrow> container \<Rightarrow> string \<Rightarrow> pair_iterator go" where
  "ListForEachEntrySafeWithPos h head ct member =
     gbind (ListFirstEntry h head ct member) (\<lambda>pos.
     gbind (pos_head pos member) (\<lambda>l.
     if l = head then Ret Exhausted
     else gbind (ListNextEntry h pos member) (\<lambda>n. Ret (At pos n))))"

definition next_pair ::
  "u64 links \<Rightarrow> u64 option \<Rightarrow> string \<Rightarrow> pair_iterator \<Rightarrow> (((entry \<times> entry) option \<times> bool) \<times> pair_iterator) go" where
  "next_pair h head member it =
     (case it of Exhausted \<Rightarrow> Ret ((None, False), it)
      | At pos n \<Rightarrow>
          gbind (pos_head pos member) (\<lambda>l.
          if l = head then Ret ((None, False), it)
          else gbind (pos_head n member) (\<lambda>l1.
            if l1 = head then Ret ((Some (pos, n), False), At n n)
            else gbind (ListNextEntry h n member) (\<lambda>n1. Ret ((Some (pos, n), True), At n n1)))))"

section \<open>Embedded heads\<close>

text \<open>For a member that is not a pointer, the kind every struct of the repository has, no iterator ever
  reaches its callback.\<close>

lemma embedded_next:
  assumes "FieldByName (en_type pos) member = Some f" "fd_type f \<noteq> ListHeadPtr"
  shows "ListNextEntry h pos member = Panic (Bug ''ListNextEntry: invalid member field'')"
    and "ListPrevEntry h pos member = Panic (Bug ''ListPrevEntry: invalid member field'')"
  using assms by (simp_all add: ListNextEntry_def ListPrevEntry_def)

lemma embedded_iteration:
  assumes "FieldByName ct member = Some f" "fd_type f \<noteq> ListHeadPtr" "exported member"
  shows "ListForEachEntry (Suc n) lk (Some head) ct member g s = Panic TypeAssertion"
    and "ListForEachEntryReverse (Suc n) lk (Some head) ct member g s = Panic TypeAssertion"
    and "ListForEachEntrySafe (Suc n) lk (Some head) ct member g' s = Panic TypeAssertion"
    and "ListForEachEntrySafeWithPos (lk s) (Some head) ct member = Panic TypeAssertion"
proof -
  have "fd_name f = member" using assms(1) by (auto simp: FieldByName_def find_Some_iff)
  then show "ListForEachEntry (Suc n) lk (Some head) ct member g s = Panic TypeAssertion"
    "ListForEachEntryReverse (Suc n) lk (Some head) ct member g s = Panic TypeAssertion"
    "ListForEachEntrySafe (Suc n) lk (Some head) ct member g' s = Panic TypeAssertion"
    "ListForEachEntrySafeWithPos (lk s) (Some head) ct member = Panic TypeAssertion"
    using assms by (simp_all add: ListForEachEntry_def ListForEachEntryReverse_def ListForEachEntrySafe_def
        ListForEachEntrySafeWithPos_def ListFirstEntry_def ListLastEntry_def ListEntry_def container_of_def
        get_next_def get_prev_def entry_head_def pos_head_def member_head_def)
qed

section \<open>Pointers in the first word\<close>

text \<open>The iterators do work on a struct that begins with an exported \<open>*ListHead\<close>: what they hand to the
  callback is a fresh struct that points to the node.\<close>

definition points_first :: "container \<Rightarrow> string \<Rightarrow> bool" where
  "points_first ct member \<longleftrightarrow> exported member \<and>
     (\<exists>f. FieldByName ct member = Some f \<and> fd_type f = ListHeadPtr \<and> fd_offset f = 0)"

definition entry_at :: "container \<Rightarrow> u64 \<Rightarrow> entry" where
  "entry_at ct a = \<lparr>en_type = ct, en_words = (\<lambda>_. 0)(0 := a)\<rparr>"

lemma points_first_entry:
  assumes "points_first ct member"
  shows "ListEntry p ct member = Ret (entry_at ct (address p))"
  using assms by (auto simp: points_first_def ListEntry_def container_of_def entry_at_def)

lemma points_first_head:
  assumes "points_first ct member" "a \<noteq> 0"
  shows "entry_head msg (entry_at ct a) member = Ret (Some a)"
    and "ListNextEntry h (entry_at ct a) member = Ret (entry_at ct (address (lnext h a)))"
    and "ListPrevEntry h (entry_at ct a) member = Ret (entry_at ct (address (lprev h a)))"
proof -
  obtain f where f: "FieldByName ct member = Some f" "fd_type f = ListHeadPtr" "fd_offset f = 0" "fd_name f = member"
    using assms(1) by (auto simp: points_first_def FieldByName_def find_Some_iff)
  show "entry_head msg (entry_at ct a) member = Ret (Some a)"
    "ListNextEntry h (entry_at ct a) member = Ret (entry_at ct (address (lnext h a)))"
    "ListPrevEntry h (entry_at ct a) member = Ret (entry_at ct (address (lprev h a)))"
    using f assms points_first_entry [OF assms(1)]
    by (simp_all add: entry_head_def ListNextEntry_def ListPrevEntry_def member_head_def entry_at_def
        points_first_def as_pointer_def get_next_def get_prev_def)
qed

lemma ListForEachEntry_loop_visit:
  assumes ct: "points_first ct member"
    and "chain (lk s) a xs b" "b \<notin> set xs" "0 \<notin> set (b # xs)" "length xs < n"
    and "\<And>x s r s1. g (entry_at ct x) s = Ret (r, s1) \<Longrightarrow> lk s1 = lk s"
  shows "ListForEachEntry_loop n lk (Some b) member g (entry_at ct (hd (xs @ [b]))) s
     = visit (\<lambda>x. g (entry_at ct x)) xs s"
  using assms(2-5)
proof (induction xs arbitrary: a s n)
  case Nil
  then show ?case using points_first_head [OF ct, of b] by (cases n) auto
next
  case (Cons x xs)
  then obtain m where n: "n = Suc m" by (cases n) auto
  have rest: "ListForEachEntry_loop m lk (Some b) member g (entry_at ct (address (lnext (lk s1) x))) s1
      = visit (\<lambda>x. g (entry_at ct x)) xs s1" if "g (entry_at ct x) s = Ret (r, s1)" for r s1
  proof -
    have eq: "lk s1 = lk s" using assms(6) [OF that] .
    have c: "chain (lk s1) x xs b" using Cons.prems eq by simp
    then have "address (lnext (lk s1) x) = hd (xs @ [b])" using chain_next [OF c] by (simp add: address_def)
    with Cons.IH [OF c, of m] Cons.prems n show ?thesis by auto
  qed
  have x: "x \<noteq> 0" "x \<noteq> b" using Cons.prems by auto
  show ?case
    by (cases "g (entry_at ct x) s") (use n x rest points_first_head [OF ct x(1)] in \<open>auto split: if_splits\<close>)
qed

lemma ListForEachEntry_visit:
  assumes "points_first ct member" "dll (lk s) head xs" "0 \<notin> set (head # xs)" "length xs < n"
    and "\<And>x s r s1. g (entry_at ct x) s = Ret (r, s1) \<Longrightarrow> lk s1 = lk s"
  shows "ListForEachEntry n lk (Some head) ct member g s = visit (\<lambda>x. g (entry_at ct x)) xs s"
proof -
  have "address (lnext (lk s) head) = hd (xs @ [head])"
    using dll_next [OF assms(2)] by (simp add: address_def)
  then have "ListForEachEntry n lk (Some head) ct member g s
      = ListForEachEntry_loop n lk (Some head) member g (entry_at ct (hd (xs @ [head]))) s"
    using points_first_entry [OF assms(1)] by (simp add: ListForEachEntry_def ListFirstEntry_def get_next_def)
  also have "\<dots> = visit (\<lambda>x. g (entry_at ct x)) xs s"
    by (rule ListForEachEntry_loop_visit [where a = head]) (use assms in \<open>auto simp: dll_def\<close>)
  finally show ?thesis .
qed

text \<open>The closure of \<open>ListForEachEntrySafeWithPos\<close> delivers the last entry with the flag \<open>false\<close>, the answer
  it also gives when there is nothing left.\<close>

lemma WithPos_single:
  assumes "points_first ct member" "dll h head [x]" "0 \<notin> {head, x}"
  shows "gbind (ListForEachEntrySafeWithPos h (Some head) ct member) (next_pair h (Some head) member)
     = Ret ((Some (entry_at ct x, entry_at ct head), False), At (entry_at ct head) (entry_at ct head))"
proof -
  have n: "lnext h head = Some x" "lnext h x = Some head" "x \<noteq> head"
    using dll_next [OF assms(2)] assms(2) by (auto simp: dll_def)
  have z: "head \<noteq> 0" "x \<noteq> 0" using assms(3) by auto
  show ?thesis
    using n points_first_entry [OF assms(1)] points_first_head [OF assms(1) z(1)] points_first_head [OF assms(1) z(2)]
    by (simp add: ListForEachEntrySafeWithPos_def ListFirstEntry_def next_pair_def pos_head_def get_next_def address_def)
qed

end
