(* ===== verification/SpecialFile.thy ===== *)
theory SpecialFile
  imports FileData Fragments Compress Reflect
begin

text \<open>
  The inodes that mkfs builds for its own data, from \<open>pkg/types/inode1.go\<close>: \<open>ErofsFlushPackedInode\<close>,
  \<open>ErofsMkfsBuildSpecialFromFd\<close>, \<open>ErofsBeginCompressedFile\<close>, and the choice of a compression from the
  hints (\<open>compressHints.go\<close>).  The functions the source calls but does not define,
  \<open>ErofsWriteCompressedFile\<close>, \<open>ErofsPrepareInodeBuffer\<close> and \<open>ErofsWriteTailEnd\<close>, are parameters.
\<close>

section \<open>State\<close>

text \<open>A \<open>ZErofsCompressIctx\<close>: the inode and the configuration are known by number.\<close>

record ictx =
  ic_inode :: "nat option"
  ic_ccfg :: nat
  ic_fd :: int
  ic_fpos :: u64
  ic_tofChksum :: u32
  ic_fixDedupedfrag :: bool
  ic_fragemitted :: bool

text \<open>The list of hints is walked with \<open>ListForEachEntry\<close>; \<open>hm_links\<close> are the links in memory and
  \<open>hm_match\<close> is \<open>Regexp.MatchString\<close> (package \<open>regexp\<close>) for the compiled expression at an address.  The head of
  the list is reached through the nil variable \<open>r\<close>.\<close>

record hint_memory =
  hm_links :: "u64 links"
  hm_match :: "u64 \<Rightarrow> string \<Rightarrow> bool"

text \<open>Everything a run shares: \<open>ws_ictx\<close> is the package variable \<open>GIctx\<close>, which nothing in the source
  assigns; \<open>ws_prefix\<close> is \<open>FullpathPrefix\<close>.\<close>

record world_state =
  ws_cfg :: config
  ws_sbi :: sbinfo
  ws_table :: itable
  ws_bm :: bufmgr
  ws_io :: io
  ws_fds :: fds
  ws_packed :: "packed option"
  ws_ictx :: "ictx option"
  ws_ccfgs :: "compress_cfg list"
  ws_prefix :: int
  ws_hints :: hint_memory

definition ws_inode :: "world_state \<Rightarrow> nat \<Rightarrow> inode" where
  "ws_inode w i = it_inodes (ws_table w) i"

definition upd_ws :: "nat \<Rightarrow> inode \<Rightarrow> world_state \<Rightarrow> world_state" where
  "upd_ws i x w = w\<lparr>ws_table := upd_in i (\<lambda>_. x) (ws_table w)\<rparr>"

section \<open>Beginning a compressed file\<close>

text \<open>The per-file compression settings.\<close>

definition begin_layout :: "config \<Rightarrow> sbinfo \<Rightarrow> inode \<Rightarrow> inode" where
  "begin_layout cfg sbi i =
     (let bits = si_BlkSzBits sbi;
          compact = (\<not> cf_LegacyCompress cfg \<and> bits \<le> 14);
          adv0 = (if compact \<and> bits \<le> 12 then Z_EROFS_ADVISE_COMPACTED_2B else 0);
          adv1 = (if ErofsSbHasBigPcluster sbi
                  then adv0 OR Z_EROFS_ADVISE_BIG_PCLUSTER_1 OR (if compact then Z_EROFS_ADVISE_BIG_PCLUSTER_2 else 0)
                  else adv0);
          adv2 = (if cf_Fragments cfg \<and> \<not> cf_Dedupe cfg then adv1 OR Z_EROFS_ADVISE_INTERLACED_PCLUSTER else adv1)
      in i\<lparr>in_ZAdvise := adv2, in_ZLogicalClusterbits := bits,
           in_DataLayout := (if compact then EROFS_INODE_COMPRESSED_COMPACT else EROFS_INODE_COMPRESSED_FULL),
           in_IdataSize := 0, in_FragmentSize := 0\<rparr>)"

definition choose_algorithm :: "compress_cfg list \<Rightarrow> inode \<Rightarrow> inode go" where
  "choose_algorithm ccfgs i =
     (let k = unat (fst (in_ZAlgorithmType i))
      in gbind (gguard (k < length ccfgs) IndexRange) (\<lambda>_.
         Ret (i\<lparr>in_ZAlgorithmType := (of_nat (cc_AlgorithmType (ccfgs ! k)), 0)\<rparr>)))"

text \<open>The tail of the file is looked up before anything is compressed.  The first component is the
  (negative) result of a failing search.\<close>

definition begin_dedupe ::
  "nat \<Rightarrow> config \<Rightarrow> sbinfo \<Rightarrow> inode \<Rightarrow> int \<Rightarrow> u32 \<Rightarrow> packed option \<Rightarrow> fds
     \<Rightarrow> (int option \<times> u32 \<times> inode \<times> packed option \<times> fds) go" where
  "begin_dedupe fuel cfg sbi i fd tof pk fds =
     gbind (if cf_Fragments cfg then erofsIsPackedInode sbi i else Ret True) (\<lambda>packed.
     if packed \<or> cf_FragmentDedupe cfg = FRAGDEDUPE_OFF then Ret (None, tof, i, pk, fds)
     else gbind (ZErofsFragmentsDedupe fuel i fd tof pk fds) (\<lambda>(ret, tof1, i1, pk1, fds1).
       if ret < 0 then Ret (Some ret, tof1, i1, pk1, fds1)
       else Ret (None, tof1,
              if cf_FragmentDedupe cfg = FRAGDEDUPE_INODE \<and> sint (in_FragmentSize i1) < sint (in_ISize i1)
              then i1\<lparr>in_FragmentSize := 0\<rparr> else i1, pk1, fds1)))"

definition begin_pack ::
  "nat \<Rightarrow> config \<Rightarrow> sbinfo \<Rightarrow> inode \<Rightarrow> int \<Rightarrow> u32 \<Rightarrow> packed option \<Rightarrow> fds
     \<Rightarrow> (bool \<times> inode \<times> packed option \<times> fds) go" where
  "begin_pack fuel cfg sbi i fd tof pk fds =
     gbind (if cf_AllFragments cfg then erofsIsPackedInode sbi i else Ret True) (\<lambda>packed.
     if packed \<or> in_FragmentSize i \<noteq> 0 then Ret (True, i, pk, fds)
     else gbind (ZErofsPackFileFromFd fuel i fd tof pk fds) (\<lambda>(err, i1, pk1, fds1).
       if err \<noteq> None then Ret (False, i1\<lparr>in_Idata := None\<rparr>, pk1, fds1) else Ret (True, i1, pk1, fds1)))"

text \<open>Multi-threading is switched off by a local constant, so the context is always \<open>GIctx\<close>.  The first
  component tells whether the file was begun.\<close>

definition ErofsBeginCompressedFile :: "nat \<Rightarrow> nat \<Rightarrow> int \<Rightarrow> u64 \<Rightarrow> world_state \<Rightarrow> (bool \<times> world_state) go" where
  "ErofsBeginCompressedFile fuel i fd fpos w =
     (let cfg = ws_cfg w; sbi = ws_sbi w; x0 = begin_layout cfg sbi (ws_inode w i)
      in gbind (deref (ws_ictx w)) (\<lambda>ic.
         let k = unat (fst (in_ZAlgorithmType x0)) in
         gbind (choose_algorithm (ws_ccfgs w) x0) (\<lambda>x1.
         gbind (begin_dedupe fuel cfg sbi x1 fd (ic_tofChksum ic) (ws_packed w) (ws_fds w)) (\<lambda>(err, tof, x2, pk2, fds2).
         let w2 = (upd_ws i x2 w)\<lparr>ws_packed := pk2, ws_fds := fds2,
                    ws_ictx := Some (ic\<lparr>ic_fd := fd, ic_ccfg := k, ic_tofChksum := tof\<rparr>)\<rparr> in
         if err \<noteq> None then Ret (False, w2)
         else gbind (begin_pack fuel cfg sbi x2 fd tof pk2 fds2) (\<lambda>(ok, x3, pk3, fds3).
           Ret (ok, (upd_ws i x3 w2)\<lparr>ws_packed := pk3, ws_fds := fds3,
             ws_ictx := Some (ic\<lparr>ic_fd := fd, ic_ccfg := k, ic_tofChksum := tof, ic_inode := Some i, ic_fpos := fpos,
                               ic_fixDedupedfrag := False, ic_fragemitted := False\<rparr>)\<rparr>))))))"

section \<open>Compression hints for an inode\<close>

definition ErofsCompressHints :: container where
  "ErofsCompressHints =
     [\<lparr>fd_name = ''List'', fd_type = ListHeadField, fd_offset = 0\<rparr>,
      \<lparr>fd_name = ''Reg'', fd_type = OtherField, fd_offset = 16\<rparr>,
      \<lparr>fd_name = ''physicalClusterblks'', fd_type = OtherField, fd_offset = 24\<rparr>,
      \<lparr>fd_name = ''algorithmType'', fd_type = OtherField, fd_offset = 32\<rparr>]"

definition processHint :: "hint_memory \<Rightarrow> string \<Rightarrow> entry \<Rightarrow> u64 \<times> u64 \<Rightarrow> (bool \<times> u64 \<times> u64) go" where
  "processHint hm s r cur =
     gbind (deref (as_pointer (en_words r 16))) (\<lambda>reg.
     if hm_match hm reg s then Ret (False, en_words r 24, en_words r 32) else Ret (True, cur))"

definition hint_list :: "u64 option \<Rightarrow> u64 option go" where
  "hint_list r = gbind (deref r) (\<lambda>a. Ret (Some a))"

definition zErodsApplyCompressHints ::
  "nat \<Rightarrow> hint_memory \<Rightarrow> config \<Rightarrow> sbinfo \<Rightarrow> int \<Rightarrow> inode \<Rightarrow> (bool \<times> inode) go" where
  "zErodsApplyCompressHints fuel hm cfg sbi prefix i =
     (if in_ZPhysicalClusterblks i \<noteq> 0 then Ret (True, i)
      else gbind (ErofsFspath prefix (in_ISrcpath i)) (\<lambda>s.
        let r = None; dflt = drop_bit (unat (si_BlkSzBits sbi)) (ucast (cf_MkfsPclusterSizeDef cfg)) :: u64
        in gbind (hint_list r) (\<lambda>head.
           gbind (ListForEachEntry fuel (\<lambda>_. hm_links hm) head ErofsCompressHints ''List'' (processHint hm s) (dflt, 0))
             (\<lambda>(pclusterblks, algorithmtype).
           Ret (pclusterblks \<noteq> 0, i\<lparr>in_ZPhysicalClusterblks := ucast pclusterblks,
                                    in_ZAlgorithmType := (ucast algorithmtype, snd (in_ZAlgorithmType i))\<rparr>)))))"

definition ErofsFileIsCompressible ::
  "nat \<Rightarrow> hint_memory \<Rightarrow> config \<Rightarrow> sbinfo \<Rightarrow> int \<Rightarrow> inode \<Rightarrow> (bool \<times> inode) go" where
  "ErofsFileIsCompressible fuel hm cfg sbi prefix i =
     (if cf_CompressHintsFile cfg \<noteq> '''' then zErodsApplyCompressHints fuel hm cfg sbi prefix i else Ret (True, i))"

section \<open>Building a special file\<close>

datatype special_error = SpecialErrno int | SpecialFill fill_error | BeginFailed | SpecialWrite write_error

text \<open>The environment of the build: \<open>Fstat\<close>, and the functions that are not part of the source.\<close>

record special_env =
  se_dev :: dev_numbers
  se_xcopy :: xcopy_os
  se_fstat :: "int \<Rightarrow> int + stat"
  se_WriteCompressedFile :: "world_state \<Rightarrow> (int option \<times> world_state) go"
  se_PrepareInodeBuffer :: "nat \<Rightarrow> world_state \<Rightarrow> world_state go"
  se_WriteTailEnd :: "nat \<Rightarrow> world_state \<Rightarrow> world_state go"

definition seek_start :: "int \<Rightarrow> world_state \<Rightarrow> int option \<times> world_state" where
  "seek_start fd w = (let ((_, err), fds1) = sys_seek (ws_fds w) fd 0 0 in (err, w\<lparr>ws_fds := fds1\<rparr>))"

definition finish_special :: "special_env \<Rightarrow> nat \<Rightarrow> world_state \<Rightarrow> ((special_error + nat) \<times> world_state) go" where
  "finish_special se i w =
     gbind (se_PrepareInodeBuffer se i w) (\<lambda>w1.
     gbind (se_WriteTailEnd se i w1) (\<lambda>w2. Ret (Inr i, w2)))"

definition write_special :: "nat \<Rightarrow> special_env \<Rightarrow> nat \<Rightarrow> int \<Rightarrow> world_state \<Rightarrow> ((special_error + nat) \<times> world_state) go" where
  "write_special fuel se i fd w =
     gbind (WriteUncompressedFileFromFd fuel (se_xcopy se) (ws_sbi w) (ws_inode w i) fd (ws_bm w) (ws_io w) (ws_fds w))
       (\<lambda>(err, x, bm1, io1, fds1).
     let w1 = (upd_ws i x w)\<lparr>ws_bm := bm1, ws_io := io1, ws_fds := fds1\<rparr> in
     case err of Some e \<Rightarrow> Ret (Inl (SpecialWrite e), w1) | None \<Rightarrow> finish_special se i w1)"

text \<open>Compression is tried first when a compressor is configured; only \<open>ENOSPC\<close> falls back to writing the
  file as it is.\<close>

definition compress_special :: "nat \<Rightarrow> special_env \<Rightarrow> nat \<Rightarrow> int \<Rightarrow> world_state \<Rightarrow> ((special_error + nat) \<times> world_state) go" where
  "compress_special fuel se i fd w =
     gbind (ErofsBeginCompressedFile fuel i fd 0 w) (\<lambda>(ok, w1).
     if \<not> ok then Ret (Inl BeginFailed, w1)
     else if ws_ictx w1 = None then Panic (Bug ''context should not be nil'')
     else gbind (se_WriteCompressedFile se w1) (\<lambda>(err, w2).
       case err of
         None \<Rightarrow> finish_special se i w2
       | Some e \<Rightarrow>
           if e \<noteq> ENOSPC then Ret (Inl (SpecialErrno e), w2)
           else let (err2, w3) = seek_start fd w2 in
             case err2 of Some e2 \<Rightarrow> Ret (Inl (SpecialErrno e2), w3) | None \<Rightarrow> write_special fuel se i fd w3))"

definition ErofsMkfsBuildSpecialFromFd ::
  "nat \<Rightarrow> special_env \<Rightarrow> int \<Rightarrow> string \<Rightarrow> world_state \<Rightarrow> ((special_error + nat) \<times> world_state) go" where
  "ErofsMkfsBuildSpecialFromFd fuel se fd name w =
     (let (err, w1) = seek_start fd w in
      case err of Some e \<Rightarrow> Ret (Inl (SpecialErrno e), w1)
      | None \<Rightarrow>
      case se_fstat se fd of Inl e \<Rightarrow> Ret (Inl (SpecialErrno e), w1)
      | Inr st0 \<Rightarrow>
      gbind (ErofsNewInode (ws_table w1)) (\<lambda>(ino, t1).
      gbind (deref ino) (\<lambda>i.
      let st = (if name = EROFS_PACKED_INODE then st0\<lparr>st_Uid := 0, st_Gid := 0, st_Nlink := 0\<rparr> else st0) in
      gbind (ErofsFillInode (se_dev se) (ws_cfg w1) (ws_sbi w1) i st name t1) (\<lambda>(ferr, t2).
      let w2 = w1\<lparr>ws_table := t2\<rparr> in
      case ferr of Some e \<Rightarrow> Ret (Inl (SpecialFill e), w2)
      | None \<Rightarrow>
        let w3 = (if name = EROFS_PACKED_INODE
                  then (upd_ws i ((ws_inode w2 i)\<lparr>in_Nid := EROFS_PACKED_NID_UNALLOCATED\<rparr>) w2)
                         \<lparr>ws_sbi := (ws_sbi w2)\<lparr>si_PackedNid := EROFS_PACKED_NID_UNALLOCATED\<rparr>\<rparr>
                  else w2);
            opts = cf_CompressionOptions (ws_cfg w3)
        in gbind (if opts \<noteq> [] \<and> co_Algorithm (hd opts) \<noteq> ''''
                  then ErofsFileIsCompressible fuel (ws_hints w3) (ws_cfg w3) (ws_sbi w3) (ws_prefix w3) (ws_inode w3 i)
                  else Ret (False, ws_inode w3 i)) (\<lambda>(compressible, x).
           let w4 = upd_ws i x w3 in
           if compressible then compress_special fuel se i fd w4 else write_special fuel se i fd w4)))))"

definition ErofsFlushPackedInode :: "nat \<Rightarrow> special_env \<Rightarrow> world_state \<Rightarrow> (int \<times> world_state) go" where
  "ErofsFlushPackedInode fuel se w =
     (case ws_packed w of
        None \<Rightarrow> Ret (- EINVAL, w)
      | Some epi \<Rightarrow>
        if \<not> ErofsSbHasFragments (ws_sbi w) then Ret (- EINVAL, w)
        else let (pos, fds1) = lseek (ws_fds w) (pk_Fd epi) 0 0; w1 = w\<lparr>ws_fds := fds1\<rparr> in
          if pos \<le> 0 then Ret (0, w1)
          else gbind (ErofsMkfsBuildSpecialFromFd fuel se (pk_Fd epi) EROFS_PACKED_INODE w1) (\<lambda>(r, w2).
            gbind (deref (case r of Inl _ \<Rightarrow> None | Inr i \<Rightarrow> Some i)) (\<lambda>i.
            gbind (ErofsLookupNid fuel (ws_sbi w2) i (ws_table w2) (ws_bm w2)) (\<lambda>(nid, t3, bm3).
            gbind (ErofsIput fuel i t3) (\<lambda>(_, t4).
            Ret (0, w2\<lparr>ws_table := t4, ws_bm := bm3, ws_sbi := (ws_sbi w2)\<lparr>si_PackedNid := nid\<rparr>\<rparr>))))))"

section \<open>Lemmas\<close>

text \<open>\<open>lseek\<close> to the beginning never answers a positive offset, so nothing is ever flushed.\<close>

lemma FlushPackedInode_nothing:
  "ErofsFlushPackedInode fuel se w =
     (if ws_packed w = None \<or> \<not> ErofsSbHasFragments (ws_sbi w) then Ret (- EINVAL, w)
      else Ret (0, w\<lparr>ws_fds := snd (lseek (ws_fds w) (pk_Fd (the (ws_packed w))) 0 0)\<rparr>))"
  using lseek_start_not_positive [of "ws_fds w"]
  by (auto simp: ErofsFlushPackedInode_def Let_def split: option.split prod.split) (metis fst_conv not_le)

lemma NewInode_panics: "ErofsNewInode t = Panic NilDeref"
  by (simp add: ErofsNewInode_def init_inode_def)

lemma BuildSpecial_outcome:
  "ErofsMkfsBuildSpecialFromFd fuel se fd name w =
     (case fst (seek_start fd w) of
        Some e \<Rightarrow> Ret (Inl (SpecialErrno e), snd (seek_start fd w))
      | None \<Rightarrow> (case se_fstat se fd of
            Inl e \<Rightarrow> Ret (Inl (SpecialErrno e), snd (seek_start fd w))
          | Inr _ \<Rightarrow> Panic NilDeref))"
  by (simp add: ErofsMkfsBuildSpecialFromFd_def NewInode_panics split: prod.split option.split sum.split)

lemma BeginCompressed_no_context:
  "ws_ictx w = None \<Longrightarrow> ErofsBeginCompressedFile fuel i fd fpos w = Panic NilDeref"
  by (simp add: ErofsBeginCompressedFile_def Let_def)

end
