(* ===== verification/FragMatch.thy ===== *)
theory FragMatch
  imports Fragments
begin

text \<open>
  What one comparison of \<open>ZErofsFragmentsDedupeFind\<close> establishes: a match of \<open>i\<close> bytes means that the source
  file ends with \<open>i\<close> bytes that the packed file holds, and the comparison always ends.
\<close>

text \<open>The last \<open>i\<close> bytes of \<open>data\<close> are the \<open>i\<close> bytes of \<open>pdata\<close> that end at \<open>q\<close>.\<close>

definition tail_match :: "bytes \<Rightarrow> nat \<Rightarrow> bytes \<Rightarrow> nat \<Rightarrow> bool" where
  "tail_match pdata q data i \<longleftrightarrow> i \<le> q \<and> i \<le> length data \<and> q \<le> length pdata
     \<and> cut (length data - i) i data = cut (q - i) i pdata"

lemma tail_match_extend:
  assumes "tail_match pdata q data i" "z \<le> q - i" "z \<le> length data - i"
    and "cut (q - i - z) z pdata = cut (length data - i - z) z data"
  shows "tail_match pdata q data (i + z)"
proof -
  obtain a c where a: "length data - i = a + z" "q - i = c + z" using assms(2,3) by (metis le_add_diff_inverse2)
  have m: "cut (length data - i) i data = cut (q - i) i pdata" "cut c z pdata = cut a z data"
    using assms(1,4) a by (simp_all add: tail_match_def)
  have "cut a (z + i) data = cut c (z + i) pdata"
    using m cut_cut_append [of a z data i] cut_cut_append [of c z pdata i] a by simp
  moreover have "length data - (i + z) = a" "q - (i + z) = c" using a by simp_all
  ultimately show ?thesis using assms(1-3) by (auto simp: tail_match_def add.commute)
qed

text \<open>The byte-wise part.\<close>

lemma match_back_spec:
  assumes "j = match_back mn xs e2 ys e1 i"
  shows "i \<le> j \<and> j \<le> i + mn \<and> (\<forall>k. i \<le> k \<and> k < j \<longrightarrow> xs ! (e2 - k - 1) = ys ! (e1 - k - 1))
     \<and> (j < i + mn \<longrightarrow> xs ! (e2 - j - 1) \<noteq> ys ! (e1 - j - 1))"
  using assms
proof (induction mn arbitrary: i)
  case (Suc mn)
  show ?case
  proof (cases "xs ! (e2 - i - 1) = ys ! (e1 - i - 1)")
    case True
    then have "j = match_back mn xs e2 ys e1 (Suc i)" using Suc.prems by simp
    note IH = Suc.IH [OF this]
    have "xs ! (e2 - k - 1) = ys ! (e1 - k - 1)" if "i \<le> k" "k < j" for k
      by (cases "k = i") (use True IH that in auto)
    with IH show ?thesis by auto
  qed (use Suc.prems in auto)
qed auto

lemma match_back_cut:
  assumes "j = match_back mn xs e2 ys e1 0" "mn \<le> e1" "mn \<le> e2" "e1 \<le> length ys" "e2 \<le> length xs"
  shows "cut (e2 - j) j xs = cut (e1 - j) j ys"
proof -
  note s = match_back_spec [OF assms(1)]
  have "xs ! (e2 - j + k) = ys ! (e1 - j + k)" if "k < j" for k
  proof -
    have "e2 - (j - 1 - k) - 1 = e2 - j + k" "e1 - (j - 1 - k) - 1 = e1 - j + k" "j - 1 - k < j"
      using that s assms(2,3) by auto
    then show ?thesis using s by (metis le0)
  qed
  then show ?thesis
    using s assms by (intro nth_equalityI) (auto simp: cut_def)
qed

text \<open>The file-wise part, with fuel for one byte per round.\<close>

lemma extend_match_sound:
  assumes "tail_match pdata q data (unat i)" "unat pos = q - unat i" "unat isize = length data" "pfd \<noteq> fd"
    and "served fds pfd pdata pp" "served fds fd data p" "length data - unat i < fuel"
  shows "\<exists>j fds'. extend_match fuel pfd fd isize i pos fds = Ret (j, fds') \<and> unat i \<le> unat j \<and> tail_match pdata q data (unat j)
     \<and> served fds' pfd pdata pp \<and> served fds' fd data p"
  using assms
proof (induction fuel arbitrary: i pos fds)
  case (Suc fuel)
  let ?n = "length data"
  have len: "?n < 2 ^ 62" "length pdata < 2 ^ 62" using Suc.prems(5,6) by (auto simp: served_def)
  have m: "unat i \<le> q" "unat i \<le> ?n" "q \<le> length pdata" using Suc.prems(1) by (auto simp: tail_match_def)
  have sint: "sint i = int (unat i)" "sint isize = int ?n" "sint pos = int (q - unat i)"
    using sint_small [of i] sint_small [of isize] sint_small [of pos] Suc.prems(2,3) m len by simp_all
  have c: "(sint i < sint isize \<and> sint pos > 0) = (unat i < ?n \<and> unat i < q)"
    unfolding sint by (simp only: of_nat_less_iff of_nat_0_less_iff zero_less_diff)
  show ?case
  proof (cases "unat i < ?n \<and> unat i < q")
    case False
    with c have "\<not> (sint i < sint isize \<and> sint pos > 0)" by simp
    then show ?thesis using Suc.prems by simp
  next
    case True
    define sz0 where "sz0 = (if pos < 16384 then pos else 16384)"
    define sz where "sz = (if isize - i < sz0 then isize - i else sz0)"
    have d: "unat (isize - i) = ?n - unat i" using Suc.prems(3) m by (simp add: unat_sub word_le_nat_alt)
    have s0: "unat sz0 \<le> q - unat i" "0 < unat sz0"
      using Suc.prems(2) True by (auto simp: sz0_def word_less_nat_alt)
    have z: "unat sz \<le> q - unat i" "unat sz \<le> ?n - unat i" "0 < unat sz"
      using s0 d True by (auto simp: sz_def word_less_nat_alt)
    have u: "unat (pos - sz) = q - unat i - unat sz" "unat (isize - i - sz) = ?n - unat i - unat sz"
      "unat (i + sz) = unat i + unat sz"
      using Suc.prems(2,3) z d len m by (simp_all add: unat_sub word_le_nat_alt unat_word_ariths)
    have small: "unat (pos - sz) < 2 ^ 63" "unat (isize - i - sz) < 2 ^ 63" using u len m by simp_all
    obtain fds1 where f1: "sys_pread_fd fds pfd (unat sz) (pos - sz) = ((read_at pdata (unat (pos - sz)) (unat sz), None), fds1)"
        "served fds1 pfd pdata pp" "served fds1 fd data p"
      using served_pread [OF Suc.prems(5) small(1), of "unat sz"] served_other [OF Suc.prems(6)] Suc.prems(4) by blast
    obtain fds2 where f2: "sys_pread_fd fds1 fd (unat sz) (isize - i - sz) = ((read_at data (unat (isize - i - sz)) (unat sz), None), fds2)"
        "served fds2 fd data p" "served fds2 pfd pdata pp"
      using served_pread [OF f1(3) small(2), of "unat sz"] served_other [OF f1(2)] Suc.prems(4) by blast
    have l: "length (read_at pdata (unat (pos - sz)) (unat sz)) = unat sz"
      "length (read_at data (unat (isize - i - sz)) (unat sz)) = unat sz"
      using u z m by (simp_all add: length_read_at)
    have step: "extend_match (Suc fuel) pfd fd isize i pos fds
        = (if read_at pdata (unat (pos - sz)) (unat sz) \<noteq> read_at data (unat (isize - i - sz)) (unat sz) then Ret (i, fds2)
           else extend_match fuel pfd fd isize (i + sz) (pos - sz) fds2)"
      using c True f1(1) f2(1) l by (simp add: Let_def sz0_def [symmetric] sz_def [symmetric])
    show ?thesis
    proof (cases "read_at pdata (unat (pos - sz)) (unat sz) = read_at data (unat (isize - i - sz)) (unat sz)")
      case False
      with step f2 Suc.prems(1) show ?thesis by auto
    next
      case eq: True
      have t: "tail_match pdata q data (unat (i + sz))"
        using tail_match_extend [OF Suc.prems(1) z(1,2)] eq u by (simp add: read_at_def)
      have p': "unat (pos - sz) = q - unat (i + sz)" using u by simp
      have fuel': "length data - unat (i + sz) < fuel" using Suc.prems(7) u(3) z(3) True by linarith
      from Suc.IH [OF t p' Suc.prems(3,4) f2(3,2) fuel'] step eq u(3) show ?thesis by auto
    qed
  qed
qed simp

text \<open>A candidate that records a piece of the packed file.\<close>

definition records :: "bytes \<Rightarrow> frag_item \<Rightarrow> bool" where
  "records pdata cur \<longleftrightarrow> unat (fi_pos cur) + unat (fi_length cur) \<le> length pdata
     \<and> fi_data cur = cut (unat (fi_pos cur)) (unat (fi_length cur)) pdata"

definition search_size :: "u64 \<Rightarrow> u64" where
  "search_size isize = (if sint isize < sint EROFS_FRAGMENT_INMEM_SZ_MAX then isize else EROFS_FRAGMENT_INMEM_SZ_MAX)"

lemma search_size_bounds:
  assumes "unat isize < 2 ^ 62" "16 \<le> unat isize"
  shows "16 \<le> unat (search_size isize)" "unat (search_size isize) \<le> unat isize" "unat (search_size isize) < 2 ^ 32"
proof -
  have "sint isize = int (unat isize)" using assms(1) by (intro sint_small) simp
  moreover have "sint (262144 :: u64) = 262144" by simp
  ultimately have "sint isize < sint (262144 :: u64) \<longleftrightarrow> unat isize < 262144" by linarith
  then have "search_size isize = (if unat isize < 262144 then isize else 262144)" by (simp only: search_size_def EROFS_FRAGMENT_INMEM_SZ_MAX_def)
  then show "16 \<le> unat (search_size isize)" "unat (search_size isize) \<le> unat isize" "unat (search_size isize) < 2 ^ 32"
    using assms(2) by auto
qed

lemma tail_of_tail: "s \<le> length data \<Longrightarrow> i \<le> s \<Longrightarrow> cut (s - i) k (drop (length data - s) data) = cut (length data - i) k data"
  by (simp add: cut_def add.commute)

lemma cut_of_cut: "a + k \<le> n \<Longrightarrow> cut a k (cut p n xs) = cut (p + a) k xs"
  by (simp add: cut_def drop_take min_def add.commute)

theorem try_candidate_sound:
  fixes data pdata :: bytes and isize :: u64 and cur :: frag_item
  defines "s1 \<equiv> search_size isize"
  defines "buf \<equiv> drop (length data - unat s1) data" and "q \<equiv> unat (fi_pos cur) + unat (fi_length cur)"
  assumes io: "served fds pfd pdata pp" "served fds fd data p" "pfd \<noteq> fd" and n: "unat isize = length data" "16 \<le> length data"
    and cur: "records pdata cur" and fuel: "length data < fuel"
  shows "\<exists>r fds'. try_candidate fuel cur pfd fd isize buf s1 fds = Ret (r, fds')
     \<and> served fds' pfd pdata pp \<and> served fds' fd data p
     \<and> (case r of None \<Rightarrow> unat (fi_length cur) \<le> 16 \<or> \<not> tail_match pdata q data 16
        | Some i \<Rightarrow> 16 \<le> unat i \<and> tail_match pdata q data (unat i))"
proof -
  let ?L = "unat (fi_length cur)" and ?s = "unat s1" and ?n = "length data"
  have len: "?n < 2 ^ 62" "length pdata < 2 ^ 62" using io(1,2) by (auto simp: served_def)
  have s: "16 \<le> ?s" "?s \<le> ?n" "?s < 2 ^ 32" using search_size_bounds [of isize] n len unfolding s1_def by auto
  have q: "q \<le> length pdata" "fi_data cur = cut (unat (fi_pos cur)) ?L pdata" using cur by (simp_all add: records_def q_def)
  have e1: "unat (ucast s1 - 16 :: u32) = ?s - 16"
  proof -
    have u: "unat (ucast s1 :: u32) = ?s" using s(3) by (simp add: unsigned_ucast_eq take_bit_nat_eq_self)
    have "(16 :: u32) \<le> ucast s1" using s(1) u by (simp add: word_le_nat_alt)
    then show ?thesis using u by (simp add: unat_sub)
  qed
  show ?thesis
  proof (cases "fi_length cur \<le> 16")
    case True
    then show ?thesis using io by (auto simp: try_candidate_def word_le_nat_alt)
  next
    case False
    then have L: "16 < ?L" by (simp add: word_le_nat_alt)
    have e2: "unat (fi_length cur - 16) = ?L - 16" using L by (simp add: unat_sub word_le_nat_alt)
    have ld: "length (fi_data cur) = ?L" using q by (simp add: q_def cut_def)
    have lb: "length buf = ?s" using s by (simp add: buf_def)
    have tails: "cut (?s - i) i buf = cut (?n - i) i data" "cut (?L - i) i (fi_data cur) = cut (q - i) i pdata"
      if "i \<le> ?s" "i \<le> ?L" for i
      using that tail_of_tail [OF s(2)] q(2) cut_of_cut [of "?L - i" i ?L "unat (fi_pos cur)" pdata]
      by (simp_all add: buf_def q_def)
    have tm: "tail_match pdata q data i \<longleftrightarrow> cut (?s - i) i buf = cut (?L - i) i (fi_data cur)" if "i \<le> ?s" "i \<le> ?L" for i
      using tails [OF that] that s q L by (auto simp: tail_match_def q_def)
    define mn where "mn = (if (ucast s1 - 16 :: u32) < fi_length cur - 16 then ucast s1 - 16 else fi_length cur - 16 :: u32)"
    have mn: "unat mn \<le> ?s - 16" "unat mn \<le> ?L - 16" using e1 e2 by (auto simp: mn_def word_less_nat_alt)
    define j where "j = match_back (unat mn) (fi_data cur) (?L - 16) buf (?s - 16) 0"
    define i where "i = (of_nat j + 16 :: u64)"
    have j: "j \<le> unat mn" using match_back_spec [OF j_def] by simp
    have ui: "unat i = j + 16" using j mn s by (simp add: i_def unat_word_ariths unsigned_of_nat take_bit_nat_eq_self)
    show ?thesis
    proof (cases "cut (?s - 16) 16 buf = cut (?L - 16) 16 (fi_data cur)")
      case False
      moreover from this have "\<not> tail_match pdata q data 16" using tm [of 16] s(1) L by simp
      ultimately show ?thesis using io e1 e2 ld lb s(1) L \<open>\<not> fi_length cur \<le> 16\<close>
        by (auto simp: try_candidate_def Let_def)
    next
      case True
      have "cut (?s - 16 - j) j buf = cut (?L - 16 - j) j (fi_data cur)"
        by (rule match_back_cut [OF j_def, symmetric]) (use mn ld lb in auto)
      then have eq: "cut (?s - 16 - j) (j + 16) buf = cut (?L - 16 - j) (j + 16) (fi_data cur)"
      proof -
        assume c: "cut (?s - 16 - j) j buf = cut (?L - 16 - j) j (fi_data cur)"
        have "?s - 16 - j + j = ?s - 16" "?L - 16 - j + j = ?L - 16" using j mn by linarith+
        then show ?thesis
          by (simp only: cut_cut_append [of "?s - 16 - j" j buf 16, symmetric]
              cut_cut_append [of "?L - 16 - j" j "fi_data cur" 16, symmetric] c True)
      qed
      then have t: "tail_match pdata q data (unat i)"
        using tm [of "unat i"] eq ui j mn s(1) L by (simp add: add.commute)
      have run: "try_candidate fuel cur pfd fd isize buf s1 fds =
          (if sint i \<ge> sint s1 then gbind (extend_match fuel pfd fd isize i (fi_pos cur + ucast (fi_length cur) - s1) fds) (\<lambda>(j, fds1). Ret (Some j, fds1))
           else Ret (Some i, fds))"
        using True e1 e2 ld lb s(1) L \<open>\<not> fi_length cur \<le> 16\<close>
        by (simp add: try_candidate_def Let_def i_def j_def mn_def)
      show ?thesis
      proof (cases "sint i \<ge> sint s1")
        case False
        then show ?thesis using run io t ui by auto
      next
        case full: True
        have "unat i < 2 ^ 63" "unat s1 < 2 ^ 63" using ui j mn s by simp_all
        then have "sint i = int (unat i)" "sint s1 = int ?s" by (simp_all only: sint_small)
        then have "unat i = ?s" using full ui j mn s(1) by linarith
        moreover have "unat (fi_pos cur + ucast (fi_length cur) - s1) = q - ?s"
        proof -
          have u: "unat (fi_pos cur + ucast (fi_length cur)) = q"
            using q(1) len by (simp add: q_def unat_word_ariths unsigned_ucast_eq take_bit_nat_eq_self)
          then show ?thesis using t \<open>unat i = ?s\<close> by (simp add: unat_sub word_le_nat_alt tail_match_def)
        qed
        ultimately have "unat (fi_pos cur + ucast (fi_length cur) - s1) = q - unat i" by simp
        from extend_match_sound [OF t this n(1) io(3) io(1,2), of fuel] fuel run full ui show ?thesis
          by fastforce
      qed
    qed
  qed
qed

end
