(* ===== verification/NewSb.thy ===== *)
theory NewSb
  imports Uuid Config
begin

text \<open>
  A superblock description with default values and its time stamps: \<open>NewSuperBlockInfo\<close>, \<open>SetTimestamp\<close> and
  \<open>SetCustomTimestamp\<close> of \<open>pkg/types/superblkinfo.go\<close>.  The clock is an argument.
\<close>

definition NewSuperBlockInfo :: "nat \<Rightarrow> 'w entropy \<Rightarrow> 'w rng \<Rightarrow> (sbinfo \<times> 'w rng) go" where
  "NewSuperBlockInfo fuel env s =
     (let sbi = zero_sbinfo\<lparr>si_BlkSzBits := of_nat (log2_floor (unat EROFS_MAX_BLOCK_SIZE)),
            si_FeatureIncompat := EROFS_FEATURE_INCOMPAT_ZERO_PADDING,
            si_FeatureCompat := EROFS_FEATURE_COMPAT_SB_CHKSUM OR EROFS_FEATURE_COMPAT_MTIME,
            ISlotBits := 5, TotalBlocks := 1\<rparr>
      in gbind (UUIDGenerate fuel env (si_UUID sbi) s) (\<lambda>(_, uuid, s1). Ret (sbi\<lparr>si_UUID := uuid\<rparr>, s1)))"

text \<open>\<open>SetTimestamp\<close> reads the clock once: seconds since 1970 and nanoseconds.\<close>

definition SetTimestamp :: "u64 \<times> u32 \<Rightarrow> sbinfo \<Rightarrow> sbinfo" where
  "SetTimestamp now sbi = sbi\<lparr>si_BuildTime := fst now, si_BuildTimeNsec := snd now\<rparr>"

definition SetCustomTimestamp :: "u64 \<Rightarrow> sbinfo \<Rightarrow> sbinfo" where
  "SetCustomTimestamp timestamp sbi = sbi\<lparr>si_BuildTime := timestamp, si_BuildTimeNsec := 0\<rparr>"

section \<open>Lemmas\<close>

lemma log2_block: "log2_floor 4096 = 12"
  using log2_floor_power [of 12] by simp

text \<open>The description of a full-size page, the identifier stamped or, when the generator failed, zero.\<close>

lemma NewSuperBlockInfo_fields:
  assumes "NewSuperBlockInfo fuel env s = Ret (sbi, s')"
  shows "ErofsBlkSiz sbi = 4096" "ISlotBits sbi = 5" "TotalBlocks sbi = 1" "ErofsSbHasSbChksum sbi"
    and "si_UUID sbi = replicate 16 0 \<or> uuid_v4 (si_UUID sbi)"
proof -
  obtain err where g: "UUIDGenerate fuel env (replicate 16 0) s = Ret (err, si_UUID sbi, s')"
    and sbi: "sbi = zero_sbinfo\<lparr>si_BlkSzBits := 12, si_FeatureIncompat := EROFS_FEATURE_INCOMPAT_ZERO_PADDING,
            si_FeatureCompat := EROFS_FEATURE_COMPAT_SB_CHKSUM OR EROFS_FEATURE_COMPAT_MTIME,
            ISlotBits := 5, TotalBlocks := 1, si_UUID := si_UUID sbi\<rparr>"
    using assms by (auto simp: NewSuperBlockInfo_def gbind_eq_Ret zero_sbinfo_def log2_block Let_def)
  have f: "si_BlkSzBits sbi = 12" "ISlotBits sbi = 5" "TotalBlocks sbi = 1"
      "si_FeatureCompat sbi = EROFS_FEATURE_COMPAT_SB_CHKSUM OR EROFS_FEATURE_COMPAT_MTIME"
    by (subst sbi, simp)+
  show "ErofsBlkSiz sbi = 4096" "ISlotBits sbi = 5" "TotalBlocks sbi = 1" "ErofsSbHasSbChksum sbi"
    using f by (simp_all add: ErofsBlkSiz_def ErofsSbHasSbChksum_def sb_has_def read_flags_def)
  show "si_UUID sbi = replicate 16 0 \<or> uuid_v4 (si_UUID sbi)"
  proof (cases err)
    case None
    with g UUIDGenerate_success [of fuel env "replicate 16 0" s "si_UUID sbi" s'] show ?thesis
      by (auto simp: stamp_v4)
  next
    case (Some e)
    with g show ?thesis by (auto simp: UUIDGenerate_def gbind_eq_Ret split: if_splits)
  qed
qed

lemma timestamps:
  "si_BuildTime (SetTimestamp now sbi) = fst now" "si_BuildTimeNsec (SetTimestamp now sbi) = snd now"
  "SetCustomTimestamp t (SetTimestamp now sbi) = SetTimestamp (t, 0) sbi"
  by (simp_all add: SetTimestamp_def SetCustomTimestamp_def)

end
