(* ===== verification/Instances.thy ===== *)
theory Instances
  imports MkfsSpec BufMgrRun SpecialFile FragMatch NewSb
begin

text \<open>
  Concrete managers and devices: a superblock description with 4096-byte blocks, an empty image
  file, and the managers that the first few operations of a run produce.  Managers are obtained
  from the specifications of the operations, since evaluating \<open>ErofsBufferInit\<close> would build its 8192
  bucket rings.
\<close>

section \<open>A superblock description and devices\<close>

definition sbi4k :: sbinfo where
  "sbi4k = zero_sbinfo\<lparr>si_BlkSzBits := 12, si_FeatureCompat := EROFS_FEATURE_COMPAT_SB_CHKSUM\<rparr>"

lemma sbi4k_simps [simp]: "si_BlkSzBits sbi4k = 12" "small_blocks sbi4k" "sb_in_block0 sbi4k"
    "ErofsSbHasSbChksum sbi4k"
  by (simp_all add: sbi4k_def small_blocks_def sb_in_block0_def ErofsSbHasSbChksum_def sb_has_def read_flags_def)

lemma zero_sbinfo_BlkSzBits [simp]: "si_BlkSzBits zero_sbinfo = 0"
  by (simp add: zero_sbinfo_def)

definition plain_file :: "bytes \<Rightarrow> sysresp list \<Rightarrow> osfile" where
  "plain_file data script = \<lparr>f_data = data, f_script = script, f_rest = Full, f_isblk = False\<rparr>"

definition plain_io :: "bytes \<Rightarrow> sysresp list \<Rightarrow> io" where
  "plain_io data script =
     \<lparr>io_fuel = 10, io_DryRun = False,
      io_BDev = \<lparr>vf_Ops = None, vf_Offset = 0, vf_file = plain_file data script\<rparr>,
      io_blobs = (\<lambda>_. plain_file [] [])\<rparr>"

lemma plain_io_simps [simp]:
  "dev_data (plain_io data script) = data" "dev_script (plain_io data script) = script"
  "\<not> dev_isblk (plain_io data script)" "io_fuel (plain_io data script) = 10"
  "\<not> io_DryRun (plain_io data script)" "vf_Ops (io_BDev (plain_io data script)) = None"
  "vf_Offset (io_BDev (plain_io data script)) = 0"
  "vf_file (io_BDev (plain_io data script)) = plain_file data script"
  by (simp_all add: plain_io_def plain_file_def dev_data_def dev_script_def dev_isblk_def)

lemma plain_file_simps [simp]:
  "f_data (plain_file data script) = data" "f_script (plain_file data script) = script"
  "f_rest (plain_file data script) = Full" "f_isblk (plain_file data script) = False"
  by (simp_all add: plain_file_def)

lemma plain_io_ready: "set script \<subseteq> {Full, Intr} \<Longrightarrow> length script \<le> 7 \<Longrightarrow> dev_ready (plain_io data script)"
  by (simp add: dev_ready_def)

section \<open>Managers\<close>

lemma new_manager:
  "\<exists>s. ErofsBufferInit 0 = Ret s \<and> bm_inv sbi4k 0 s [] [] \<and> TailBlkAddr s = 0 \<and> bm_next_bb s = 1
     \<and> bm_next_bh s = 0"
  using ErofsBufferInit_inv [of sbi4k 0] by auto

definition one_block :: "bufmgr \<Rightarrow> bool" where
  "one_block s \<longleftrightarrow> bm_inv sbi4k 0 s [] [1] \<and> bufs_linked s [1]
     \<and> bm_blocks s 1 = \<lparr>bb_BlkAddr = NULL_ADDR, bb_Type = META, bb_Off = 0, bb_FsPrivate = True\<rparr>
     \<and> TailBlkAddr s = 0 \<and> MetaBlkCnt s = 0 \<and> bm_next_bb s = 2 \<and> bm_next_bh s = 1
     \<and> bm_heads s 0 = \<lparr>bh_Block = Some 1, bh_Off = 0, bh_Op = None\<rparr>
     \<and> dll (bm_links s) (BbBufs 1) [BhList 0]"

lemma one_block_exists: "\<exists>s. one_block s"
proof -
  obtain s where s: "ErofsBufferInit 0 = Ret s" using new_manager by blast
  show ?thesis
    using Balloc_first [of sbi4k s 3] s unfolding one_block_def by (auto simp del: One_nat_def)
qed

text \<open>The block with 5000 bytes reserved through its head, still unplaced.\<close>

lemma sized_block:
  "\<exists>s. bm_inv sbi4k 0 s [] [1] \<and> nblks sbi4k (bm_blocks s 1) = 2 \<and> TailBlkAddr s = 0 \<and> bm_next_bb s = 2"
proof -
  obtain s where s: "one_block s" using one_block_exists by blast
  obtain r s' where s': "bm_inv sbi4k 0 s' [] [1]" "bm_blocks s' 1 = (bm_blocks s 1)\<lparr>bb_Off := 5000\<rparr>"
      "TailBlkAddr s' = TailBlkAddr s" "bm_next_bb s' = bm_next_bb s"
    using BhBalloon_first [of sbi4k s 5000] s by (auto simp: one_block_def)
  have "nblks sbi4k (bm_blocks s' 1) = 2"
    using nblks_eq [of sbi4k "bm_blocks s' 1"] by (simp add: s'(2) del: One_nat_def)
  with s s' show ?thesis by (auto simp: one_block_def)
qed

text \<open>The empty block placed at address 0, its ring intact.\<close>

lemma placed_block:
  "\<exists>s. bm_inv sbi4k 0 s [1] [] \<and> TailBlkAddr s = 0 \<and> bb_Off (bm_blocks s 1) = 0
     \<and> bh_Block (bm_heads s 0) = Some 1 \<and> dll (bm_links s) (BbBufs 1) [BhList 0]"
proof -
  obtain s where s: "one_block s" using one_block_exists by blast
  have z: "nblks sbi4k (bm_blocks s 1) = 0"
    using nblks_eq [of sbi4k "bm_blocks s 1"] s by (simp add: one_block_def del: One_nat_def)
  obtain s' where s': "bm_inv sbi4k 0 s' [1] []" "unat (TailBlkAddr s') = 0"
     "bm_blocks s' 1 = (bm_blocks s 1)\<lparr>bb_BlkAddr := 0\<rparr>" "bm_heads s' = bm_heads s"
     "same_outside (bucket_nodes {1}) (bm_links s) (bm_links s')"
    using MapBh_first [of sbi4k s 2] s z by (auto simp: one_block_def)
  have "dll (bm_links s') (BbBufs 1) [BhList 0]"
    using s by (intro dll_frame [OF _ s'(5)]) (auto simp: one_block_def)
  moreover have "TailBlkAddr s' = 0" using s'(2) by (simp add: unat_eq_zero)
  ultimately show ?thesis using s s' by (auto simp: one_block_def)
qed

lemma reserved_superblock: "\<exists>s. sb_reserved sbi4k s"
  using new_manager ReserveSuperblock_fresh [of sbi4k _ 3] by fastforce

section \<open>Machines\<close>

definition plain_os :: os_answers where
  "plain_os = \<lparr>os_open = None, os_stat = None, os_kind = Regular, os_statfs = Some EXT4_MAGIC, os_remove = None, os_reopen = None,
     os_truncate = None, os_fstat = Inr 4096, os_getsize64 = Inr 0, os_getsize = Inr 0, os_discard = 0\<rparr>"

text \<open>A kernel that delivers bytes at once, and one that does not know \<open>GRND_INSECURE\<close>.\<close>

definition new_kernel :: "unit entropy" where
  "new_kernel = \<lparr>Getrandom = (\<lambda>w n fl. ((replicate n 0xAB, int n, None), w)), RandInt = (\<lambda>w n. (Inr 0, w))\<rparr>"

definition old_kernel :: "unit entropy" where
  "old_kernel = \<lparr>Getrandom = (\<lambda>w n fl. if fl = GRND_INSECURE then (([], -1, Some EINVAL), w)
       else ((replicate n 0xAB, int n, None), w)), RandInt = (\<lambda>w n. (Inr 0, w))\<rparr>"

definition plain_machine :: "unit entropy \<Rightarrow> bytes \<Rightarrow> string \<Rightarrow> unit machine" where
  "plain_machine env data hints_text =
     \<lparr>mc_endian = LittleEndian, mc_page_size = 4096, mc_tty = False, mc_os = plain_os,
      mc_image = (\<lambda>p. Some (plain_file data [])), mc_fresh = plain_file [] [], mc_blobs = (\<lambda>_. plain_file [] []),
      mc_text = (\<lambda>p. Some hints_text), mc_regexp_ok = (\<lambda>_. True), mc_entropy = env, mc_world = ()\<rparr>"

lemma plain_machine_simps [simp]:
  "mc_page_size (plain_machine env data t) = 2 ^ 12" "mc_os (plain_machine env data t) = plain_os"
  "mc_entropy (plain_machine env data t) = env" "mc_world (plain_machine env data t) = ()"
  "mc_text (plain_machine env data t) p = Some t" "mc_regexp_ok (plain_machine env data t) p"
  "run_file (plain_machine env data t) fl = plain_file data []" "os_open plain_os = None"
  by (simp_all add: plain_machine_def plain_os_def run_file_def)

lemma default_flags_simps [simp]:
  "fl_args (default_flags args) = args" "fl_C (default_flags args) = ''''" "fl_c (default_flags args) = ''lz4''"
  "fl_l (default_flags args) = -1"
  by (simp_all add: default_flags_def)

lemma new_kernel_delivers: "delivers new_kernel fl 0 w (replicate 16 0xAB) w"
  by (simp add: new_kernel_def)

lemma old_kernel_refuses: "Getrandom old_kernel w 16 GRND_INSECURE = (([], -1, Some EINVAL), w)"
  by (simp add: old_kernel_def)

section \<open>A reachable manager\<close>

text \<open>After one allocation, and after that block was placed.\<close>

lemma reached_block:
  "\<exists>s. bm_reach 10 sbi4k 0 s \<and> one_block s"
proof -
  obtain s where s: "ErofsBufferInit 0 = Ret s" "bm_next_bb s = 1" using new_manager by blast
  obtain s1 where s1: "Balloc 10 sbi4k META 0 0 0 s = Ret (Inr 0, s1)" "one_block s1"
    using Balloc_first [of sbi4k s 10] s unfolding one_block_def by (auto simp del: One_nat_def)
  have "bm_step 10 sbi4k s s1"
    by (rule bm_step.alloc [OF _ _ s1(1)]) (simp_all add: no_search_def GetAlignSize_def s(2))
  with s(1) s1(2) show ?thesis by (blast intro: bm_reach.intros)
qed

text \<open>The manager of a run, after \<open>ReserveSuperblock\<close>.\<close>

lemma reached_reserved:
  "\<exists>s. bm_reach 10 sbi4k 0 s \<and> sb_reserved sbi4k s \<and> bm_next_bb s = 2"
proof -
  obtain s where "ErofsBufferInit 0 = Ret s" using new_manager by blast
  with ReserveSuperblock_reach [of sbi4k s 10] show ?thesis by auto
qed

lemma reached_placed:
  "\<exists>s. bm_reach 10 sbi4k 0 s \<and> bm_next_bb s = 2 \<and> bb_BlkAddr (bm_blocks s 1) = 0 \<and> live s 1 0 \<and> space_left sbi4k s"
proof -
  obtain s where s: "bm_reach 10 sbi4k 0 s" "one_block s" using reached_block by blast
  have z: "nblks sbi4k (bm_blocks s 1) = 0"
    using nblks_eq [of sbi4k "bm_blocks s 1"] s(2) by (simp add: one_block_def del: One_nat_def)
  obtain s' where s': "MapBh 10 sbi4k False (Some 1) s = Ret (TailBlkAddr s', s')" "unat (TailBlkAddr s') = 0"
     "bm_blocks s' 1 = (bm_blocks s 1)\<lparr>bb_BlkAddr := 0\<rparr>" "bm_heads s' = bm_heads s" "bm_next_bb s' = bm_next_bb s"
     "same_outside (bucket_nodes {1}) (bm_links s) (bm_links s')"
    using MapBh_first [of sbi4k s 10] s(2) z by (auto simp: one_block_def)
  have "dll (bm_links s) (BbBufs 1) (map BhList ([] @ 0 # []))" using s(2) by (simp add: one_block_def del: One_nat_def)
  then have "\<exists>xs ys. dll (bm_links s) (BbBufs 1) (map BhList (xs @ 0 # ys))" by blast
  then have live: "live s 1 0" unfolding live_def using s(2) by (simp add: one_block_def del: One_nat_def)
  have n: "[1..<2 :: nat] = [1]" by (simp add: upt_rec)
  have space: "space_left sbi4k s"
    using s(2) z by (simp add: space_left_def unplaced_size_def mapped_size_def one_block_def n del: One_nat_def)
  have "bm_step 10 sbi4k s s'"
    by (rule bm_step.map_to [OF space _ _ _ s'(1)]) (use s(2) in \<open>simp_all add: one_block_def\<close>)
  then have reach: "bm_reach 10 sbi4k 0 s'" using s(1) bm_reach.step by blast
  have "dll (bm_links s') (BbBufs 1) (map BhList ([] @ 0 # []))"
    using s(2) by (intro dll_frame [OF _ s'(6)]) (auto simp: one_block_def)
  then have "\<exists>xs ys. dll (bm_links s') (BbBufs 1) (map BhList (xs @ 0 # ys))" by blast
  then have "live s' 1 0" unfolding live_def using s(2) s'(4,5) by (simp add: one_block_def del: One_nat_def)
  moreover have "space_left sbi4k s'"
    using s(2) s'(2,3,5) by (simp add: space_left_def unplaced_size_def mapped_size_def one_block_def n del: One_nat_def)
  ultimately show ?thesis using reach s' s(2) by (auto simp: one_block_def simp del: One_nat_def)
qed

section \<open>Inodes and files\<close>

definition plain_numbers :: dev_numbers where
  "plain_numbers = \<lparr>unix_Major = (\<lambda>d. ucast (drop_bit 8 d) AND 0xfff), unix_Minor = (\<lambda>d. ucast d AND 0xff)\<rparr>"

definition plain_stat :: "u32 \<Rightarrow> u32 \<Rightarrow> stat" where
  "plain_stat mode uid = \<lparr>st_Dev = 0, st_Ino = 7, st_Nlink = 1, st_Mode = mode, st_Uid = uid, st_Gid = uid, st_Rdev = 0,
     st_Size = 0, st_Mtim_Sec = 0, st_Mtim_Nsec = 0\<rparr>"

definition plain_xcopy :: xcopy_os where
  "plain_xcopy = \<lparr>xo_range = Part 1, xo_seek_ok = True, xo_sendfile = Part 1\<rparr>"

definition zero_table :: itable where
  "zero_table = \<lparr>it_links = \<lparr>lprev = (\<lambda>_. None), lnext = (\<lambda>_. None)\<rparr>, it_inodes = (\<lambda>_. zero_inode), it_next = 0,
     it_streams = (\<lambda>_. \<lparr>strm_count = 0, strm_TailOffset = 0, strm_DevPos = 0, strm_Fd = 0, strm_AlignSize = 0, strm_locked = False\<rparr>)\<rparr>"

lemma plain_config_simps:
  "cf_ForceInodeVersion (InitConfigure tty) = 0" "cf_Uid (InitConfigure tty) = -1" "cf_UidOffset (InitConfigure tty) = 0"
  by (simp_all add: InitConfigure_def)

lemma empty_table: "\<exists>t. in_buckets t (\<lambda>_. []) \<and> it_inodes t = (\<lambda>_. zero_inode)"
  using ErofsInodeManagerInit_buckets [of zero_table] by (auto simp: zero_table_def)

lemma fill_plain_directory:
  assumes "in_buckets t (\<lambda>_. [])" "it_inodes t = (\<lambda>_. zero_inode)"
  shows "\<exists>t'. ErofsFillInode plain_numbers (InitConfigure False) sbi4k 0 (plain_stat 0x41ED 0) path t = Ret (None, t')
     \<and> hash_slot (it_inodes t' 0) = 7"
proof -
  have "in_Nid zero_inode = 0" "si_PackedNid sbi4k = 0" "in_ISize zero_inode = 0" "cf_ForceInodeVersion (InitConfigure False) = 0"
      "ucast (st_Mode (plain_stat 0x41ED 0)) AND S_IFMT \<in> inode_types" "st_Size (plain_stat 0x41ED 0) \<le> 0xFFFFFFFF"
    by (simp_all add: zero_inode_def sbi4k_def zero_sbinfo_def plain_config_simps plain_stat_def inode_types_def)
  then obtain x where x: "fill_attrs plain_numbers (InitConfigure False) sbi4k zero_inode (plain_stat 0x41ED 0) path = Ret (None, x)"
    using fill_attrs_new by blast
  then have "hash_slot x = 7" using fill_attrs_accepts(6) [OF x] by (simp add: hash_slot_def plain_stat_def)
  moreover obtain t' where "ErofsInsertIhash 0 (upd_in 0 (\<lambda>_. x) t) = Ret t'" "it_inodes t' = it_inodes (upd_in 0 (\<lambda>_. x) t)"
    using ErofsInsertIhash_buckets [OF in_buckets_fresh [OF assms(1), of 0 "\<lambda>_. x"], of 0] by auto
  ultimately show ?thesis using x assms(2) by (simp add: ErofsFillInode_def)
qed

text \<open>The first head of a manager, mapped at address 0, for any block size.\<close>

lemma mapped_head:
  assumes "small_blocks sbi"
  shows "\<exists>bm a bm1. MapBh 3 sbi False (bh_Block (bm_heads bm 0)) bm = Ret (a, bm1) \<and> BhTell sbi 0 False bm1 = Ret 0"
proof -
  obtain s where s: "ErofsBufferInit 0 = Ret s" using new_manager by blast
  obtain bm where bm: "bm_inv sbi 0 bm [] [1]" "TailBlkAddr bm = 0" "bm_heads bm 0 = \<lparr>bh_Block = Some 1, bh_Off = 0, bh_Op = None\<rparr>"
      "bm_blocks bm 1 = \<lparr>bb_BlkAddr = NULL_ADDR, bb_Type = META, bb_Off = 0, bb_FsPrivate = True\<rparr>"
    using Balloc_first [OF assms s, of 3] by (auto simp del: One_nat_def)
  have z: "nblks sbi (bm_blocks bm 1) = 0"
    using nblks_eq [OF assms, of "bm_blocks bm 1"] bm(4) by (simp del: One_nat_def)
  obtain bm1 where "MapBh 3 sbi False (Some 1) bm = Ret (TailBlkAddr bm1, bm1)" "bm_heads bm1 = bm_heads bm"
      "bm_blocks bm1 1 = (bm_blocks bm 1)\<lparr>bb_BlkAddr := 0\<rparr>"
    using MapBh_first [OF bm(1,2), of 3] z by (auto simp del: One_nat_def)
  then show ?thesis
    using bm by (intro exI [of _ bm] exI [of _ "TailBlkAddr bm1"] exI [of _ bm1])
      (simp add: BhTell_def manager_of_def ErofsPos_def del: One_nat_def)
qed

text \<open>A manager whose list holds one mapped data block of two blocks at address 5.\<close>

definition extent_manager :: bufmgr where
  "extent_manager = \<lparr>
     bm_links = \<lparr>lprev = (\<lambda>n. if n = BbList 0 then Some (BbList 1) else if n = BbList 1 then Some (BbList 0)
                    else if n = BbBufs 1 then Some (BbBufs 1) else None),
                 lnext = (\<lambda>n. if n = BbList 0 then Some (BbList 1) else if n = BbList 1 then Some (BbList 0)
                    else if n = BbBufs 1 then Some (BbBufs 1) else None)\<rparr>,
     bm_blocks = (\<lambda>b. if b = 1 then \<lparr>bb_BlkAddr = 5, bb_Type = DATA, bb_Off = 8192, bb_FsPrivate = True\<rparr>
                    else \<lparr>bb_BlkAddr = NULL_ADDR, bb_Type = 0, bb_Off = 0, bb_FsPrivate = False\<rparr>),
     bm_heads = (\<lambda>_. zero_bhead), bm_next_bb = 2, bm_next_bh = 0, TailBlkAddr = 7, MetaBlkCnt = 0,
     LastMappedBlock = Some 1\<rparr>"

lemma extent_manager_head:
  "case Balloc 5 sbi4k DATA 4096 0 0 extent_manager of
     Ret (Inr bh, bm) \<Rightarrow> bh = 0 \<and> bh_Block (bm_heads bm 0) = Some 1
       \<and> bb_BlkAddr (bm_blocks bm 1) = 5 \<and> bb_FsPrivate (bm_blocks bm 1)
   | _ \<Rightarrow> False"
  by code_simp

lemma extent_manager_grants:
  "\<exists>bm. ErofsAllocateInodeBhData 5 sbi4k i 1 extent_manager = Ret (None, i\<lparr>in_BhData := Some 0, in_IBlkaddr := 5\<rparr>, bm)"
proof -
  have p: "ErofsPos sbi4k (ucast (1 :: u32)) = 4096" by (simp add: ErofsPos_def)
  obtain r bm where run: "Balloc 5 sbi4k DATA 4096 0 0 extent_manager = Ret (r, bm)"
    using extent_manager_head by (cases "Balloc 5 sbi4k DATA 4096 0 0 extent_manager") (auto simp del: DATA_def)
  then have bm: "Balloc 5 sbi4k DATA 4096 0 0 extent_manager = Ret (Inr 0, bm)" "bh_Block (bm_heads bm 0) = Some 1"
      "bb_BlkAddr (bm_blocks bm 1) = 5" "bb_FsPrivate (bm_blocks bm 1)"
    using extent_manager_head by (cases r; simp del: DATA_def One_nat_def)+
  have "\<exists>bm2. ErofsAllocateInodeBhData 5 sbi4k i 1 extent_manager
     = Ret (None, i\<lparr>in_BhData := Some 0, in_IBlkaddr := bb_BlkAddr (bm_blocks bm 1)\<rparr>, bm2)"
    by (rule Allocate_granted [OF _ _ bm(2,4)]) (use bm p in \<open>simp_all del: DATA_def\<close>)
  then show ?thesis using bm(3) by simp
qed

section \<open>Open files and the packed file\<close>

definition open_at :: "bytes \<Rightarrow> sysresp list \<Rightarrow> nat \<Rightarrow> openfile" where
  "open_at data script p = \<lparr>of_file = plain_file data script, of_pos = p\<rparr>"

lemma open_at_simps [simp]: "of_file (open_at data script p) = plain_file data script" "of_pos (open_at data script p) = p"
  by (simp_all add: open_at_def)

lemma served_open: "fds fd = Some (open_at data [] p) \<Longrightarrow> length data < 2 ^ 62 \<Longrightarrow> p < 2 ^ 62 \<Longrightarrow> served fds fd data p"
  by (simp add: served_def)

definition good_answers :: tmp_answers where
  "good_answers = \<lparr>ta_tmpdir = '''', ta_create = Inr 9, ta_remove = None, ta_umask = 18, ta_chmod = None\<rparr>"

lemma packed_file:
  "\<exists>pk. InitPackedFile good_answers None True fds = Ret (None, Some pk, fds(9 \<mapsto> new_openfile))
     \<and> pk_Hash pk \<and> pk_Fd pk = 9 \<and> frag_index pk 0 []
     \<and> (\<forall>j. j \<noteq> 0 \<longrightarrow> lprev (pk_links pk) (FragHead j) = None \<and> lnext (pk_links pk) (FragHead j) = None)"
  by (rule InitPackedFile_heads) (simp_all add: good_answers_def)

lemma new_openfile_served: "fds fd = Some new_openfile \<Longrightarrow> served fds fd [] 0"
  by (simp add: served_def new_openfile_def)

text \<open>An index that already holds the fragment in every slot one may ask for.\<close>

lemma indexed_fragment: "\<exists>pk. frag_index pk j [it] \<and> pk_Hash pk"
proof -
  let ?h = "\<lparr>lprev = (\<lambda>_. None), lnext = (\<lambda>_. None)\<rparr>"
  obtain h1 where h1: "InitListHead ?h (Some (FragHead j)) = Ret h1" "dll h1 (FragHead j) []"
    using InitListHead_Ret [of ?h "FragHead j"] by blast
  obtain h2 where "dll h2 (FragHead j) ([] @ [FragItem 0])"
    using ListAddTail_dll [OF h1(2), of "FragItem 0"] by auto
  then have "frag_index \<lparr>pk_Hash = True, pk_links = h2, pk_items = (\<lambda>_. it), pk_next = 1, pk_Fd = 9\<rparr> j [it]"
    unfolding frag_index_def by (intro exI [of _ "[0]"]) simp
  then show ?thesis by fastforce
qed

section \<open>Addresses\<close>

definition pair_ring :: "u64 links" where
  "pair_ring = \<lparr>lprev = (\<lambda>a. if a = 8 then Some 16 else Some 8), lnext = (\<lambda>a. if a = 8 then Some 16 else Some 8)\<rparr>"

lemma hints_embedded:
  "FieldByName ErofsCompressHints ''List'' = Some \<lparr>fd_name = ''List'', fd_type = ListHeadField, fd_offset = 0\<rparr>"
  "fd_type \<lparr>fd_name = ''List'', fd_type = ListHeadField, fd_offset = 0\<rparr> \<noteq> ListHeadPtr" "exported ''List''"
  by (simp_all add: FieldByName_def ErofsCompressHints_def exported_def)

section \<open>Verdicts of concrete runs\<close>

lemma plain_uuid:
  "UUIDGenerate 10 (mc_entropy (plain_machine new_kernel data t)) (replicate 16 0)
      \<lparr>erofsGrndFlag = GRND_INSECURE, world = mc_world (plain_machine new_kernel data t)\<rparr>
    = Ret (None, stamp (replicate 16 0xAB), \<lparr>erofsGrndFlag = GRND_INSECURE, world = ()\<rparr>)"
  using UUIDGenerate_delivers [of new_kernel "\<lparr>erofsGrndFlag = GRND_INSECURE, world = ()\<rparr>" 0 "replicate 16 0xAB" "()" "replicate 16 0" 10]
    new_kernel_delivers by simp

lemma short_line_verdict:
  "mkfs_verdict (plain_machine env data ''x'') ((default_flags args)\<lparr>fl_C := ''h''\<rparr>) uuid = Refused (HintsFailed (- EINVAL))"
proof -
  have "Fields ''x'' = [''x'']" by code_simp
  then have "parse_hint cfg sbi ''x'' = Reject (- EINVAL)" for cfg sbi by (simp add: parse_hint_def)
  moreover have "scan_lines ''x'' = [''x'']" by (simp add: scan_lines_def drop_cr_def)
  ultimately show ?thesis by (simp add: mkfs_verdict_def hints_verdict_def Let_def)
qed

lemma no_algorithm_verdict:
  "\<exists>sb. mkfs_verdict (plain_machine env data t) ((default_flags args)\<lparr>fl_c := ''''\<rparr>) uuid = Sealed sb \<and> sb_FeatureIncompat sb = 0"
  by (simp add: mkfs_verdict_def hints_verdict_def sealed_def SetFeatureCompat_def buffer_superblock_def run_sbinfo_def
      MkfsDefaultOptions_def ErofsSbClearLz40Padding_def sb_clear_def write_flags_def read_flags_def Let_def)

end
