(* ===== verification/Formats.thy ===== *)
theory Formats
  imports Inode Compress Superblock
begin

text \<open>
  The layouts of the structs whose sizes the program relies on, and the constant groups of
  \<open>pkg/types/constants.go\<close> and \<open>pkg/errors/error.go\<close> as tables of names and values, with what ties them to
  the numbers the other theories use.
\<close>

section \<open>Struct layouts\<close>

definition ListHeadLayout :: gotype where
  "ListHeadLayout = Struct [Scalar 8, Scalar 8]"

definition SuperBlockLayout :: gotype where
  "SuperBlockLayout = Struct
     [Scalar 4, Scalar 4, Scalar 4, Scalar 1, Scalar 1, Scalar 2, Scalar 8, Scalar 8, Scalar 4, Scalar 4,
      Scalar 4, Scalar 4, Array 16 (Scalar 1), Array 16 (Scalar 1), Scalar 4, Scalar 2, Scalar 2, Scalar 2,
      Scalar 1, Scalar 1, Scalar 4, Scalar 8, Scalar 1, Array 23 (Scalar 1)]"

definition ErofsDeviceSlot :: gotype where
  "ErofsDeviceSlot = Struct [Array 64 (Scalar 1), Scalar 4, Scalar 4, Array 56 (Scalar 1)]"

definition DeviceInfo :: gotype where
  "DeviceInfo = Struct [Array 64 (Scalar 1), Scalar 4, Scalar 4]"

text \<open>A pointer has 8 bytes, an interface 16, and so has a string.\<close>

definition XattrPrefixItem :: gotype where
  "XattrPrefixItem = Struct [Scalar 8, Scalar 1]"

definition ErofsDentry :: gotype where
  "ErofsDentry = Struct
     [ListHeadLayout, Struct [Scalar 8, Scalar 8], Scalar 1, Scalar 1, Scalar 1, Struct [Scalar 8, Scalar 8]]"

definition ZErofsLz4Cfgs :: gotype where
  "ZErofsLz4Cfgs = Struct [Scalar 2, Scalar 2, Array 10 (Scalar 1)]"

definition ZErofsLzmaCfgs :: gotype where
  "ZErofsLzmaCfgs = Struct [Scalar 4, Scalar 2, Array 8 (Scalar 1)]"

definition ZErofsDeflateCfgs :: gotype where
  "ZErofsDeflateCfgs = Struct [Scalar 1, Array 5 (Scalar 1)]"

definition ZErofsZstdCfgs :: gotype where
  "ZErofsZstdCfgs = Struct [Scalar 1, Scalar 1, Array 4 (Scalar 1)]"

lemmas layouts = ListHeadLayout_def SuperBlockLayout_def ErofsDeviceSlot_def DeviceInfo_def XattrPrefixItem_def
  ErofsDentry_def ZErofsLz4Cfgs_def ZErofsLzmaCfgs_def ZErofsDeflateCfgs_def ZErofsZstdCfgs_def

section \<open>Constants\<close>

text \<open>Error numbers; one number has two names where the system has two.\<close>

definition error_numbers :: "(string \<times> int) list" where
  "error_numbers =
    [(''EDEADLK'', 35), (''ENAMETOOLONG'', 36), (''ENOLCK'', 37), (''EPERM'', 1), (''ENOENT'', 2),
     (''ESRCH'', 3), (''EINTR'', 4), (''EIO'', 5), (''ENXIO'', 6), (''E2BIG'', 7), (''ENOEXEC'', 8),
     (''EBADF'', 9), (''ECHILD'', 10), (''EAGAIN'', 11), (''ENOMEM'', 12), (''EACCES'', 13), (''EFAULT'', 14),
     (''ENOTBLK'', 15), (''EBUSY'', 16), (''EEXIST'', 17), (''EXDEV'', 18), (''ENODEV'', 19),
     (''ENOTDIR'', 20), (''EISDIR'', 21), (''EINVAL'', 22), (''ENFILE'', 23), (''EMFILE'', 24),
     (''ENOTTY'', 25), (''ETXTBSY'', 26), (''EFBIG'', 27), (''ENOSPC'', 28), (''ESPIPE'', 29), (''EROFS'', 30),
     (''EMLINK'', 31), (''EPIPE'', 32), (''EDOM'', 33), (''ERANGE'', 34), (''ENOSYS'', 38),
     (''ENOTEMPTY'', 39), (''ELOOP'', 40), (''EWOULDBLOCK'', 11), (''ENOMSG'', 42), (''EIDRM'', 43),
     (''ECHRNG'', 44), (''EL2NSYNC'', 45), (''EL3HLT'', 46), (''EL3RST'', 47), (''ELNRNG'', 48),
     (''EUNATCH'', 49), (''ENOCSI'', 50), (''EL2HLT'', 51), (''EBADE'', 52), (''EBADR'', 53), (''EXFULL'', 54),
     (''ENOANO'', 55), (''EBADRQC'', 56), (''EBADSLT'', 57), (''EDEADLOCK'', 35), (''EBFONT'', 59),
     (''ENOSTR'', 60), (''ENODATA'', 61), (''ETIME'', 62), (''ENOSR'', 63), (''ENONET'', 64), (''ENOPKG'', 65),
     (''EREMOTE'', 66), (''ENOLINK'', 67), (''EADV'', 68), (''ESRMNT'', 69), (''ECOMM'', 70), (''EPROTO'', 71),
     (''EMULTIHOP'', 72), (''EDOTDOT'', 73), (''EBADMSG'', 74), (''EOVERFLOW'', 75), (''ENOTUNIQ'', 76),
     (''EBADFD'', 77), (''EREMCHG'', 78), (''ELIBACC'', 79), (''ELIBBAD'', 80), (''ELIBSCN'', 81),
     (''ELIBMAX'', 82), (''ELIBEXEC'', 83), (''EILSEQ'', 84), (''ERESTART'', 85), (''ESTRPIPE'', 86),
     (''EUSERS'', 87), (''ENOTSOCK'', 88), (''EDESTADDRREQ'', 89), (''EMSGSIZE'', 90), (''EPROTOTYPE'', 91),
     (''ENOPROTOOPT'', 92), (''EPROTONOSUPPORT'', 93), (''ESOCKTNOSUPPORT'', 94), (''EOPNOTSUPP'', 95),
     (''EPFNOSUPPORT'', 96), (''EAFNOSUPPORT'', 97), (''EADDRINUSE'', 98), (''EADDRNOTAVAIL'', 99),
     (''ENETDOWN'', 100), (''ENETUNREACH'', 101), (''ENETRESET'', 102), (''ECONNABORTED'', 103),
     (''ECONNRESET'', 104), (''ENOBUFS'', 105), (''EISCONN'', 106), (''ENOTCONN'', 107), (''ESHUTDOWN'', 108),
     (''ETOOMANYREFS'', 109), (''ETIMEDOUT'', 110), (''ECONNREFUSED'', 111), (''EHOSTDOWN'', 112),
     (''EHOSTUNREACH'', 113), (''EALREADY'', 114), (''EINPROGRESS'', 115), (''ESTALE'', 116),
     (''EUCLEAN'', 117), (''ENOTNAM'', 118), (''ENAVAIL'', 119), (''EISNAM'', 120), (''EREMOTEIO'', 121),
     (''EDQUOT'', 122), (''ENOMEDIUM'', 123), (''EMEDIUMTYPE'', 124), (''ECANCELED'', 125), (''ENOKEY'', 126),
     (''EKEYEXPIRED'', 127), (''EKEYREVOKED'', 128), (''EKEYREJECTED'', 129), (''EOWNERDEAD'', 130),
     (''ENOTRECOVERABLE'', 131), (''ERFKILL'', 132), (''EHWPOISON'', 133)]"

text \<open>One table for each group of constants, in the file's order.\<close>

definition block_constants :: "(string \<times> int) list" where
  "block_constants =
    [(''EROFS_MAX_BLOCK_SIZE'', 4096), (''EROFS_MIN_BLOCK_SIZE'', 512), (''PATH_MAX'', 4096),
     (''EROFS_ISLOBITS'', 5), (''EROFS_SLOTSIZE'', 32), (''NULL_ADDR'', 4294967295),
     (''NULL_ADDR_UL'', 18446744073709551615)]"

definition superblock_constants :: "(string \<times> int) list" where
  "superblock_constants =
    [(''EROFS_SUPER_MAGIC_V1'', 3774210530), (''EROFS_SUPER_OFFSET'', 1024), (''EROFS_SUPER_END'', 1152),
     (''EROFS_SB_EXTSLOT_SIZE'', 16), (''EROFS_FEATURE_COMPAT_SB_CHKSUM'', 1),
     (''EROFS_FEATURE_COMPAT_MTIME'', 2), (''EROFS_FEATURE_COMPAT_XATTR_FILTER'', 4),
     (''EROFS_FEATURE_INCOMPAT_ZERO_PADDING'', 1), (''EROFS_FEATURE_INCOMPAT_COMPR_CFGS'', 2),
     (''EROFS_FEATURE_INCOMPAT_BIG_PCLUSTER'', 2), (''EROFS_FEATURE_INCOMPAT_CHUNKED_FILE'', 4),
     (''EROFS_FEATURE_INCOMPAT_DEVICE_TABLE'', 8), (''EROFS_FEATURE_INCOMPAT_COMPR_HEAD2'', 8),
     (''EROFS_FEATURE_INCOMPAT_ZTAILPACKING'', 16), (''EROFS_FEATURE_INCOMPAT_FRAGMENTS'', 32),
     (''EROFS_FEATURE_INCOMPAT_DEDUPE'', 32), (''EROFS_FEATURE_INCOMPAT_XATTR_PREFIXES'', 64),
     (''EROFS_ALL_FEATURE_INCOMPAT'', 127), (''EROFS_I_VERSION_MASK'', 1), (''EROFS_I_DATALAYOUT_MASK'', 7),
     (''EROFS_I_VERSION_BIT'', 0), (''EROFS_I_DATALAYOUT_BIT'', 1), (''EROFS_I_ALL_BIT'', 4),
     (''EROFS_I_ALL'', 15), (''EROFS_CHUNK_FORMAT_BLKBITS_MASK'', 31), (''EROFS_CHUNK_FORMAT_INDEXES'', 32),
     (''EROFS_CHUNK_FORMAT_ALL'', 63), (''EROFS_INODE_LAYOUT_COMPACT'', 0), (''EROFS_INODE_LAYOUT_EXTENDED'', 1)]"

definition inode_layouts :: "(string \<times> int) list" where
  "inode_layouts =
    [(''EROFS_INODE_FLAT_PLAIN'', 0), (''EROFS_INODE_COMPRESSED_FULL'', 1), (''EROFS_INODE_FLAT_INLINE'', 2),
     (''EROFS_INODE_COMPRESSED_COMPACT'', 3), (''EROFS_INODE_CHUNK_BASED'', 4),
     (''EROFS_INODE_DATALAYOUT_MAX'', 5), (''NR_INODE_HASHTABLE'', 16384)]"

definition seek_origins :: "(string \<times> int) list" where
  "seek_origins =
    [(''SEEK_SET'', 0), (''SEEK_CUR'', 1), (''SEEK_END'', 2), (''SEEK_DATA'', 3), (''SEEK_HOLE'', 4)]"

definition file_types_ft :: "(string \<times> int) list" where
  "file_types_ft =
    [(''EROFS_FT_UNKNOWN'', 0), (''EROFS_FT_REG_FILE'', 1), (''EROFS_FT_DIR'', 2), (''EROFS_FT_CHRDEV'', 3),
     (''EROFS_FT_BLKDEV'', 4), (''EROFS_FT_FIFO'', 5), (''EROFS_FT_SOCK'', 6), (''EROFS_FT_SYMLINK'', 7),
     (''EROFS_FT_MAX'', 8)]"

definition data_sources :: "(string \<times> int) list" where
  "data_sources =
    [(''EROFS_INODE_DATA_SOURCE_NONE'', 0), (''EROFS_INODE_DATA_SOURCE_LOCALPATH'', 1),
     (''EROFS_INODE_DATA_SOURCE_DISKBUF'', 2), (''EROFS_INODE_DATA_SOURCE_RESVSP'', 3)]"

definition advice_bits :: "(string \<times> int) list" where
  "advice_bits =
    [(''Z_EROFS_ADVISE_COMPACTED_2B'', 1), (''Z_EROFS_ADVISE_BIG_PCLUSTER_1'', 2),
     (''Z_EROFS_ADVISE_BIG_PCLUSTER_2'', 4), (''Z_EROFS_ADVISE_INLINE_PCLUSTER'', 8),
     (''Z_EROFS_ADVISE_INTERLACED_PCLUSTER'', 16), (''Z_EROFS_ADVISE_FRAGMENT_PCLUSTER'', 32)]"

definition inode_state_bits :: "(string \<times> int) list" where
  "inode_state_bits =
    [(''EROFS_I_EA_INITED'', 1), (''EROFS_I_Z_INITED'', 2)]"

definition config_constants :: "(string \<times> int) list" where
  "config_constants =
    [(''EROFS_MAX_COMPR_CFGS'', 64), (''FORCE_INODE_COMPACT'', 1), (''FORCE_INODE_EXTENDED'', 2),
     (''FORCE_INODE_BLOCK_MAP'', 1), (''FORCE_INODE_CHUNK_INDEX'', 2), (''TIMESTAMP_UNSPECIFIED'', 5),
     (''TIMESTAMP_NONE'', 6), (''TIMESTAMP_FIXED'', 7), (''TIMESTAMP_CLAMPING'', 8), (''FRAGDEDUPE_FULL'', 9),
     (''FRAGDEDUPE_INODE'', 10), (''FRAGDEDUPE_OFF'', 11)]"

definition readdir_bits :: "(string \<times> int) list" where
  "readdir_bits =
    [(''EROFS_READDIR_VALID_PNID'', 1), (''EROFS_READDIR_DOTDOT_FOUND'', 2), (''EROFS_READDIR_DOT_FOUND'', 4),
     (''EROFS_READDIR_ALL_SPECIAL_FOUND'', 6)]"

definition message_levels :: "(string \<times> int) list" where
  "message_levels =
    [(''EROFS_MSG_MIN'', 0), (''EROFS_ERR'', 0), (''EROFS_WARN'', 2), (''EROFS_INFO'', 3), (''EROFS_DBG'', 7),
     (''EROFS_MSG_MAX'', 9)]"

definition ios_decoders :: "(string \<times> int) list" where
  "ios_decoders =
    [(''EROFS_IOS_DECODER_NONE'', 0), (''EROFS_IOS_DECODER_GZIP'', 1), (''EROFS_IOS_DECODER_LIBLZMA'', 2)]"

definition z_limits :: "(string \<times> int) list" where
  "z_limits =
    [(''EROFS_NAME_LEN'', 255), (''Z_EROFS_PCLUSTER_MAX_SIZE'', 1048576),
     (''Z_EROFS_PCLUSTER_MAX_DSIZE'', 12582912), (''Z_EROFS_PCLUSTER_MAX_PAGES'', 256),
     (''Z_EROFS_NR_INLINE_PCLUSTER'', 1), (''Z_EROFS_CLUSTER_MAX_PAGES'', 4)]"

definition common_constants :: "(string \<times> int) list" where
  "common_constants =
    [(''EROFSIVersionMask'', 1), (''EROFSIDataLayoutMask'', 7), (''EROFSIVersionBit'', 0),
     (''EROFSIDataLayoutBit'', 1), (''EROFSIAllBit'', 4), (''EROFSIAll'', 15),
     (''EROFSChunkFormatBlkBitsMask'', 31), (''EROFSChunkFormatIndexes'', 32), (''EROFSChunkFormatAll'', 63),
     (''EROFSInodeLayoutCompact'', 0), (''EROFSInodeLayoutExtended'', 1), (''EROFSXattrIndexUser'', 1),
     (''EROFSXattrIndexPosixACLAccess'', 2), (''EROFSXattrIndexPosixACLDefault'', 3),
     (''EROFSXattrIndexTrusted'', 4), (''EROFSXattrIndexLustre'', 5), (''EROFSXattrIndexSecurity'', 6),
     (''EROFSXattrLongPrefix'', 128), (''EROFSXattrLongPrefixMask'', 127), (''EROFSXattrFilterBits'', 32),
     (''EROFSXattrFilterDefault'', 4294967295), (''EROFSXattrFilterSeed'', 633069711), (''EROFSISLOTBITS'', 5),
     (''EROFSNullAddr'', 0)]"

definition z_lcluster :: "(string \<times> int) list" where
  "z_lcluster =
    [(''ZEROFSCompressionLZ4'', 0), (''ZEROFSCompressionLZMA'', 1), (''ZEROFSCompressionDeflate'', 2),
     (''ZEROFSCompressionZSTD'', 3), (''ZEROFSCompressionMax'', 4), (''ZEROFSAdviseCompacted2B'', 1),
     (''ZEROFSAdviseBigPCluster1'', 2), (''ZEROFSAdviseBigPCluster2'', 4), (''ZEROFSAdviseInlinePCluster'', 8),
     (''ZEROFSAdviseInterlacedPCluster'', 16), (''ZEROFSAdviseFragmentPCluster'', 32),
     (''ZEROFSLClusterTypePlain'', 0), (''ZEROFSLClusterTypeHead1'', 1), (''ZEROFSLClusterTypeNonHead'', 2),
     (''ZEROFSLClusterTypeHead2'', 3), (''ZEROFSLClusterTypeMax'', 4), (''ZEROFSFragmentInodeBit'', 7),
     (''ZEROFSLILClusterTypeMask'', 3), (''ZEROFSLIPartialRef'', 32768), (''ZEROFSLID0CblkCnt'', 2048)]"

definition compression_ids :: "(string \<times> int) list" where
  "compression_ids =
    [(''EROFS_COMPRESSION_LZ4'', 0), (''EROFS_COMPRESSION_DEFLATE'', 1), (''EROFS_COMPRESSION_LZ4HC'', 2),
     (''EROFS_COMPRESSION_LZMA'', 3)]"

definition import_modes :: "(string \<times> int) list" where
  "import_modes =
    [(''EROFS_MKFS_DATA_IMPORT_DEFAULT'', 0), (''EROFS_MKFS_DATA_IMPORT_FULLDATA'', 1),
     (''EROFS_MKFS_DATA_IMPORT_RVSP'', 2), (''EROFS_MKFS_DATA_IMPORT_SPARSE'', 3)]"

definition buffer_types :: "(string \<times> int) list" where
  "buffer_types =
    [(''DATA'', 0), (''META'', 1), (''INODE'', 2), (''DIRA'', 3), (''XATTR'', 4), (''DEVT'', 5)]"

definition fragment_sizes :: "(string \<times> int) list" where
  "fragment_sizes =
    [(''EROFS_FRAGMENT_INMEM_SZ_MAX'', 262144), (''EROFS_TOF_HASHLEN'', 16), (''FRAGMENT_HASHSIZE'', 65536)]"

definition file_modes :: "(string \<times> int) list" where
  "file_modes =
    [(''S_IFMT'', 61440), (''S_IFDIR'', 16384), (''S_IFCHR'', 8192), (''S_IFBLK'', 24576), (''S_IFREG'', 32768),
     (''S_IFIFO'', 4096), (''S_IFLNK'', 40960), (''S_IFSOCK'', 49152)]"

definition z_compression_ids :: "(string \<times> int) list" where
  "z_compression_ids =
    [(''Z_EROFS_COMPRESSION_LZ4'', 0), (''Z_EROFS_COMPRESSION_LZMA'', 1), (''Z_EROFS_COMPRESSION_DEFLATE'', 2),
     (''Z_EROFS_COMPRESSION_ZSTD'', 3), (''Z_EROFS_COMPRESSION_MAX'', 4)]"

definition table_sizes :: "(string \<times> int) list" where
  "table_sizes =
    [(''NR_HARDLINK_HASHTABLE'', 16384), (''Z_EROFS_LZMA_MAX_DICT_SIZE'', 8388608),
     (''Z_EROFS_ZSTD_MAX_DICT_SIZE'', 1048576)]"

section \<open>Lemmas\<close>

text \<open>The sizes the code takes with \<open>unsafe.Sizeof\<close> or writes down as numbers: the end of the superblock, a device
  slot, and the records that describe compression algorithms, each a 16-bit size and its struct.\<close>

lemma struct_sizes:
  "EROFS_SUPER_END = EROFS_SUPER_OFFSET + of_nat (go_sizeof SuperBlockLayout)"
  "EROFS_DEVT_SLOT_SIZE = int (go_sizeof ErofsDeviceSlot)"
  "wf_superblock sb \<Longrightarrow> go_sizeof SuperBlockLayout = length (write_superblock sb)"
proof -
  have n: "go_sizeof SuperBlockLayout = 128" "go_sizeof ErofsDeviceSlot = 128" by (simp_all add: layouts go_sizeof_def align_up_def Let_def)
  then show "EROFS_SUPER_END = EROFS_SUPER_OFFSET + of_nat (go_sizeof SuperBlockLayout)"
    "EROFS_DEVT_SLOT_SIZE = int (go_sizeof ErofsDeviceSlot)" by simp_all
  show "wf_superblock sb \<Longrightarrow> go_sizeof SuperBlockLayout = length (write_superblock sb)"
    using n length_write_superblock by simp
qed

lemma record_sizes:
  "length (lz4_cfg cfg sbi) = go_sizeof (Struct [Scalar 2, ZErofsLz4Cfgs])"
  "length (lzma_cfg d) = go_sizeof (Struct [Scalar 2, ZErofsLzmaCfgs])"
  "length (deflate_cfg d) = go_sizeof (Struct [Scalar 2, ZErofsDeflateCfgs])"
  "length (zstd_cfg d) = go_sizeof (Struct [Scalar 2, ZErofsZstdCfgs])"
proof -
  have n: "go_sizeof (Struct [Scalar 2, ZErofsLz4Cfgs]) = 16" "go_sizeof (Struct [Scalar 2, ZErofsLzmaCfgs]) = 20"
      "go_sizeof (Struct [Scalar 2, ZErofsDeflateCfgs]) = 8" "go_sizeof (Struct [Scalar 2, ZErofsZstdCfgs]) = 8"
    unfolding layouts by code_simp+
  note d = lz4_cfg_def lzma_cfg_def deflate_cfg_def zstd_cfg_def PutUint16_def PutUint32_def length_le_bytes Let_def
  show "length (lz4_cfg cfg sbi) = go_sizeof (Struct [Scalar 2, ZErofsLz4Cfgs])"
    "length (lzma_cfg d) = go_sizeof (Struct [Scalar 2, ZErofsLzmaCfgs])"
    "length (deflate_cfg d) = go_sizeof (Struct [Scalar 2, ZErofsDeflateCfgs])"
    "length (zstd_cfg d) = go_sizeof (Struct [Scalar 2, ZErofsZstdCfgs])"
    unfolding n by (simp_all add: d)
qed

text \<open>The numbers 1 to 133 but 41 and 58 are named; the names of the other theories are those of the table.\<close>

lemma error_table:
  "remdups (sort (map snd error_numbers)) = filter (\<lambda>n. n \<noteq> 41 \<and> n \<noteq> 58) [1..133]"
  by code_simp

lemma error_names:
  "map (map_of error_numbers) [''ENOENT'', ''EINTR'', ''EIO'', ''ENOMEM'', ''EBADF'', ''EFAULT'', ''EBUSY'', ''EINVAL'',
      ''ENOSPC'', ''ENOSYS'', ''EOPNOTSUPP'']
   = map Some [ENOENT, EINTR, EIO, ENOMEM, EBADF, EFAULT, EBUSY, EINVAL, ENOSPC, ENOSYS, EOPNOTSUPP]"
  by code_simp

text \<open>Constants that have two spellings agree; only the numbers of the compression algorithms of one group are not
  those of the two others.\<close>

lemma spellings_agree:
  "map (map_of common_constants) [''EROFSIVersionMask'', ''EROFSIDataLayoutMask'', ''EROFSIVersionBit'', ''EROFSIDataLayoutBit'',
      ''EROFSIAllBit'', ''EROFSIAll'', ''EROFSChunkFormatAll'', ''EROFSInodeLayoutCompact'', ''EROFSInodeLayoutExtended'']
   = map (map_of superblock_constants) [''EROFS_I_VERSION_MASK'', ''EROFS_I_DATALAYOUT_MASK'', ''EROFS_I_VERSION_BIT'',
      ''EROFS_I_DATALAYOUT_BIT'', ''EROFS_I_ALL_BIT'', ''EROFS_I_ALL'', ''EROFS_CHUNK_FORMAT_ALL'',
      ''EROFS_INODE_LAYOUT_COMPACT'', ''EROFS_INODE_LAYOUT_EXTENDED'']"
  "map (map_of z_lcluster) [''ZEROFSAdviseCompacted2B'', ''ZEROFSAdviseBigPCluster1'', ''ZEROFSAdviseBigPCluster2'',
      ''ZEROFSAdviseInlinePCluster'', ''ZEROFSAdviseInterlacedPCluster'', ''ZEROFSAdviseFragmentPCluster'']
   = map Some (map snd advice_bits)"
  "map (map_of z_lcluster) [''ZEROFSCompressionLZ4'', ''ZEROFSCompressionLZMA'', ''ZEROFSCompressionDeflate'',
      ''ZEROFSCompressionZSTD'', ''ZEROFSCompressionMax'']
   = map Some (map snd z_compression_ids)"
  "map_of compression_ids ''EROFS_COMPRESSION_LZMA'' \<noteq> map_of z_compression_ids ''Z_EROFS_COMPRESSION_LZMA''"
  by code_simp+

end
