(* ===== verification/Spec2Isabelle.thy ===== *)
theory Spec2Isabelle
  imports Instances Formats
begin

text \<open>
  ErgoFS: a verification library for an EROFS image builder written in Go.

  \<^bold>\<open>The program.\<close>  \<open>cmd/mkfs/main.go\<close> is the driver: it sets defaults, opens the image, reserves the superblock in
  the buffer manager, draws a UUID, loads compression hints, initialises the compressors, flushes the buffers,
  writes the superblock, resizes the image and seals it with a checksum.  \<open>pkg/types\<close> holds the buffer manager
  (blocks of the image and the heads inside them), the intrusive lists everything is linked with, the superblock
  in its in-memory, on-disk and serialised forms, device I/O, identifiers, the configuration, and the inodes:
  filling them from a file's status, the table they are found in, their data, and the packed file that collects
  fragments with an index to find duplicates.  \<open>pkg/compression\<close> selects algorithms and adapts LZ4; \<open>pkg/util\<close>
  opens devices and writes through paths.  The driver does not call the inode code yet; that code calls the
  buffer manager (\<open>Balloc\<close>, \<open>MapBh\<close>, \<open>BhTell\<close>), device I/O (\<open>ErofsIoRead\<close>, \<open>ErofsIoPwrite\<close>) and the lists.

  \<^bold>\<open>How Go is modelled.\<close>  Theory \<open>Prelude\<close>: a computation is \<open>Ret v\<close>, \<open>Panic why\<close> (nil dereference, index or
  slice out of range, failed type assertion, division by zero, an explicit \<open>panic\<close>) or \<open>NoFuel\<close>; errors that
  the code returns are values.  Machine integers are words of their width; signed ones are words read with
  \<open>sint\<close> where they wrap, and \<open>int\<close> where the code cannot make them wrap.  Structs are records (\<open>sb_\<close>, \<open>si_\<close>,
  \<open>bb_\<close>, \<open>in_\<close> \<dots> prefix their fields), objects with identity are numbers into a store, a \<open>ListHead\<close> is a node
  of a store of links.  A file (theory \<open>Device\<close>) is its bytes and a script of what the kernel answers to
  successive calls, so short transfers, interruptions and errors are inputs.  Loops that depend on the kernel or
  on the shape of a list take fuel; more fuel never changes an answer, every functional theorem states how much
  is enough (the length of a list, the number of blocks, the length of a script, one unit per 32 KiB copied)
  and theorems about loops that never end state \<open>NoFuel\<close> for every fuel.

  \<^bold>\<open>Theories and the code they model.\<close>
  \<^item> \<open>Prelude\<close>, \<open>Constants\<close>: the vocabulary above; \<open>pkg/types/constants.go\<close>, \<open>pkg/errors/error.go\<close>.
  \<^item> \<open>Formats\<close>: the constant groups of these files as tables, and the layouts of the structs whose sizes the code takes.
  \<^item> \<open>Links\<close>: \<open>pkg/types/list.go\<close>, insertion, removal, splicing and the iterators over \<open>ListHead\<close>; \<open>dll\<close> abstracts
    a head to the list of its members, and the locale \<open>intrusive_lists\<close> states what clients rely on.
    \<open>Reflect\<close>: \<open>ContainerOf\<close> and the reflective \<open>ListForEachEntry\<close> family of the same file.
  \<^item> \<open>Codec\<close>: little-endian fields, \<open>Le32ToCpu\<close> and the two CRC implementations (\<open>utils.go\<close>, \<open>helper.go\<close>); locale
    \<open>byte_codec\<close>, interpreted for 16, 32 and 64 bits.
  \<^item> \<open>SbInfo\<close>, \<open>NewSb\<close>: \<open>SuperBlkInfo\<close>, block arithmetic, feature flags (\<open>superblkinfo.go\<close>, \<open>utils.go\<close>, \<open>macros.go\<close>);
    locale \<open>feature_flag\<close>, interpreted for every flag.
    \<open>Superblock\<close>: both structs, \<open>ToDisk\<close>, \<open>FromDisk\<close>, checksum methods, \<open>WriteSuperblock\<close> (\<open>superblock.go\<close>).
  \<^item> \<open>Device\<close>: \<open>pkg/types/io.go\<close> and \<open>file.go\<close>, locale \<open>block_store\<close>.  \<open>Diskbuf\<close>: \<open>pkg/util/diskbuf.go\<close>.  \<open>Files\<close>: descriptors, \<open>lseek\<close>,
    \<open>ErofsTempfile\<close>, the payload view of a virtual file.
  \<^item> \<open>BufMgr\<close>: the manager (\<open>buffer.go\<close>, \<open>internal.go\<close>, the buffer part of \<open>helper.go\<close>).  \<open>BufMgrInv\<close> states its
    invariant, \<open>BufMgrOps\<close> what each operation does under it, \<open>BufMgrFaults\<close> the search for a block to share, which
    panics or walks for ever, \<open>BufMgrRun\<close> the manager as a state machine (\<open>bm_step\<close>, \<open>bm_reach\<close>) over all its calls;
    what \<open>ReserveSuperblock\<close> leaves is one of its states.  Allocations that would search are not among the steps, for
    they never return; \<open>ErofsBfree\<close> is a step for blocks without heads and \<open>ErofsBflush\<close> for the manager of a
    run, which holds the superblock alone; calls on the heads of a block whose ring \<open>BhBalloon\<close> has damaged, and the
    revocation of a last extent, are outside the callers' limits.
  \<^item> \<open>SbWrite\<close>: \<open>WriteSuperBlock\<close>, \<open>ErofsEnableSbChksum\<close> and the end of \<open>main\<close>.
  \<^item> \<open>Uuid\<close>: \<open>uuid.go\<close>.  \<open>Config\<close>: \<open>config.go\<close>.  \<open>Compress\<close>: \<open>compress.go\<close> and \<open>lz4.go\<close>.  \<open>Hints\<close>: the hints file.
    \<open>Mkfs\<close>: the whole of \<open>main\<close>; \<open>MkfsSpec\<close>: its abstract specification \<open>mkfs_verdict\<close> and the refinement.
  \<^item> \<open>Inode\<close>: the inode, \<open>erofsFillInode\<close>, the choice of the on-disk form, device numbers (\<open>inode.go\<close>, \<open>inode1.go\<close>).
    \<open>InodeTable\<close>: \<open>inodeHashtable\<close>, \<open>ErofsFillInode\<close>, \<open>ErofsInsertIhash\<close>, \<open>ErofsIput\<close>, \<open>ErofsLookupNid\<close>, \<open>close.go\<close>;
    locale \<open>bucket_table\<close> states what a hash table promises and is interpreted on these operations.
    \<open>FileData\<close>: \<open>ErofsIoXcopy\<close>, \<open>ErofsAllocateInodeBhData\<close>, \<open>WriteUncompressedFileFromFd\<close>.
  \<^item> \<open>Fragments\<close>, \<open>FragMatch\<close>: \<open>InitPackedFile\<close>, \<open>ZErofsPackFileFromFd\<close> and \<open>dedupe.go\<close>.
    \<open>SpecialFile\<close>: \<open>ErofsFlushPackedInode\<close>, \<open>ErofsMkfsBuildSpecialFromFd\<close>, \<open>ErofsBeginCompressedFile\<close>,
    \<open>zErodsApplyCompressHints\<close> (\<open>compressHints.go\<close>).
  \<^item> \<open>Instances\<close>: concrete machines, files, managers and inodes for the witnesses.

  \<^bold>\<open>What is shown.\<close>  Below, each property follows its statement in words: a run of \<open>mkfs\<close> leaves a sealed,
  readable superblock, and the runs that do not; the layout of the image is invariant over every reachable
  manager and every call within the limits returns; lists, tables and hints refine their abstract lists; bytes
  survive the round trips through structs, files and the image; inodes are well formed; and where the code does
  not do what it means to, the theorem says what it does: searches that panic or never return, writes that skip data, the
  size of regular files that is lost, iterators that panic, fragments that are never found.

  \<^bold>\<open>Parameters.\<close>  Code outside the repository is an argument: the LZ4 stream compressor (with the calls it makes on its writer), the validity and matching
  of regular expressions, \<open>getrandom\<close> and the random reader, \<open>unix.Major\<close> and \<open>unix.Minor\<close>,
  \<open>copy_file_range\<close> and \<open>sendfile\<close> (how much they copy), \<open>Fstat\<close> and the other answers of the kernel, the clock,
  the page size and the byte order.  \<open>ErofsWriteCompressedFile\<close>, \<open>ErofsPrepareInodeBuffer\<close> and \<open>ErofsWriteTailEnd\<close>
  are called but defined nowhere in the repository; they are arguments too.

  \<^bold>\<open>Bounds.\<close>  Theorems about block arithmetic assume at most 12 block bits (\<open>small_blocks\<close>), the largest block the
  code allows, byte positions below \<open>2 ^ 63\<close> (\<open>off_t\<close>), and offsets inside one extent below \<open>2 ^ 44\<close>, so that
  32-bit block addresses suffice.

  \<^bold>\<open>Not modelled.\<close>  Printing (\<open>debug.go\<close>, the progress and error messages); \<open>pkg/writer\<close>, whose code is all
  commented out, as are the bodies of \<open>ErofsReadInodeFromDisk\<close> and \<open>ErofsDroidBlocklistWrite\<close>; the multi-threaded
  branch of \<open>ErofsBeginCompressedFile\<close>, which a local constant switches off; flag parsing, which is the \<open>flag\<close>
  package's.  At this commit the repository does not compile (\<open>pkg/types\<close> and \<open>pkg/compression\<close> import each other,
  and three calls do not type-check); the model gives these places the meaning they have once the types are adjusted.
\<close>

section \<open>A run of mkfs\<close>

text \<open>C1: A whole run with default options, on a machine whose pages are a power of two of at least 2048
  bytes, whose kernel delivers random bytes after some interruptions and transfers what it is asked to:
  \<open>main\<close> opens the image, reserves the superblock, and ends with code 0 and a checksum.  The first block
  (of the page size, at most 4096 bytes) is then a blank boot area, the superblock and the old bytes
  behind it; reading it back gives the superblock with the magic number, that block size, one block,
  the kernel's bytes stamped as a version-4 UUID, the LZ4 distance, and the CRC-32C of all that follows
  the boot area; a regular file is exactly one block long.\<close>

theorem mkfs_run_seals:
  assumes "2 \<le> length args" "mc_page_size mc = 2 ^ k" "11 \<le> k" "os_open (mc_os mc) = None" "2 < fuel"
    and "delivers (mc_entropy mc) GRND_INSECURE n (mc_world mc) random w'" "length random = 16" "n < fuel"
    and "f_rest (run_file mc (default_flags args)) = Full" "f_script (run_file mc (default_flags args)) = []"
    and "length (f_data (run_file mc (default_flags args))) < 2 ^ 63"
  defines "B \<equiv> 2 ^ min k 12"
  defines "rest \<equiv> old_rest mc (default_flags args) B"
  shows "\<exists>f sb. mkfs_main fuel mc (default_flags args) = Ret (Finished 0 (Some (sb_Checksum sb)), Some f)
     \<and> padded (f_data f) 0 B = replicate 1024 0 @ write_superblock sb @ rest
     \<and> FromDisk (read_disk (padded (f_data f) 1024 128)) = sb
     \<and> sb_Magic sb = EROFS_SUPER_MAGIC_V1 \<and> unat (sb_BlkSzBits sb) = min k 12 \<and> sb_Blocks sb = 1
     \<and> sb_UUID sb = stamp random \<and> uuid_v4 (sb_UUID sb) \<and> sb_CompressInfo sb = 65535
     \<and> sb_Checksum sb = Crc32c (NOT 0) (write_superblock (sb\<lparr>sb_Checksum := 0\<rparr>) @ rest)
     \<and> (\<not> f_isblk (run_file mc (default_flags args)) \<longrightarrow> length (f_data f) = B)"
proof -
  let ?s = "\<lparr>erofsGrndFlag = GRND_INSECURE, world = mc_world mc\<rparr>"
  have uuid: "UUIDGenerate fuel (mc_entropy mc) (replicate 16 0) ?s = Ret (None, stamp random, ?s\<lparr>world := w'\<rparr>)"
    using UUIDGenerate_delivers [of "mc_entropy mc" ?s n random w' "replicate 16 0" fuel] assms(6-8) by simp
  have l: "length (stamp random) = 16" "uuid_v4 (stamp random)" using assms(7) by (simp_all add: stamp_v4)
  let ?sb = "mkfs_superblock (mc_page_size mc) (stamp random) rest"
  obtain f where "mkfs_main fuel mc (default_flags args) = Ret (Finished 0 (Some (sb_Checksum ?sb)), Some f)"
      "padded (f_data f) 0 B = replicate 1024 0 @ write_superblock ?sb @ rest"
      "FromDisk (read_disk (padded (f_data f) 1024 128)) = ?sb"
      "\<not> f_isblk (run_file mc (default_flags args)) \<longrightarrow> length (f_data f) = B"
    using mkfs_main_sealed [OF _ _ _ _ assms(2,3,4,5) uuid assms(9-11), folded B_def, folded rest_def] assms(1) by auto
  with mkfs_superblock_fields [OF assms(2) l(1), of rest] l(2) show ?thesis
    by (intro exI [of _ f] exI [of _ ?sb] conjI) simp_all
qed

theorem mkfs_run_seals_witness:
  "\<exists>f (sb :: superblock). mkfs_main 10 (plain_machine new_kernel [] '''') (default_flags [''out.img'', ''src'']) = Ret (Finished 0 (Some (sb_Checksum sb)), Some f)
     \<and> length (f_data f) = 4096 \<and> sb_UUID sb = stamp (replicate 16 0xAB)"
proof -
  let ?mc = "plain_machine new_kernel [] ''''" and ?fl = "default_flags [''out.img'', ''src'']"
  have "2 \<le> length [''out.img'', ''src'']" "mc_page_size ?mc = 2 ^ 12" "11 \<le> (12 :: nat)"
      "os_open (mc_os ?mc) = None" "2 < (10 :: nat)"
      "delivers (mc_entropy ?mc) GRND_INSECURE 0 (mc_world ?mc) (replicate 16 0xAB) ()"
      "length (replicate 16 0xAB :: bytes) = 16" "0 < (10 :: nat)"
      "f_rest (run_file ?mc ?fl) = Full" "f_script (run_file ?mc ?fl) = []" "length (f_data (run_file ?mc ?fl)) < 2 ^ 63"
    using new_kernel_delivers by simp_all
  from mkfs_run_seals [OF this]
  obtain f and sb :: superblock where "mkfs_main 10 ?mc ?fl = Ret (Finished 0 (Some (sb_Checksum sb)), Some f)"
      "sb_UUID sb = stamp (replicate 16 0xAB)" "\<not> f_isblk (run_file ?mc ?fl) \<longrightarrow> length (f_data f) = 2 ^ min 12 12"
    by blast
  then show ?thesis by (intro exI conjI) (assumption, simp, assumption)
qed

text \<open>C2: A whole run refines a specification that decides from the command line, the hints file and the identifier: with
  the image opened, the run panics, stops and leaves the image as it was, or seals it with one given superblock,
  as \<open>mkfs_verdict\<close> says.  The first line of the hints file that is not skipped ends the run, and a hint with a
  valid pattern ends it in a panic; an algorithm other than \<open>lz4\<close>, a level from 0 on, or a cluster size above the
  block size ends it with \<open>-EINVAL\<close>; an empty algorithm seals an image without the LZ4 padding flag.\<close>

theorem mkfs_implements_verdict:
  assumes "2 \<le> length (fl_args fl)" "mc_page_size mc = 2 ^ k" "11 \<le> k" "os_open (mc_os mc) = None" "2 < fuel"
    and "UUIDGenerate fuel (mc_entropy mc) (replicate 16 0) \<lparr>erofsGrndFlag = GRND_INSECURE, world = mc_world mc\<rparr>
      = Ret (err, uuid, s')"
    and "f_rest (run_file mc fl) = Full" "f_script (run_file mc fl) = []" "length (f_data (run_file mc fl)) < 2 ^ 63"
  defines "B \<equiv> 2 ^ min k 12"
  shows "case mkfs_verdict mc fl uuid of
       Dies p \<Rightarrow> mkfs_main fuel mc fl = Panic p
     | Refused out \<Rightarrow> mkfs_main fuel mc fl = Ret (out, Some (run_file mc fl))
     | Sealed sb \<Rightarrow> (\<exists>f. mkfs_main fuel mc fl = Ret (Finished 0 (Some (sb_Checksum sb)), Some f)
         \<and> padded (f_data f) 0 B = replicate 1024 0 @ write_superblock sb @ old_rest mc fl B
         \<and> FromDisk (read_disk (padded (f_data f) 1024 128)) = sb
         \<and> (\<not> f_isblk (run_file mc fl) \<longrightarrow> length (f_data f) = B))"
  unfolding B_def by (rule mkfs_main_verdict [OF assms(1-9)])

theorem mkfs_implements_verdict_witness:
  "mkfs_main 10 (plain_machine new_kernel [1, 2, 3] ''x'') ((default_flags [''out.img'', ''src''])\<lparr>fl_C := ''h''\<rparr>)
     = Ret (HintsFailed (- EINVAL), Some (plain_file [1, 2, 3] []))
   \<and> (\<exists>f sb. mkfs_main 10 (plain_machine new_kernel [1, 2, 3] '''') ((default_flags [''out.img'', ''src''])\<lparr>fl_c := ''''\<rparr>)
     = Ret (Finished 0 (Some (sb_Checksum sb)), Some f) \<and> FromDisk (read_disk (padded (f_data f) 1024 128)) = sb
     \<and> sb_FeatureIncompat sb = 0)"
proof
  show "mkfs_main 10 (plain_machine new_kernel [1, 2, 3] ''x'') ((default_flags [''out.img'', ''src''])\<lparr>fl_C := ''h''\<rparr>)
      = Ret (HintsFailed (- EINVAL), Some (plain_file [1, 2, 3] []))"
    using mkfs_implements_verdict [of "(default_flags [''out.img'', ''src''])\<lparr>fl_C := ''h''\<rparr>"
        "plain_machine new_kernel [1, 2, 3] ''x''" 12, OF _ _ _ _ _ plain_uuid]
    by (simp add: short_line_verdict)
next
  let ?fl = "(default_flags [''out.img'', ''src''])\<lparr>fl_c := ''''\<rparr>" and ?mc = "plain_machine new_kernel [1, 2, 3] ''''"
  obtain sb where sb: "mkfs_verdict ?mc ?fl (stamp (replicate 16 0xAB)) = Sealed sb" "sb_FeatureIncompat sb = 0"
    using no_algorithm_verdict by blast
  then show "\<exists>f sb. mkfs_main 10 ?mc ?fl = Ret (Finished 0 (Some (sb_Checksum sb)), Some f)
      \<and> FromDisk (read_disk (padded (f_data f) 1024 128)) = sb \<and> sb_FeatureIncompat sb = 0"
    using mkfs_implements_verdict [of ?fl ?mc 12, OF _ _ _ _ _ plain_uuid] by auto
qed

text \<open>C3: On a kernel that does not know \<open>GRND_INSECURE\<close> the run still ends with code 0 and a sealed image, and the
  image's UUID is all zero: the retry after \<open>EINVAL\<close> uses the old flags, so the first identifier of a
  process fails, and \<open>main\<close> does not look at the error.\<close>

theorem mkfs_old_kernel_zero_uuid:
  assumes "2 \<le> length args" "mc_page_size mc = 2 ^ k" "11 \<le> k" "os_open (mc_os mc) = None" "2 < fuel"
    and "\<And>w. Getrandom (mc_entropy mc) w 16 GRND_INSECURE = (([], -1, Some EINVAL), step w)"
    and "f_rest (run_file mc (default_flags args)) = Full" "f_script (run_file mc (default_flags args)) = []"
    and "length (f_data (run_file mc (default_flags args))) < 2 ^ 63"
  shows "\<exists>f sb. mkfs_main fuel mc (default_flags args) = Ret (Finished 0 (Some (sb_Checksum sb)), Some f)
     \<and> FromDisk (read_disk (padded (f_data f) 1024 128)) = sb
     \<and> sb_UUID sb = replicate 16 0 \<and> \<not> uuid_v4 (sb_UUID sb)"
proof -
  obtain j where j: "fuel = Suc (Suc j)" using assms(5) by (metis add_2_eq_Suc le_Suc_ex less_imp_le)
  let ?s = "\<lparr>erofsGrndFlag = GRND_INSECURE, world = mc_world mc\<rparr>"
  obtain s' where uuid: "UUIDGenerate fuel (mc_entropy mc) (replicate 16 0) ?s = Ret (Some (Errno EINVAL), replicate 16 0, s')"
    using UUIDGenerate_old_kernel [of ?s "mc_entropy mc" step "replicate 16 0" j] assms(6) j by auto
  have "\<not> uuid_v4 (replicate 16 0)" by (simp add: uuid_v4_def)
  then show ?thesis
    using mkfs_main_sealed [OF _ _ _ _ assms(2,3,4,5) uuid assms(7-9)] assms(1)
      mkfs_superblock_fields(3) [OF assms(2), of "replicate 16 0"]
    by auto
qed

theorem mkfs_old_kernel_zero_uuid_witness:
  "\<exists>f (sb :: superblock). mkfs_main 10 (plain_machine old_kernel [] '''') (default_flags [''out.img'', ''src'']) = Ret (Finished 0 (Some (sb_Checksum sb)), Some f)
     \<and> sb_UUID sb = replicate 16 0"
proof -
  let ?mc = "plain_machine old_kernel [] ''''" and ?fl = "default_flags [''out.img'', ''src'']"
  have "2 \<le> length [''out.img'', ''src'']" "mc_page_size ?mc = 2 ^ 12" "11 \<le> (12 :: nat)"
      "os_open (mc_os ?mc) = None" "2 < (10 :: nat)"
      "\<And>w. Getrandom (mc_entropy ?mc) w 16 GRND_INSECURE = (([], -1, Some EINVAL), w)"
      "f_rest (run_file ?mc ?fl) = Full" "f_script (run_file ?mc ?fl) = []" "length (f_data (run_file ?mc ?fl)) < 2 ^ 63"
    by (simp_all add: old_kernel_refuses [simplified])
  from mkfs_old_kernel_zero_uuid [OF this]
  obtain f and sb :: superblock where "mkfs_main 10 ?mc ?fl = Ret (Finished 0 (Some (sb_Checksum sb)), Some f)"
      "sb_UUID sb = replicate 16 0"
    by blast
  then show ?thesis by (intro exI conjI)
qed

text \<open>Any named algorithm but \<open>lz4\<close>, and \<open>lz4\<close> with any level from 0 on, ends the run at the compressor with
  \<open>-EINVAL\<close>, and the image file is what it was: nothing has been written.\<close>

theorem mkfs_refuses_other_algorithms:
  assumes "2 \<le> length args" "alg \<noteq> ''''" "alg \<noteq> ''lz4'' \<or> 0 \<le> level"
    and "mc_page_size mc = 2 ^ k" "os_open (mc_os mc) = None" "2 < fuel"
    and "delivers (mc_entropy mc) GRND_INSECURE n (mc_world mc) random w'" "length random = 16" "n < fuel"
  defines "fl \<equiv> (default_flags args)\<lparr>fl_c := alg, fl_l := level\<rparr>"
  shows "mkfs_main fuel mc fl = Ret (CompressFailed (- EINVAL), Some (run_file mc fl))"
proof -
  let ?s = "\<lparr>erofsGrndFlag = GRND_INSECURE, world = mc_world mc\<rparr>"
  have uuid: "UUIDGenerate fuel (mc_entropy mc) (replicate 16 0) ?s = Ret (None, stamp random, ?s\<lparr>world := w'\<rparr>)"
    using UUIDGenerate_delivers [of "mc_entropy mc" ?s n random w' "replicate 16 0" fuel] assms(7-9) by simp
  show ?thesis
    using mkfs_main_bad_option [OF _ _ _ _ assms(4-6) uuid, of fl] assms(1-3) by (simp add: fl_def)
qed

theorem mkfs_refuses_other_algorithms_witness:
  "mkfs_main 10 (plain_machine new_kernel [1, 2, 3] '''') ((default_flags [''out.img'', ''src''])\<lparr>fl_c := ''zstd'', fl_l := 3\<rparr>)
     = Ret (CompressFailed (- EINVAL), Some (plain_file [1, 2, 3] []))"
  using mkfs_refuses_other_algorithms [of "[''out.img'', ''src'']" "''zstd''" 3 "plain_machine new_kernel [1, 2, 3] ''''" 12 10 0
      "replicate 16 0xAB" "()"] new_kernel_delivers by simp

text \<open>A run with a hints file panics at the first line that is a hint with a valid pattern, whatever the
  lines before it that are skipped: the list the hint is to be added to was never initialised, so its
  \<open>nil\<close> predecessor is dereferenced.\<close>

theorem mkfs_hint_panics:
  assumes "2 \<le> length (fl_args fl)" "fl_C fl \<noteq> ''''" "mc_text mc (fl_C fl) = Some contents"
    and "mc_page_size mc = 2 ^ k" "os_open (mc_os mc) = None" "2 < fuel"
    and "UUIDGenerate fuel (mc_entropy mc) (replicate 16 0) \<lparr>erofsGrndFlag = GRND_INSECURE, world = mc_world mc\<rparr>
      = Ret (err, uuid, s')"
    and "scan_lines contents = ls @ l # rest"
      "\<forall>l\<in>set ls. parse_hint (run_config mc fl) (run_sbinfo (mc_page_size mc) uuid) l = Skip"
      "parse_hint (run_config mc fl) (run_sbinfo (mc_page_size mc) uuid) l = Hint pcs pat ccfg" "mc_regexp_ok mc pat"
  shows "mkfs_main fuel mc fl = Panic NilDeref"
  by (rule mkfs_main_hint_panics [OF assms])

theorem mkfs_hint_panics_witness:
  "mkfs_main 10 (plain_machine new_kernel [] (''# hints'' @ [char_of (10::nat)] @ ''8192 .*''))
     ((default_flags [''out.img'', ''src''])\<lparr>fl_C := ''h''\<rparr>) = Panic NilDeref"
proof -
  let ?t = "''# hints'' @ [char_of (10::nat)] @ ''8192 .*''"
  let ?mc = "plain_machine new_kernel [] ?t" and ?fl = "(default_flags [''out.img'', ''src''])\<lparr>fl_C := ''h''\<rparr>"
  let ?u = "stamp (replicate 16 0xAB)"
  note uuid = plain_uuid [of "[]" ?t]
  have lines: "scan_lines ?t = [''# hints''] @ ''8192 .*'' # []" by (simp add: scan_lines_def drop_cr_def)
  have b: "ErofsBlkSiz (run_sbinfo (2 ^ 12) ?u) = 4096"
    using run_sbinfo_simps(1) [of "2 ^ 12" 12 ?u] by (simp add: ErofsBlkSiz_def)
  have f: "Fields ''8192 .*'' = [''8192'', ''.*'']" "Atoi ''8192'' = Some 8192" by code_simp+
  have skip: "\<forall>l\<in>set [''# hints'']. parse_hint (run_config ?mc ?fl) (run_sbinfo (mc_page_size ?mc) ?u) l = Skip"
    by (simp add: parse_hint_def)
  have h: "parse_hint (run_config ?mc ?fl) (run_sbinfo (mc_page_size ?mc) ?u) ''8192 .*'' = Hint 8192 ''.*'' 0"
    using b f by (simp add: parse_hint_def hint_cfg_def Let_def)
  show ?thesis by (rule mkfs_hint_panics [where k = 12, OF _ _ _ _ _ _ uuid lines skip h]) simp_all
qed

section \<open>The image\<close>

text \<open>C4: The end of a run that reserved the superblock and stored nothing else, with blocks of 2048 or
  4096 bytes and a device that transfers everything: \<open>ErofsBflush\<close>, \<open>WriteSuperBlock\<close>, \<open>ErofsDevResize\<close>
  and \<open>ErofsEnableSbChksum\<close> succeed; the first block is then a blank boot area, the superblock sealed
  with the flag and the CRC-32C of everything behind the boot area, and the bytes that were there
  before; reading the superblock back gives the sealed one; a regular file is one block long.\<close>

theorem image_sealed:
  assumes "sb_reserved sbi s" "sb_in_block0 sbi" "ErofsSbHasSbChksum sbi"
    and "dev_ready w" "dev_script w = []" "length (dev_data w) < 2 ^ 63" "0 < fuel"
  defines "B \<equiv> 2 ^ unat (si_BlkSzBits sbi)"
  defines "rest \<equiv> padded (dev_data w) 1152 (B - 1152)"
  defines "sb \<equiv> sealed (buffer_superblock sbi 1) rest"
  shows "\<exists>s' w'. finish_image fuel e sbi (Some 0) s w = Ret ((0, Some (sb_Checksum sb)), s', w')
     \<and> padded (dev_data w') 0 B = replicate 1024 0 @ write_superblock sb @ rest
     \<and> FromDisk (read_disk (padded (dev_data w') 1024 128)) = sb
     \<and> sb_Checksum sb = Crc32c (NOT 0) (write_superblock (sb\<lparr>sb_Checksum := 0\<rparr>) @ rest)
     \<and> (\<not> dev_isblk w \<longrightarrow> length (dev_data w') = B)"
  unfolding rest_def sb_def B_def by (rule finish_image_read_back [OF assms(1-7)])

theorem image_sealed_witness:
  "\<exists>s s' w' crc. sb_reserved sbi4k s
     \<and> finish_image 3 LittleEndian sbi4k (Some 0) s (plain_io [] []) = Ret ((0, Some crc), s', w')
     \<and> length (dev_data w') = 4096"
proof -
  obtain s where s: "sb_reserved sbi4k s" using reserved_superblock by blast
  show ?thesis
    using image_sealed [OF s, of "plain_io [] []" 3 LittleEndian] s plain_io_ready [of "[]" "[]"] by auto
qed

text \<open>C5: With blocks of at most 1024 bytes the superblock is not in block 0, the only block that
  \<open>ErofsEnableSbChksum\<close> writes back: it reports success and a checksum, and no byte of the image changes,
  so the image carries neither the checksum nor its feature flag.\<close>

theorem small_block_checksum_lost:
  assumes "dev_ready w" "unat (si_BlkSzBits sbi) \<le> 10" "wf_superblock sb" "sb_Magic sb = EROFS_SUPER_MAGIC_V1"
    and "padded (dev_data w) 1024 128 = write_superblock sb"
  shows "\<exists>w' crc. ErofsEnableSbChksum e sbi w = Ret ((0, Some crc), w')
     \<and> byte_at (dev_data w') = byte_at (dev_data w)"
  using ErofsEnableSbChksum_lost [OF assms, of e] by blast

theorem small_block_checksum_lost_witness:
  "\<exists>w' crc. ErofsEnableSbChksum BigEndian zero_sbinfo (plain_io (sb_image (buffer_superblock zero_sbinfo 5)) [])
       = Ret ((0, Some crc), w')"
proof -
  let ?sb = "buffer_superblock zero_sbinfo 5" and ?w = "plain_io (sb_image (buffer_superblock zero_sbinfo 5)) []"
  have "padded (dev_data ?w) 1024 128 = write_superblock ?sb"
    by (rule padded_sb_image(2) [of _ _ "[]"]) (simp_all add: write_at_def length_sb_image)
  then show ?thesis
    using small_block_checksum_lost [of ?w zero_sbinfo ?sb BigEndian] plain_io_ready [of "[]"]
    by auto
qed

text \<open>An image whose block 0 carries no EROFS magic number is refused with \<open>-EFAULT\<close>, and nothing is
  written.\<close>

theorem checksum_needs_magic:
  assumes "dev_ready w" "sb_in_block0 sbi" "Uint32 (padded (dev_data w) 1024 4) \<noteq> EROFS_SUPER_MAGIC_V1"
  shows "\<exists>w'. ErofsEnableSbChksum e sbi w = Ret ((- EFAULT, None), w') \<and> dev_data w' = dev_data w"
  using ErofsEnableSbChksum_bad_magic [OF assms, of e] by blast

theorem checksum_needs_magic_witness:
  "\<exists>w'. ErofsEnableSbChksum LittleEndian sbi4k (plain_io [] []) = Ret ((- EFAULT, None), w') \<and> dev_data w' = []"
proof -
  have "Uint32 (padded (dev_data (plain_io [] [])) 1024 4) = 0"
    by (simp add: padded_def byte_at_def Uint32_def le_word_def upt_rec_numeral)
  then show ?thesis
    using checksum_needs_magic [of "plain_io [] []" sbi4k LittleEndian] plain_io_ready [of "[]"] by simp
qed

section \<open>Superblock\<close>

text \<open>C6: A superblock survives its on-disk form: reading the 128 bytes that \<open>WriteSuperBlock\<close> serialises,
  wherever they are followed by other bytes, and converting them back yields the superblock; and every
  128-byte string is the serialisation of what is read from it.\<close>

theorem superblock_round_trip:
  assumes "wf_superblock sb" and "length bs = 128"
  shows "length (write_disk (ToDisk sb)) = 128 \<and>
     FromDisk (read_disk (write_disk (ToDisk sb) @ rest)) = sb \<and>
     write_disk (ToDisk (FromDisk (read_disk bs))) = bs"
  using assms
  by (simp add: length_write_disk read_write_disk FromDisk_ToDisk write_read_disk wf_read_disk ToDisk_FromDisk)

theorem superblock_round_trip_witness:
  "FromDisk (read_disk (write_disk (ToDisk (method_superblock zero_sbinfo)) @ [])) = method_superblock zero_sbinfo \<and>
   write_disk (ToDisk (FromDisk (read_disk (replicate 128 7)))) = replicate 128 7"
  using superblock_round_trip [of "method_superblock zero_sbinfo" "replicate 128 7" "[]"] by simp

section \<open>Buffer manager\<close>

text \<open>On a new manager \<open>ReserveSuperblock\<close> succeeds and pins the superblock at the start of the image:
  one metadata block at address 0 with 1152 bytes in use, whose only head carries the skip-write
  operations; the next free address is the number of blocks those bytes take.\<close>

theorem superblock_reserved:
  assumes "small_blocks sbi" "ErofsBufferInit 0 = Ret s" "2 < fuel"
  shows "\<exists>s'. ReserveSuperblock fuel sbi s = Ret (Inr 0, s') \<and> bm_inv sbi 0 s' [1] []
     \<and> bm_blocks s' 1 = \<lparr>bb_BlkAddr = 0, bb_Type = META, bb_Off = 1152, bb_FsPrivate = True\<rparr>
     \<and> bm_heads s' 0 = \<lparr>bh_Block = Some 1, bh_Off = 0, bh_Op = Some SkipWriteOps\<rparr>
     \<and> BhTell sbi 0 False s' = Ret 0
     \<and> unat (TailBlkAddr s') = (1152 + (2 ^ unat (si_BlkSzBits sbi) - 1)) div 2 ^ unat (si_BlkSzBits sbi)"
  using ReserveSuperblock_fresh [OF assms] BhTell_sb_reserved
  by (auto simp: sb_reserved_def sb_blocks_def)

theorem superblock_reserved_witness:
  "\<exists>s s'. ErofsBufferInit 0 = Ret s \<and> ReserveSuperblock 3 sbi4k s = Ret (Inr 0, s') \<and> unat (TailBlkAddr s') = 1"
proof -
  obtain s where "ErofsBufferInit 0 = Ret s" using new_manager by blast
  with superblock_reserved [of sbi4k s 3] show ?thesis by auto
qed

text \<open>C7: The buffer manager as a state machine: from a fresh manager, in every state that calls of \<open>Balloc\<close>, \<open>Battach\<close>,
  \<open>BhBalloon\<close>, \<open>MapBh\<close>, \<open>BDrop\<close>, \<open>ErofsBfree\<close> and \<open>ErofsBflush\<close> within the callers' limits can reach, the blocks
  that have an address lie between the first block and the tail and no two of them overlap; and every further
  such call leaves the address of each of them as it is.  The manager that \<open>ReserveSuperblock\<close> leaves is one of
  these states.\<close>

theorem reachable_layout:
  assumes "small_blocks sbi" "bm_reach fuel sbi start s"
    and "0 < b" "b < bm_next_bb s" "bb_BlkAddr (bm_blocks s b) \<noteq> NULL_ADDR"
  shows "unat start \<le> unat (bb_BlkAddr (bm_blocks s b))
     \<and> unat (bb_BlkAddr (bm_blocks s b)) + nblks sbi (bm_blocks s b) \<le> unat (TailBlkAddr s)
     \<and> (0 < c \<and> c < bm_next_bb s \<and> bb_BlkAddr (bm_blocks s c) \<noteq> NULL_ADDR \<and> b \<noteq> c \<longrightarrow>
          unat (bb_BlkAddr (bm_blocks s b)) + nblks sbi (bm_blocks s b) \<le> unat (bb_BlkAddr (bm_blocks s c))
        \<or> unat (bb_BlkAddr (bm_blocks s c)) + nblks sbi (bm_blocks s c) \<le> unat (bb_BlkAddr (bm_blocks s b)))
     \<and> (bm_step fuel sbi s s' \<longrightarrow> bb_BlkAddr (bm_blocks s' b) = bb_BlkAddr (bm_blocks s b))"
  using placed_disjoint [OF bm_reach_good [OF assms(1,2)] assms(3-5)]
    bm_step_good [where s' = s', OF _ bm_reach_good [OF assms(1,2)]] assms(4,5)
  by (auto simp: placed_stay_def)

theorem reachable_layout_witness:
  "\<exists>s. sb_reserved sbi4k s \<and> bm_reach 10 sbi4k 0 s
     \<and> unat (bb_BlkAddr (bm_blocks s 1)) + nblks sbi4k (bm_blocks s 1) \<le> unat (TailBlkAddr s)"
proof -
  obtain s where s: "bm_reach 10 sbi4k 0 s" "sb_reserved sbi4k s" "bm_next_bb s = 2" using reached_reserved by blast
  then have "bb_BlkAddr (bm_blocks s 1) = 0" by (simp add: sb_reserved_def)
  with reachable_layout [OF _ s(1), of 1] s show ?thesis by (auto simp del: One_nat_def)
qed

text \<open>C8: In every reachable state each call within the limits returns: no allocation, attachment, balloon, mapping or drop
  panics, reads a foreign address or walks a list for ever, once the fuel exceeds the number of blocks.\<close>

theorem reachable_calls_return:
  assumes "small_blocks sbi" "bm_reach fuel sbi start s" "bm_next_bb s < fuel"
  shows "(no_search sbi ty sz req inl \<longrightarrow> returns (Balloc fuel sbi ty sz req inl s))
     \<and> (live s b i \<and> attach_room sbi s b (ucast n) (of_int (fst (GetAlignSize sbi ty))) \<longrightarrow> returns (Battach sbi i ty n s))
     \<and> (live s b i \<and> attach_room sbi s b incr 1 \<longrightarrow> returns (BhBalloon sbi i incr s))
     \<and> (space_left sbi s \<longrightarrow> returns (MapBh fuel sbi True None s))
     \<and> (space_left sbi s \<and> 0 < b \<and> b < bm_next_bb s \<longrightarrow> returns (MapBh fuel sbi given (Some b) s))
     \<and> (live s b i \<and> \<not> revokes_extent sbi s b i revoke \<longrightarrow> returns (BDrop sbi i revoke s))"
  using bm_good_progress [OF bm_reach_good [OF assms(1,2)] assms(3)] by blast

theorem reachable_calls_return_witness:
  "\<exists>s. bm_reach 10 sbi4k 0 s \<and> returns (Balloc 10 sbi4k META 0 0 0 s) \<and> returns (MapBh 10 sbi4k False (Some 1) s)
     \<and> returns (BDrop sbi4k 0 False s)"
proof -
  obtain s where s: "bm_reach 10 sbi4k 0 s" "bm_next_bb s = 2" "live s 1 0" "space_left sbi4k s" using reached_placed by blast
  have r: "no_search sbi4k META 0 0 0" "\<not> revokes_extent sbi4k s 1 0 False" "bm_next_bb s < 10"
    using s(2) by (simp_all add: no_search_def GetAlignSize_def revokes_extent_def)
  note calls = reachable_calls_return [OF sbi4k_simps(2) s(1) r(3)]
  have "returns (Balloc 10 sbi4k META 0 0 0 s)" using calls r(1) by blast
  moreover have "returns (MapBh 10 sbi4k False (Some 1) s)" using calls s(2,4) by (auto simp del: One_nat_def)
  moreover have "returns (BDrop sbi4k 0 False s)" using calls s(3) r(2) by blast
  ultimately show ?thesis using s(1) by blast
qed

text \<open>C9: Mapping everything lays the image out: every block gets the address at which the blocks before it
  in the list end, no two extents overlap, the blocks that were placed before keep their addresses,
  the tail becomes the end of the last one, and the manager's invariant holds with nothing left to map.\<close>

theorem mapping_lays_out_all:
  assumes "bm_inv sbi start s ms us" "unat (TailBlkAddr s) + mapped_size sbi s us < 2 ^ 32 - 1" "length us < fuel"
  shows "\<exists>s'. MapBh fuel sbi True None s = Ret (TailBlkAddr s', s') \<and> bm_inv sbi start s' (ms @ us) []
     \<and> unat (TailBlkAddr s') = unat (TailBlkAddr s) + mapped_size sbi s us
     \<and> (\<forall>b \<in> set ms. bm_blocks s' b = bm_blocks s b)
     \<and> (\<forall>i < length (ms @ us). unat (bb_BlkAddr (bm_blocks s' ((ms @ us) ! i)))
          = start + sum_list (map (\<lambda>b. nblks sbi (bm_blocks s' b)) (take i (ms @ us))))
     \<and> (\<forall>i j. i < j \<and> j < length (ms @ us) \<longrightarrow>
          unat (bb_BlkAddr (bm_blocks s' ((ms @ us) ! i))) + nblks sbi (bm_blocks s' ((ms @ us) ! i))
            \<le> unat (bb_BlkAddr (bm_blocks s' ((ms @ us) ! j))))"
proof -
  obtain s' where s': "MapBh fuel sbi True None s = Ret (TailBlkAddr s', s')" "bm_inv sbi start s' (ms @ us) []"
      "unat (TailBlkAddr s') = unat (TailBlkAddr s) + mapped_size sbi s us"
      "\<forall>b. b \<notin> set us \<longrightarrow> bm_blocks s' b = bm_blocks s b"
    using MapBh_all [OF assms] by blast
  have lay: "laid_out sbi (bm_blocks s') start (ms @ us) (unat (TailBlkAddr s'))"
    using s'(2) by (simp add: bm_inv_def)
  have "set ms \<inter> set us = {}" using bm_inv_distinct(1) [OF assms(1)] by simp
  with s' laid_out_address [OF lay] laid_out_disjoint [OF lay] show ?thesis by blast
qed

theorem mapping_lays_out_all_witness:
  "\<exists>s s'. bm_inv sbi4k 0 s [] [1] \<and> MapBh 2 sbi4k True None s = Ret (2, s') \<and> bm_inv sbi4k 0 s' [1] []"
proof -
  obtain s where s: "bm_inv sbi4k 0 s [] [1]" "nblks sbi4k (bm_blocks s 1) = 2" "TailBlkAddr s = 0"
    using sized_block by blast
  then have "mapped_size sbi4k s [1] = 2" by (simp add: mapped_size_def)
  with mapping_lays_out_all [OF s(1), of 2] s obtain s' where
    s': "MapBh 2 sbi4k True None s = Ret (TailBlkAddr s', s')" "bm_inv sbi4k 0 s' [1] []" "unat (TailBlkAddr s') = 2"
    by auto
  then have "TailBlkAddr s' = 2" by (simp add: word_unat_eq_iff)
  with s(1) s' show ?thesis by auto
qed

text \<open>Attaching \<open>incr\<close> bytes to a block of the manager is refused exactly when the block is mapped, is not the
  last mapped one and the bytes do not fit its last disk block, and then nothing changes; otherwise
  the bytes start at the block's offset rounded up to the alignment, the head is filed last in the
  block, the tail never moves back, and the invariant (contiguous extents, buckets in step with the
  blocks) is kept.\<close>

theorem attach_keeps_layout:
  fixes ext :: u32
  assumes "bm_inv sbi start s ms us" "b \<in> set (ms @ us)" "attach_room sbi s b incr al"
    and "case bh of None \<Rightarrow> True
        | Some i \<Rightarrow> dll (bm_links s) (BbBufs b) (map BhList hs) \<and> i \<notin> set hs"
  shows "\<exists>r s'. BattachInternal sbi b bh incr al ext False s = Ret (r, s')
     \<and> bm_inv sbi start s' ms us
     \<and> (if b \<in> set (butlast ms) \<and> 0 < att_oob sbi (bb_Off (bm_blocks s b)) incr al ext
        then r = - EINVAL \<and> s' = s
        else 0 \<le> r \<and> attached s b bh hs (RoundUp (bb_Off (bm_blocks s b)) (ucast al)) incr s')"
  by (rule BattachInternal_spec [OF assms])

theorem attach_keeps_layout_witness:
  "\<exists>s r s'. BattachInternal sbi4k 1 (Some 5) 100 1 0 False s = Ret (r, s') \<and> bm_inv sbi4k 0 s' [] [1]
     \<and> dll (bm_links s') (BbBufs 1) [BhList 0, BhList 5]"
proof -
  obtain s where s: "one_block s" using one_block_exists by blast
  then have "attach_room sbi4k s 1 100 1" by (simp add: attach_room_def one_block_def)
  with s attach_keeps_layout [of sbi4k 0 s "[]" "[1]" 1 100 1 "[0]" "Some 5" 0] show ?thesis
    by (auto simp: one_block_def attached_def simp del: One_nat_def)
qed

text \<open>A dry run of attaching gives the answer the real one would give and leaves the manager alone.\<close>

theorem attach_dry_run:
  assumes "bm_inv sbi start s ms us" "b \<in> set (ms @ us)" "attach_room sbi s b incr al"
  shows "\<exists>r. BattachInternal sbi b bh incr al ext True s = Ret (r, s)
           \<and> (\<exists>s'. BattachInternal sbi b None incr al ext False s = Ret (r, s'))"
  by (rule BattachInternal_dry [OF assms])

theorem attach_dry_run_witness:
  "\<exists>s r. one_block s \<and> BattachInternal sbi4k 1 (Some 0) 100 1 0 True s = Ret (r, s)"
proof -
  obtain s where s: "one_block s" using one_block_exists by blast
  then have "attach_room sbi4k s 1 100 1" by (simp add: attach_room_def one_block_def)
  with s attach_dry_run [of sbi4k 0 s "[]" "[1]" 1 100 1 "Some 0" 0] show ?thesis
    by (auto simp: one_block_def simp del: One_nat_def)
qed

text \<open>C10: Allocation without a search (the request leaves no partial block to fill): a new block of the
  type joins the list, but the head is given to the \<^emph>\<open>first\<close> block of the list that has the type and
  at least the required offset, the new one only when there is no such block; a request for more
  bytes than that block holds fails with \<open>EmptyBufferBlock\<close> and leaves the new block behind.\<close>

theorem allocation_target:
  assumes "bm_inv sbi start s ms us" "bufs_linked s (ms @ us)"
    and "GetAlignSize sbi ty0 = (al, ty)" "0 \<le> al" "0 \<le> ty" "ty \<le> META"
    and "BfindForAttach fuel sbi ty sz req inl (of_int al) s = Ret (Inr None, s)"
    and "Suc (length (ms @ us)) < fuel"
  defines "n \<equiv> bm_next_bb s"
  defines "us' \<equiv> place_new ty n us"
  defines "f' \<equiv> (bm_blocks s)(n := \<lparr>bb_BlkAddr = NULL_ADDR, bb_Type = ty, bb_Off = 0, bb_FsPrivate = True\<rparr>)"
  defines "b \<equiv> alloc_target ty (sz + ucast (req + inl) * ucast (of_int al :: u32)) f' (ms @ us') n"
  shows "\<exists>s'. Balloc fuel sbi ty0 sz req inl s
            = Ret (if sz > bb_Off (f' b) then Inl EmptyBufferBlock else Inr (bm_next_bh s), s')
     \<and> bm_inv sbi start s' ms us' \<and> bm_blocks s' = f'
     \<and> (sz > bb_Off (f' b) \<or> bm_heads s' = (bm_heads s)(bm_next_bh s := \<lparr>bh_Block = Some b, bh_Off = sz, bh_Op = None\<rparr>))"
  using Balloc_no_search [OF assms(1-8)] unfolding n_def us'_def f'_def b_def by blast

theorem allocation_target_witness:
  "\<exists>s s'. Balloc 4 sbi4k META 0 0 0 s = Ret (Inr 1, s') \<and> bm_inv sbi4k 0 s' [] [1, 2]
     \<and> bh_Block (bm_heads s' 1) = Some 1"
proof -
  obtain s where s: "one_block s" using one_block_exists by blast
  have early: "BfindForAttach 4 sbi4k META 0 0 0 (of_int 1) s = Ret (Inr None, s)"
    by (rule BfindForAttach_early) simp_all
  show ?thesis
    using allocation_target [of sbi4k 0 s "[]" "[1]" META 1 META 4 0 0 0] s early
    by (fastforce simp: one_block_def place_new_def alloc_target_def GetAlignSize_def)
qed

text \<open>C11: A request that leaves a partial block to fill, of any type that is not aligned to whole blocks, is never granted in a reachable
  state.  When a placed metadata block ends at a fill level that leaves room for the request, the search of the
  buckets panics, because \<open>ContainerOf\<close> yields a zero block of another type in its place.  Otherwise
  the call walks for ever: from the last placed block on, \<open>ContainerOf\<close> makes a fresh block at every step, so the walk
  meets neither its end nor a usable block, whatever number of steps it is given.\<close>

theorem allocation_never_returns:
  assumes "small_blocks sbi" "bm_reach fuel0 sbi start s"
    and "ty \<in> {META, INODE, XATTR, DEVT}" "of_int (fst (GetAlignSize sbi ty)) \<noteq> ErofsBlkSiz sbi"
    and "((ucast sz + req) AND (ErofsBlkSiz sbi - 1)) + inl \<noteq> 0"
    and "((ucast sz + req) AND (ErofsBlkSiz sbi - 1)) + inl \<le> ErofsBlkSiz sbi" "unat sz + unat req + unat inl < 2 ^ 32"
  shows "Balloc fuel sbi ty sz req inl s =
     (if \<exists>b. 0 < b \<and> b < bm_next_bb s \<and> bb_BlkAddr (bm_blocks s b) \<noteq> NULL_ADDR \<and> bb_Type (bm_blocks s b) = META
         \<and> 0 < unat (bb_Off (bm_blocks s b) AND ucast (ErofsBlkSiz sbi - 1))
         \<and> unat (bb_Off (bm_blocks s b) AND ucast (ErofsBlkSiz sbi - 1)) \<le> searched_levels sbi (fst (GetAlignSize sbi ty)) sz req inl
      then Panic (Bug ''cur.Type != btype'') else NoFuel)"
  using bm_good_shares [OF bm_reach_good [OF assms(1,2)] assms(3), of sz req inl fuel] assms(4-7)
  by (simp add: shares_block_def Let_def)

theorem allocation_never_returns_witness:
  "(\<exists>s. ErofsBufferInit 0 = Ret s \<and> (\<forall>fuel. Balloc fuel sbi4k INODE 64 0 0 s = NoFuel))
   \<and> (\<exists>s. sb_reserved sbi4k s \<and> Balloc 1000 sbi4k INODE 64 0 0 s = Panic (Bug ''cur.Type != btype''))"
proof -
  obtain s where s: "ErofsBufferInit 0 = Ret s" "bm_next_bb s = 1" using new_manager by blast
  obtain s' where s': "bm_reach 10 sbi4k 0 s'" "sb_reserved sbi4k s'" "bm_next_bb s' = 2" using reached_reserved by blast
  have b: "ErofsBlkSiz sbi4k = 4096" by (simp add: ErofsBlkSiz_def push_bit_eq_mult)
  have al: "GetAlignSize sbi4k INODE = (32, META)" by (simp add: GetAlignSize_def)
  note never = allocation_never_returns [where sbi = sbi4k and ty = INODE and sz = 64 and req = 0 and inl = 0]
  have "Balloc fuel sbi4k INODE 64 0 0 s = NoFuel" for fuel
    using never [OF _ bm_reach.init [OF s(1), of 10 sbi4k]] s(2) b al by (simp add: ucast_eq)
  moreover have "Balloc 1000 sbi4k INODE 64 0 0 s' = Panic (Bug ''cur.Type != btype'')"
  proof -
    have o: "unat (1152 AND (4095 :: u64)) = 1152" by code_simp
    have "bm_blocks s' 1 = \<lparr>bb_BlkAddr = 0, bb_Type = META, bb_Off = 1152, bb_FsPrivate = True\<rparr>"
      using s'(2) by (simp add: sb_reserved_def)
    then have "0 < (1 :: nat) \<and> 1 < bm_next_bb s' \<and> bb_BlkAddr (bm_blocks s' 1) \<noteq> NULL_ADDR \<and> bb_Type (bm_blocks s' 1) = META
         \<and> 0 < unat (bb_Off (bm_blocks s' 1) AND ucast (ErofsBlkSiz sbi4k - 1))
         \<and> unat (bb_Off (bm_blocks s' 1) AND ucast (ErofsBlkSiz sbi4k - 1)) \<le> searched_levels sbi4k (fst (GetAlignSize sbi4k INODE)) 64 0 0"
      using s'(3) b al o by (simp add: searched_levels_def ucast_eq del: One_nat_def)
    then show ?thesis using never [OF _ s'(1), of 1000] b al by (auto simp: ucast_eq simp del: One_nat_def)
  qed
  ultimately show ?thesis using s(1) s'(2) by blast
qed

text \<open>C12: \<open>BhBalloon\<close> on the last head of an unmapped block grows the block by \<open>incr\<close> and keeps the layout, but it
  files the head a second time: the head becomes its own neighbour, and no walk of the block's ring
  ends any more.\<close>

theorem balloon_breaks_ring:
  assumes "bm_inv sbi start s ms us" "b \<in> set us"
    and "bh_Block (bm_heads s i) = Some b" "dll (bm_links s) (BbBufs b) (xs @ [BhList i])"
    and "unat (bb_Off (bm_blocks s b)) + unat incr < 2 ^ 44"
  shows "\<exists>r s'. BhBalloon sbi i incr s = Ret (r, s') \<and> 0 \<le> r \<and> bm_inv sbi start s' ms us
     \<and> bb_Off (bm_blocks s' b) = bb_Off (bm_blocks s b) + incr
     \<and> bh_Off (bm_heads s' i) = bb_Off (bm_blocks s b)
     \<and> lnext (bm_links s') (BhList i) = Some (BhList i)
     \<and> (\<forall>n. ListForEachInList n bm_links (\<lambda>p st. Ret (True, st)) (Some (BbBufs b)) s' = NoFuel)"
proof -
  define s' where "s' = s\<lparr>bm_heads := (bm_heads s)(i := (bm_heads s i)\<lparr>bh_Off := bb_Off (bm_blocks s b), bh_Block := Some b\<rparr>),
                   bm_links := self_looped (bm_links s) (BhList i),
                   bm_blocks := with_off s b (bb_Off (bm_blocks s b) + incr)\<rparr>"
  obtain r where "0 \<le> r" "BhBalloon sbi i incr s = Ret (r, s')" "bm_inv sbi start s' ms us"
    using BhBalloon_unmapped [OF assms] unfolding s'_def by blast
  moreover have "ListForEachInList n bm_links (\<lambda>p st. Ret (True, st)) (Some (BbBufs b)) s' = NoFuel" for n
    by (rule BhBalloon_walk [OF assms(4)]) (simp add: s'_def)
  moreover have "bb_Off (bm_blocks s' b) = bb_Off (bm_blocks s b) + incr"
      "bh_Off (bm_heads s' i) = bb_Off (bm_blocks s b)" "lnext (bm_links s') (BhList i) = Some (BhList i)"
    by (simp_all add: s'_def self_looped_def)
  ultimately show ?thesis by blast
qed

theorem balloon_breaks_ring_witness:
  "\<exists>s r s'. BhBalloon sbi4k 0 1152 s = Ret (r, s') \<and> bb_Off (bm_blocks s' 1) = 1152
     \<and> ListForEachInList 9 bm_links (\<lambda>p st. Ret (True, st)) (Some (BbBufs 1)) s' = NoFuel"
proof -
  obtain s where s: "one_block s" using one_block_exists by blast
  with balloon_breaks_ring [of sbi4k 0 s "[]" "[1]" 1 0 "[]" 1152] show ?thesis
    by (auto simp: one_block_def simp del: One_nat_def)
qed

text \<open>\<open>BDrop\<close> takes the head out of its block and never frees the block, not even with its last head;
  revoking the last head of the block that ends at the tail moves the tail back to the block's start
  although the block stays mapped there, and only then the layout invariant is lost.\<close>

theorem drop_head:
  fixes revoke :: bool
  assumes "bm_inv sbi start s ms us" "b \<in> set (ms @ us)"
    and "bh_Block (bm_heads s i) = Some b" "dll (bm_links s) (BbBufs b) (map BhList (xs @ i # ys))"
  defines "rollback \<equiv> xs @ ys = [] \<and> revoke \<and> bb_BlkAddr (bm_blocks s b) \<noteq> NULL_ADDR
     \<and> TailBlkAddr s = bb_BlkAddr (bm_blocks s b) + ucast (BlkRoundUp sbi (bb_Off (bm_blocks s b)))"
  shows "\<exists>s'. BDrop sbi i revoke s = Ret s'
     \<and> dll (bm_links s') (BbBufs b) (map BhList (xs @ ys))
     \<and> dll (bm_links s') (BbList 0) (map BbList (ms @ us)) \<and> bm_blocks s' = bm_blocks s
     \<and> TailBlkAddr s' = (if rollback then bb_BlkAddr (bm_blocks s b) else TailBlkAddr s)
     \<and> (\<not> rollback \<longrightarrow> bm_inv sbi start s' ms us)"
  using BDrop_spec [OF assms(1-4), of revoke] unfolding rollback_def by fastforce

theorem drop_head_witness:
  "\<exists>s s'. BDrop sbi4k 0 True s = Ret s' \<and> dll (bm_links s') (BbBufs 1) [] \<and> dll (bm_links s') (BbList 0) [BbList 1]"
proof -
  obtain s where "one_block s" using one_block_exists by blast
  with drop_head [of sbi4k 0 s "[]" "[1]" 1 0 "[]" "[]" True] show ?thesis
    by (auto simp: one_block_def simp del: One_nat_def)
qed

text \<open>Freeing the last mapped block: the emptiness test of \<open>ErofsBfree\<close> is inverted, so a block with heads is
  freed; it leaves the list, and the last mapped block becomes a new block that was never linked, so
  the next \<open>MapBh\<close> dereferences a nil pointer.\<close>

theorem free_last_then_map:
  assumes "bm_inv sbi start s (ms @ [b]) us" "IsListEmpty (bm_links s) (Some (BbBufs b)) = Ret False"
  shows "\<exists>s'. ErofsBfree b s = Ret s' \<and> dll (bm_links s') (BbList 0) (map BbList (ms @ us))
     \<and> MapBh (Suc k) sbi True None s' = Panic NilDeref"
  using ErofsBfree_last [OF assms] MapBh_after_free [of _ "bm_next_bb s"] by blast

theorem free_last_then_map_witness:
  "\<exists>s s'. bm_inv sbi4k 0 s [1] [] \<and> ErofsBfree 1 s = Ret s' \<and> MapBh 9 sbi4k True None s' = Panic NilDeref"
proof -
  obtain s where s: "bm_inv sbi4k 0 s [1] []" "dll (bm_links s) (BbBufs 1) [BhList 0]" using placed_block by blast
  then have "IsListEmpty (bm_links s) (Some (BbBufs 1)) = Ret False" using IsListEmpty_dll [OF s(2)] by simp
  with free_last_then_map [of sbi4k 0 s "[]" 1 "[]" 8] s(1) show ?thesis by auto
qed

section \<open>Inodes\<close>

text \<open>C13: Filling an inode from a file's status and entering it in the table: an accepted inode is well formed (its type
  is one of the seven, a directory has size 0, its on-disk size is 44 or 80 bytes, and one that has a number of
  its own and takes the compact form fits it) and stands first in the slot its device and number hash to; a
  refused one is in no slot; no other inode changes.  A file of unknown type is refused with \<open>EINVAL\<close>.\<close>

theorem filled_inode:
  assumes "in_buckets t B" "\<forall>j. i \<notin> set (B j)" "ErofsFillInode dn cfg sbi i st path t = Ret (err, t')"
  defines "x \<equiv> it_inodes t' i"
  shows "(if err = None
          then inode_wf sbi x \<and> in_IMode x = ucast (st_Mode st) \<and> in_ISrcpath x = path
             \<and> in_buckets t' (B(hash_slot x := i # B (hash_slot x)))
          else in_buckets t' B)
     \<and> (\<forall>k. k \<noteq> i \<longrightarrow> it_inodes t' k = it_inodes t k)
     \<and> (ucast (st_Mode st) AND S_IFMT \<notin> inode_types \<longrightarrow> err = Some (FillErrno EINVAL))"
  using ErofsFillInode_outcome [OF assms(1-3)] fill_unknown_type [OF assms(3)] by (simp add: x_def)

theorem filled_inode_witness:
  "\<exists>t t'. ErofsFillInode plain_numbers (InitConfigure False) sbi4k 0 (plain_stat 0x41ED 0) ''d'' t = Ret (None, t')
     \<and> inode_wf sbi4k (it_inodes t' 0) \<and> dll (it_links t') (HashSlot 7) [IHash 0]"
proof -
  obtain t where t: "in_buckets t (\<lambda>_. [])" "it_inodes t = (\<lambda>_. zero_inode)" using empty_table by blast
  obtain t' where run: "ErofsFillInode plain_numbers (InitConfigure False) sbi4k 0 (plain_stat 0x41ED 0) ''d'' t = Ret (None, t')"
      "hash_slot (it_inodes t' 0) = 7"
    using fill_plain_directory [OF t] by blast
  have "inode_wf sbi4k (it_inodes t' 0) \<and> in_buckets t' ((\<lambda>_. [])(7 := [0]))"
    using filled_inode [OF t(1) _ run(1)] run(2) by simp
  then show ?thesis using in_bucketsD(1) [of t' "(\<lambda>_. [])(7 := [0])" 7] run(1) by auto
qed

text \<open>C14: Filling an inode that has neither number nor size yet, of any known type: number 0 also means \<open>the packed inode\<close>.  Where the
  extended form is forced, or a symbolic link is longer than a 32-bit size, the form is the extended one (or the call
  refuses, when the compact form is forced).  In every other case the owner is not looked at: without a packed inode
  the call accepts the compact form, which cannot hold an owner beyond 16 bits; and once the packed inode has a
  number, the call panics.\<close>

theorem compact_form_loses_owner:
  assumes "in_Nid i = 0" "in_ISize i = 0" "ucast (st_Mode st) AND S_IFMT \<in> inode_types"
  shows "if cf_ForceInodeVersion cfg = FORCE_INODE_EXTENDED
        \<or> ucast (st_Mode st) AND S_IFMT = S_IFLNK \<and> st_Size st > 0xFFFFFFFF
     then \<exists>i'. fill_attrs dn cfg sbi i st path
            = Ret (if cf_ForceInodeVersion cfg = FORCE_INODE_COMPACT then Some (FillErrno EINVAL) else None, i')
        \<and> (cf_ForceInodeVersion cfg \<noteq> FORCE_INODE_COMPACT \<longrightarrow> unat (in_InodeIsize i') = go_sizeof ErofsInodeExtended)
     else if si_PackedNid sbi = 0
     then \<exists>i'. fill_attrs dn cfg sbi i st path = Ret (None, i')
        \<and> unat (in_InodeIsize i') = go_sizeof ErofsInodeCompact \<and> in_IUid i' = owner_of cfg st
        \<and> (owner_of cfg st > 0xFFFF \<longrightarrow> \<not> fits_compact i')
     else fill_attrs dn cfg sbi i st path = Panic (Bug ''packedNid should be unallocated'')"
proof -
  note f = fill_attrs_unnumbered [OF assms, where cfg = cfg and dn = dn and sbi = sbi and path = path]
  have "\<exists>i'. fill_attrs dn cfg sbi i st path = Ret (None, i') \<and> unat (in_InodeIsize i') = go_sizeof ErofsInodeCompact
      \<and> in_IUid i' = owner_of cfg st \<and> (owner_of cfg st > 0xFFFF \<longrightarrow> \<not> fits_compact i')"
    if "\<not> needs_extended cfg st" "si_PackedNid sbi = 0"
    using f(2) [OF that] by (force simp: fits_compact_def not_le)
  with f(1,3) show ?thesis unfolding needs_extended_def [of cfg st, symmetric] by presburger
qed

theorem compact_form_loses_owner_witness:
  "(\<exists>i'. fill_attrs plain_numbers (InitConfigure False) sbi4k zero_inode (plain_stat 0x81A4 70000) ''f'' = Ret (None, i')
      \<and> unat (in_InodeIsize i') = 44 \<and> in_IUid i' = 70000 \<and> \<not> fits_compact i')
   \<and> fill_attrs plain_numbers (InitConfigure False) (sbi4k\<lparr>si_PackedNid := 36\<rparr>) zero_inode (plain_stat 0x81A4 7) ''f''
       = Panic (Bug ''packedNid should be unallocated'')"
  using compact_form_loses_owner [of zero_inode "plain_stat 0x81A4 70000" "InitConfigure False" plain_numbers sbi4k "''f''"]
    compact_form_loses_owner [of zero_inode "plain_stat 0x81A4 7" "InitConfigure False" plain_numbers "sbi4k\<lparr>si_PackedNid := 36\<rparr>" "''f''"]
  by (auto simp: inode_types_def plain_config_simps plain_stat_def sbi4k_def zero_sbinfo_def zero_inode_def inode_sizes owner_of_def)

text \<open>C15: The size of a regular file is lost: the case for regular files in the switch of \<open>ErofsFillInode\<close> is empty, so
  a new inode keeps size 0, and writing its data then succeeds without reading the source or touching the image.\<close>

theorem regular_file_is_lost:
  assumes "si_PackedNid sbi = 0" "cf_ForceInodeVersion cfg = 0" "ucast (st_Mode st) AND S_IFMT = S_IFREG"
    and "st_Size st \<le> 0xFFFFFFFF" "unat (si_BlkSzBits sbi) \<le> 12" "0 < fuel"
  shows "\<exists>i i'. fill_attrs dn cfg sbi (NewInode sec nsec) st path = Ret (None, i) \<and> IsReg i \<and> in_ISize i = 0
     \<and> WriteUncompressedFileFromFd fuel xo sbi i fd bm w fds = Ret (None, i', bm, w, fds)
     \<and> in_IBlkaddr i' = NULL_ADDR \<and> in_IdataSize i' = 0"
proof -
  have "in_Nid (NewInode sec nsec) = 0" "in_ISize (NewInode sec nsec) = 0"
    by (simp_all add: NewInode_def zero_inode_def)
  then obtain i where "fill_attrs dn cfg sbi (NewInode sec nsec) st path = Ret (None, i)" "in_ISize i = 0" "IsReg i"
    using fill_attrs_regular [OF _ assms(1) _ assms(2-4)] by blast
  with WriteUncompressed_empty [OF _ assms(5,6)] show ?thesis by blast
qed

theorem regular_file_is_lost_witness:
  "\<exists>i i'. fill_attrs plain_numbers (InitConfigure False) sbi4k (NewInode 5 0) ((plain_stat 0x81A4 0)\<lparr>st_Size := 5000\<rparr>) ''f'' = Ret (None, i)
     \<and> WriteUncompressedFileFromFd 3 plain_xcopy sbi4k i 4 extent_manager (plain_io [] []) (\<lambda>_. None) = Ret (None, i', extent_manager, plain_io [] [], \<lambda>_. None)"
  using regular_file_is_lost [of sbi4k "InitConfigure False" "(plain_stat 0x81A4 0)\<lparr>st_Size := 5000\<rparr>" 3 plain_numbers 5 0 "''f''"
      plain_xcopy 4 extent_manager "plain_io [] []" "\<lambda>_. None"]
  by (auto simp: plain_config_simps plain_stat_def sbi4k_def zero_sbinfo_def)

text \<open>C16: The inode table refines a map from slots to lists: after initialisation and the insertion of distinct inodes
  each slot holds those that hash to it, last first; dropping a reference that is not the last only counts down,
  and dropping the last takes exactly that inode out of its slot and clears its paths.\<close>

theorem inode_table:
  assumes "distinct is"
  shows "(\<exists>t1 t2. ErofsInodeManagerInit t = Ret t1 \<and> foldl (\<lambda>m i. gbind m (ErofsInsertIhash i)) (Ret t1) is = Ret t2
      \<and> in_buckets t2 (\<lambda>j. rev (filter (\<lambda>i. hash_slot (it_inodes t i) = j) is)))
   \<and> (in_ICount (it_inodes s i) \<noteq> 1 \<longrightarrow> ErofsIput fuel i s = Ret (scast (in_ICount (it_inodes s i) - 1),
      upd_in i (\<lambda>x. x\<lparr>in_ICount := in_ICount (it_inodes s i) - 1\<rparr>) s))
   \<and> (in_ICount (it_inodes s i) = 1 \<and> in_DataSource (it_inodes s i) \<noteq> EROFS_INODE_DATA_SOURCE_DISKBUF
      \<and> dll (it_links s) (ISubdirs i) xs \<and> length xs < fuel
      \<and> in_buckets s B \<and> i \<in> set (B (hash_slot (it_inodes s i)))
      \<longrightarrow> (\<exists>s'. ErofsIput fuel i s = Ret (0, s')
        \<and> in_buckets s' (B(hash_slot (it_inodes s i) := remove1 i (B (hash_slot (it_inodes s i)))))
        \<and> in_ISrcpath (it_inodes s' i) = '''' \<and> in_ILink (it_inodes s' i) = ''''
        \<and> (\<forall>k. k \<noteq> i \<longrightarrow> it_inodes s' k = it_inodes s k)))"
proof -
  obtain t1 where t1: "ErofsInodeManagerInit t = Ret t1" "in_buckets t1 (\<lambda>_. [])" "it_inodes t1 = it_inodes t"
    using ErofsInodeManagerInit_buckets by blast
  obtain t2 where "foldl (\<lambda>m i. gbind m (ErofsInsertIhash i)) (Ret t1) is = Ret t2"
     "in_buckets t2 (\<lambda>j. rev (filter (\<lambda>i. hash_slot (it_inodes t1 i) = j) is) @ [])"
    using itab.ins_all [OF t1(2) assms] by auto
  with t1 ErofsIput_held [of s i fuel] ErofsIput_last [of s i xs fuel B] show ?thesis by simp
qed

theorem inode_table_witness:
  "\<exists>t2. foldl (\<lambda>m i. gbind m (ErofsInsertIhash i)) (ErofsInodeManagerInit zero_table) [3, 5] = Ret t2
     \<and> in_buckets t2 ((\<lambda>_. [])(0 := [5, 3]))"
proof -
  have h: "hash_slot (it_inodes zero_table i) = 0" for i by (simp add: zero_table_def hash_slot_def zero_inode_def)
  have "(\<lambda>j :: nat. rev (filter (\<lambda>i :: nat. 0 = j) [3, 5])) = (\<lambda>_. [])(0 := [5, 3])" by auto
  moreover have "distinct [3, 5 :: nat]" by simp
  ultimately show ?thesis using inode_table [of "[3, 5]" zero_table, THEN conjunct1] h by auto
qed

text \<open>C17: The number \<open>ErofsLookupNid\<close> gives an inode that has a buffer: its assertion is inverted, so an offset in the
  metadata area panics, and an offset before it wraps around to a number of at least \<open>2 ^ 58\<close>, for which the
  root inode reports the number of the superblock instead.\<close>

theorem lookup_nid_out_of_range:
  assumes "in_Bh (it_inodes t i) = Some bh" "in_Nid (it_inodes t i) = 0" "unat (si_BlkSzBits sbi) \<le> 12"
    and "MapBh fuel sbi False (bh_Block (bm_heads bm bh)) bm = Ret (a, bm1)" "BhTell sbi bh False bm1 = Ret off"
  shows "if off < ErofsPos sbi (ucast (si_MetaBlkAddr sbi))
     then \<exists>nid t'. 2 ^ 58 \<le> unat nid \<and> in_Nid (it_inodes t' i) = nid
        \<and> ErofsLookupNid fuel sbi i t bm = Ret (if IS_ROOT i (it_inodes t i) then ucast (si_RootNid sbi) else nid, t', bm1)
     else ErofsLookupNid fuel sbi i t bm = Panic (Bug ''Bug: off < metaOffset'')"
  using ErofsLookupNid_unnumbered [OF assms] by simp

theorem lookup_nid_out_of_range_witness:
  "\<exists>bm bm1 nid t'. 2 ^ 58 \<le> unat nid
     \<and> ErofsLookupNid 3 (sbi4k\<lparr>si_MetaBlkAddr := 1\<rparr>) 0 (upd_in 0 (\<lambda>x. x\<lparr>in_Bh := Some 0\<rparr>) zero_table) bm = Ret (nid, t', bm1)"
proof -
  let ?sbi = "sbi4k\<lparr>si_MetaBlkAddr := 1\<rparr>" and ?t = "upd_in 0 (\<lambda>x. x\<lparr>in_Bh := Some 0\<rparr>) zero_table"
  obtain bm a bm1 where run: "MapBh 3 ?sbi False (bh_Block (bm_heads bm 0)) bm = Ret (a, bm1)" "BhTell ?sbi 0 False bm1 = Ret 0"
    using mapped_head [of ?sbi] by (auto simp: small_blocks_def)
  have off: "0 < ErofsPos ?sbi (ucast (si_MetaBlkAddr ?sbi))" by (simp add: ErofsPos_def)
  have t: "in_Bh (it_inodes ?t 0) = Some 0" "in_Nid (it_inodes ?t 0) = 0" "\<not> IS_ROOT 0 (it_inodes ?t 0)"
    by (simp_all add: zero_table_def zero_inode_def IS_ROOT_def erofsParentInode_def)
  obtain nid t' where "2 ^ 58 \<le> unat nid" "ErofsLookupNid 3 ?sbi 0 ?t bm = Ret (nid, t', bm1)"
    using lookup_nid_out_of_range [OF t(1,2) _ run] off t(3) by auto
  then show ?thesis by blast
qed

section \<open>File data and the packed file\<close>

text \<open>C18: Copying a range from a source to the image stores exactly that range, whatever part of it
  \<open>copy_file_range\<close> and \<open>sendfile\<close> take over, however the kernel cuts the reads of the rest, and whether or not
  the destination may be moved.\<close>

theorem xcopy_copies:
  assumes "vf_ready fuel vout" "src_ok fuel (vf_file vin)" "vf_Ops vin = None"
    and "fpos + unat len \<le> length (f_data (vf_file vin))" "unat pos + unat len < 2 ^ 63"
    and "(unat len + 32767) div 32768 < fuel"
  shows "\<exists>vout' vin'. ErofsIoXcopy fuel xo False vout pos vin fpos len noseek
       = Ret \<lparr>xc_err = None, xc_out = vout', xc_in = vin', xc_fpos = fpos + unat len\<rparr>
     \<and> vf_ready fuel vout' \<and> f_data (vf_file vin') = f_data (vf_file vin)
     \<and> f_data (vf_file vout') = write_at (f_data (vf_file vout)) (unat pos) (cut fpos (unat len) (f_data (vf_file vin)))"
  using ErofsIoXcopy_all [OF assms] by blast

theorem xcopy_copies_witness:
  "\<exists>c. ErofsIoXcopy 4 plain_xcopy False \<lparr>vf_Ops = None, vf_Offset = 0, vf_file = plain_file [] []\<rparr> 2
       \<lparr>vf_Ops = None, vf_Offset = 0, vf_file = plain_file [1, 2, 3, 4, 5] [Part 1]\<rparr> 1 4 False = Ret c
     \<and> f_data (vf_file (xc_out c)) = [0, 0, 2, 3, 4, 5]"
proof -
  have "cut 1 4 [1, 2, 3, 4, 5] = [2, 3, 4, 5 :: byte]" "write_at [] 2 [2, 3, 4, 5] = [0, 0, 2, 3, 4, 5 :: byte]"
    by code_simp+
  then show ?thesis
    using xcopy_copies [of 4 "\<lparr>vf_Ops = None, vf_Offset = 0, vf_file = plain_file [] []\<rparr>"
        "\<lparr>vf_Ops = None, vf_Offset = 0, vf_file = plain_file [1, 2, 3, 4, 5] [Part 1]\<rparr>" 1 4 2 plain_xcopy False]
    by (auto simp: vf_ready_def src_ok_def)
qed



text \<open>C20: In a reachable manager without a data block that already extends as far as the request, and the one that
  \<open>ReserveSuperblock\<close> leaves is of this kind, a file of at least one block is refused: the block made for it is
  empty, so \<open>Balloc\<close> fails and nothing is copied.  The empty block stays behind in the list of blocks, without
  address and without heads, and every other block is as before.\<close>

theorem first_extent_refused:
  fixes i :: inode
  assumes "small_blocks sbi" "bm_reach fuel sbi start bm" "bm_next_bb bm < fuel"
  defines "nblocks \<equiv> drop_bit (unat (si_BlkSzBits sbi)) (ucast (in_ISize i)) :: u32"
  assumes "nblocks \<noteq> 0"
    and "\<forall>b. 0 < b \<and> b < bm_next_bb bm \<and> bb_Type (bm_blocks bm b) = DATA \<longrightarrow> bb_Off (bm_blocks bm b) < ErofsPos sbi (ucast nblocks)"
  shows "\<exists>i' bm' bs. WriteUncompressedFileFromFd fuel xo sbi i fd bm w fds
       = Ret (Some (WriteAlloc (ExtentFailed EmptyBufferBlock)), i', bm', w, fds) \<and> bm_good sbi (unat start) bm'
     \<and> bm_next_bb bm' = Suc (bm_next_bb bm)
     \<and> bm_blocks bm' = (bm_blocks bm)(bm_next_bb bm := \<lparr>bb_BlkAddr = NULL_ADDR, bb_Type = DATA, bb_Off = 0, bb_FsPrivate = True\<rparr>)
     \<and> dll (bm_links bm') (BbBufs (bm_next_bb bm)) []
     \<and> dll (bm_links bm') (BbList 0) (map BbList bs) \<and> bm_next_bb bm \<in> set bs"
proof -
  obtain ms us hs where wf: "bm_wf sbi (unat start) bm ms us hs"
    using bm_reach_good [OF assms(1,2)] by (auto simp: bm_good_def)
  obtain bm' hs' where bm': "ErofsAllocateInodeBhData fuel sbi (i\<lparr>in_DataLayout := EROFS_INODE_FLAT_INLINE\<rparr>) nblocks bm
      = Ret (Some (ExtentFailed EmptyBufferBlock), i\<lparr>in_DataLayout := EROFS_INODE_FLAT_INLINE\<rparr>, bm')"
      "bm_wf sbi (unat start) bm' ms (place_new DATA (bm_next_bb bm) us) hs'" "bm_next_bb bm' = Suc (bm_next_bb bm)"
      "bm_blocks bm' = (bm_blocks bm)(bm_next_bb bm := \<lparr>bb_BlkAddr = NULL_ADDR, bb_Type = DATA, bb_Off = 0, bb_FsPrivate = True\<rparr>)"
      "dll (bm_links bm') (BbBufs (bm_next_bb bm)) []"
    using extent_refused [OF wf assms(1,3,5,6)] by blast
  have "dll (bm_links bm') (BbList 0) (map BbList (ms @ place_new DATA (bm_next_bb bm) us))"
    using bm_wfD(1) [OF bm'(2)] by (simp add: bm_inv_def)
  moreover have "bm_next_bb bm \<in> set (ms @ place_new DATA (bm_next_bb bm) us)" by (simp add: place_new_def)
  moreover have "\<exists>i'. WriteUncompressedFileFromFd fuel xo sbi i fd bm w fds
       = Ret (Some (WriteAlloc (ExtentFailed EmptyBufferBlock)), i', bm', w, fds)"
    using bm'(1) by (auto simp: WriteUncompressedFileFromFd_def nblocks_def)
  ultimately show ?thesis using bm'(2-5) unfolding bm_good_def by blast
qed

theorem first_extent_refused_witness:
  "\<exists>bm i' bm'. sb_reserved sbi4k bm
     \<and> WriteUncompressedFileFromFd 10 plain_xcopy sbi4k (zero_inode\<lparr>in_ISize := 5000\<rparr>) 4 bm (plain_io [] []) (\<lambda>_. None)
       = Ret (Some (WriteAlloc (ExtentFailed EmptyBufferBlock)), i', bm', plain_io [] [], \<lambda>_. None)
     \<and> bb_BlkAddr (bm_blocks bm' 2) = NULL_ADDR \<and> bb_Type (bm_blocks bm' 2) = DATA"
proof -
  obtain bm where bm: "bm_reach 10 sbi4k 0 bm" "sb_reserved sbi4k bm" "bm_next_bb bm = 2" using reached_reserved by blast
  let ?i = "zero_inode\<lparr>in_ISize := 5000\<rparr>"
  have nb: "(drop_bit (unat (si_BlkSzBits sbi4k)) (ucast (in_ISize ?i)) :: u32) \<noteq> 0" by simp
  have none: "\<forall>b. 0 < b \<and> b < bm_next_bb bm \<and> bb_Type (bm_blocks bm b) = DATA
      \<longrightarrow> bb_Off (bm_blocks bm b) < ErofsPos sbi4k (ucast (drop_bit (unat (si_BlkSzBits sbi4k)) (ucast (in_ISize ?i)) :: u32))"
  proof (intro allI impI, elim conjE)
    fix b assume b: "0 < b" "b < bm_next_bb bm" "bb_Type (bm_blocks bm b) = DATA"
    have "b = 1" using b(1,2) bm(3) by simp
    with b(3) bm(2) show "bb_Off (bm_blocks bm b) < ErofsPos sbi4k (ucast (drop_bit (unat (si_BlkSzBits sbi4k)) (ucast (in_ISize ?i)) :: u32))"
      by (simp add: sb_reserved_def del: One_nat_def)
  qed
  have "bm_next_bb bm < 10" using bm(3) by simp
  from first_extent_refused [OF sbi4k_simps(2) bm(1) this nb none, of plain_xcopy 4 "plain_io [] []" "\<lambda>_. None"] bm(2,3) show ?thesis
    by fastforce
qed

text \<open>C21: Packing a file appends its bytes to the packed file and records where they are, whether the source is
  mapped or, when the mapping is refused, copied in pieces; the index gains an entry only in the first case.\<close>

theorem packed_file_grows:
  assumes "served fds fd data 0 \<or> mmap_refused fds fd data" "served fds (pk_Fd pk) old q" "fd \<noteq> pk_Fd pk"
    and "unat (in_ISize i) = length data" "16 < length data" "q + length data < 2 ^ 62" "(length data + 32767) div 32768 < fuel"
    and "pk_Hash pk" "frag_index pk (unat (FRAGMENT_HASH (ucast crc))) items"
  shows "\<exists>i' pk' fds'. ZErofsPackFileFromFd fuel i fd crc (Some pk) fds = Ret (None, i', Some pk', fds')
     \<and> in_Fragmentoff i' = of_nat q \<and> in_FragmentSize i' = in_ISize i
     \<and> served fds' (pk_Fd pk) (write_at old q data) (q + length data) \<and> served fds' fd data 0
     \<and> frag_index pk' (unat (FRAGMENT_HASH (ucast crc)))
         (items @ (if mmap_refused fds fd data then [] else [fragment_item data (in_ISize i) (of_nat q)]))"
  by (rule PackFile_all [OF assms])

theorem packed_file_grows_witness:
  "\<exists>pk i' pk' fds'. ZErofsPackFileFromFd 3 (zero_inode\<lparr>in_ISize := 20\<rparr>) 4 0 (Some pk)
       [4 \<mapsto> open_at (replicate 20 7) [Fail ENOMEM] 0, 9 \<mapsto> new_openfile] = Ret (None, i', Some pk', fds')
     \<and> served fds' 9 (replicate 20 7) 20 \<and> frag_index pk' 0 []"
proof -
  let ?d = "replicate 20 7 :: bytes" and ?fds = "[4 \<mapsto> open_at (replicate 20 7) [Fail ENOMEM] 0, 9 \<mapsto> new_openfile]"
  obtain pk where pk: "pk_Hash pk" "pk_Fd pk = 9" "frag_index pk 0 []" using packed_file by blast
  have m: "mmap_refused ?fds 4 ?d" by (simp add: mmap_refused_def)
  have s: "served ?fds (pk_Fd pk) [] 0" using pk(2) new_openfile_served [of ?fds 9] by simp
  have w: "write_at [] 0 ?d = ?d" by code_simp
  have h: "unat (FRAGMENT_HASH (ucast (0 :: u32))) = 0" by (simp add: FRAGMENT_HASH_def)
  have idx: "frag_index pk (unat (FRAGMENT_HASH (ucast (0 :: u32)))) []" unfolding h by (rule pk(3))
  obtain i' pk' fds' where "ZErofsPackFileFromFd 3 (zero_inode\<lparr>in_ISize := 20\<rparr>) 4 0 (Some pk) ?fds = Ret (None, i', Some pk', fds')"
      "served fds' (pk_Fd pk) (write_at [] 0 ?d) (0 + length ?d)"
      "frag_index pk' (unat (FRAGMENT_HASH (ucast (0 :: u32)))) ([] @ (if mmap_refused ?fds 4 ?d then [] else
         [fragment_item ?d (in_ISize (zero_inode\<lparr>in_ISize := 20\<rparr>)) (of_nat 0)]))"
    using packed_file_grows [OF disjI2 [OF m] s _ _ _ _ _ pk(1) idx, of "zero_inode\<lparr>in_ISize := 20\<rparr>" 3] pk(2) by auto
  then show ?thesis using m pk(2) h w by auto
qed

text \<open>C22: A freshly initialised packed file panics on nearly every fragment: the loop of \<open>InitPackedFile\<close> initialises the
  first list head of the index again and again, so recording a packed file whose checksum does not hash to slot
  0 dereferences a nil pointer.\<close>

theorem fragment_index_panics:
  assumes "ta_create ta = Inr pfd" "ta_remove ta = None" "ta_chmod ta = None"
    and "served fds fd data 0" "fd \<noteq> pfd" "unat (in_ISize i) = length data" "16 < length data"
    and "(length data + 32767) div 32768 < fuel" "unat (FRAGMENT_HASH (ucast crc)) \<noteq> 0"
  shows "\<exists>pk fds'. InitPackedFile ta None True fds = Ret (None, Some pk, fds')
     \<and> ZErofsPackFileFromFd fuel i fd crc (Some pk) fds' = Panic NilDeref"
proof -
  let ?fds = "fds(pfd \<mapsto> new_openfile)"
  obtain pk where pk: "InitPackedFile ta None True fds = Ret (None, Some pk, ?fds)" "pk_Hash pk" "pk_Fd pk = pfd"
      "\<forall>j. j \<noteq> 0 \<longrightarrow> lprev (pk_links pk) (FragHead j) = None"
    using InitPackedFile_heads [OF assms(1-3)] by blast
  have "served ?fds fd data 0" using assms(4,5) by (simp add: served_def)
  moreover have "served ?fds (pk_Fd pk) [] 0" using pk(3) by (simp add: new_openfile_served)
  moreover have "0 + length data < 2 ^ 62" using assms(4) by (auto simp: served_def)
  ultimately show ?thesis using PackFile_zero_head [of ?fds fd data pk "[]" 0 i fuel crc] assms(5-9) pk by auto
qed

theorem fragment_index_panics_witness:
  "\<exists>pk fds'. InitPackedFile good_answers None True [4 \<mapsto> open_at (replicate 20 7) [] 0] = Ret (None, Some pk, fds')
     \<and> ZErofsPackFileFromFd 3 (zero_inode\<lparr>in_ISize := 20\<rparr>) 4 5 (Some pk) fds' = Panic NilDeref"
  using fragment_index_panics [of good_answers 9 "[4 \<mapsto> open_at (replicate 20 7) [] 0]" 4 "replicate 20 7" "zero_inode\<lparr>in_ISize := 20\<rparr>" 3 5]
    served_open [of "[4 \<mapsto> open_at (replicate 20 7) [] 0]" 4 "replicate 20 7" 0]
  by (simp add: good_answers_def FRAGMENT_HASH_def)

text \<open>C23: Looking for a file's tail in the index finds nothing, whatever the index holds, even the very same data: the
  cursor is made by \<open>ListEntry\<close>, which returns a fresh item of length 0 instead of the entry, so every
  candidate is skipped; the file is rewound and its inode left alone.\<close>

theorem dedupe_never_finds:
  assumes "in_ISize i > EROFS_TOF_HASHLEN" "served fds fd data p" "unat (in_ISize i) = length data"
  defines "crc \<equiv> Crc32c (NOT 0) (drop (length data - 16) data)"
  assumes "frag_index pk (unat (FRAGMENT_HASH (ucast crc))) items" "length items < fuel" "pk_Hash pk"
  shows "\<exists>pk' fds'. ZErofsFragmentsDedupe fuel i fd tofcrc (Some pk) fds = Ret (0, crc, i, Some pk', fds')
     \<and> frag_index pk' (unat (FRAGMENT_HASH (ucast crc))) items \<and> served fds' fd data 0"
  using Dedupe_nothing [OF assms(1-3) assms(5-7) [unfolded crc_def], of tofcrc] unfolding crc_def by blast

theorem dedupe_never_finds_witness:
  "\<exists>pk crc pk' fds'. frag_index pk (unat (FRAGMENT_HASH (ucast (crc :: u32)))) [fragment_item (replicate 20 7) 20 0]
     \<and> ZErofsFragmentsDedupe 3 (zero_inode\<lparr>in_ISize := 20\<rparr>) 4 0 (Some pk) [4 \<mapsto> open_at (replicate 20 7) [] 0]
       = Ret (0, crc, zero_inode\<lparr>in_ISize := 20\<rparr>, Some pk', fds')"
proof -
  let ?d = "replicate 20 7 :: bytes" and ?i = "zero_inode\<lparr>in_ISize := 20\<rparr>" and ?fds = "[4 \<mapsto> open_at (replicate 20 7) [] 0]"
  let ?c = "Crc32c (NOT 0) (drop (length ?d - 16) ?d)"
  obtain pk where pk: "frag_index pk (unat (FRAGMENT_HASH (ucast ?c))) [fragment_item ?d 20 0]" "pk_Hash pk"
    using indexed_fragment by blast
  have "in_ISize ?i > EROFS_TOF_HASHLEN" "served ?fds 4 ?d 0" "unat (in_ISize ?i) = length ?d"
    by (simp_all add: served_open)
  from dedupe_never_finds [OF this pk(1) _ pk(2), of 3 0] pk(1) show ?thesis by auto
qed

text \<open>C24: One comparison of the search is right: for an entry that records a piece of the packed file, the comparison ends
  and reports a match of \<open>i\<close> bytes only if the last \<open>i\<close> bytes of the source are the \<open>i\<close> bytes of the packed file
  that end where the entry ends, at least 16; it reports none only if the last 16 bytes differ or the entry is
  that short.\<close>

theorem fragment_match_sound:
  fixes data pdata :: bytes and isize :: u64 and cur :: frag_item
  assumes "served fds pfd pdata pp" "served fds fd data p" "pfd \<noteq> fd" "unat isize = length data" "16 \<le> length data"
    and "records pdata cur" "length data < fuel"
  defines "q \<equiv> unat (fi_pos cur) + unat (fi_length cur)"
  shows "\<exists>r fds'. try_candidate fuel cur pfd fd isize (drop (length data - unat (search_size isize)) data) (search_size isize) fds
       = Ret (r, fds')
     \<and> served fds' pfd pdata pp \<and> served fds' fd data p
     \<and> (case r of None \<Rightarrow> unat (fi_length cur) \<le> 16 \<or> \<not> tail_match pdata q data 16
        | Some i \<Rightarrow> 16 \<le> unat i \<and> tail_match pdata q data (unat i))"
  unfolding q_def by (rule try_candidate_sound [OF assms(1-7)])

theorem fragment_match_sound_witness:
  "\<exists>i fds'. try_candidate 30 \<lparr>fi_length = 20, fi_pos = 1, fi_data = replicate 20 7\<rparr> 9 4 20 (replicate 20 7) 20
       [4 \<mapsto> open_at (replicate 20 7) [] 0, 9 \<mapsto> open_at (5 # replicate 20 7) [] 0] = Ret (Some i, fds')
     \<and> tail_match (5 # replicate 20 7) 21 (replicate 20 7) (unat i)"
proof -
  let ?d = "replicate 20 7 :: bytes" and ?p = "5 # replicate 20 7 :: bytes" and ?cur = "\<lparr>fi_length = 20, fi_pos = 1, fi_data = replicate 20 7\<rparr>"
  let ?fds = "[4 \<mapsto> open_at ?d [] 0, 9 \<mapsto> open_at ?p [] 0]"
  have r: "records ?p ?cur" by (simp add: records_def cut_def)
  have s: "search_size 20 = 20" by (simp add: search_size_def)
  have sv: "served ?fds 9 ?p 0" "served ?fds 4 ?d 0" by (simp_all add: served_open)
  obtain r fds' where run: "try_candidate 30 ?cur 9 4 20 ?d 20 ?fds = Ret (r, fds')"
      "case r of None \<Rightarrow> \<not> tail_match ?p 21 ?d 16 | Some i \<Rightarrow> tail_match ?p 21 ?d (unat i)"
    using fragment_match_sound [OF sv _ _ _ r, of 20 30] s by (fastforce split: option.splits)
  have "tail_match ?p 21 ?d 16" by (simp add: tail_match_def cut_def)
  with run show ?thesis by (cases r) auto
qed

text \<open>C25: The packed inode is never written.  \<open>ErofsFlushPackedInode\<close> asks \<open>lseek\<close> for the beginning of the packed file,
  which is never a positive offset, and returns 0 having only rewound it; \<open>ErofsMkfsBuildSpecialFromFd\<close> returns the
  error of a failing seek or \<open>Fstat\<close> and panics otherwise, because \<open>ErofsNewInode\<close> assigns through a nil pointer;
  and \<open>ErofsBeginCompressedFile\<close> panics because nothing assigns \<open>GIctx\<close>.\<close>

theorem packed_inode_never_written:
  "ErofsFlushPackedInode fuel se w =
     (if ws_packed w \<noteq> None \<and> ErofsSbHasFragments (ws_sbi w)
      then Ret (0, w\<lparr>ws_fds := snd (lseek (ws_fds w) (pk_Fd (the (ws_packed w))) 0 0)\<rparr>)
      else Ret (- EINVAL, w))
   \<and> ErofsMkfsBuildSpecialFromFd fuel se fd name w =
     (case fst (seek_start fd w) of
        Some e \<Rightarrow> Ret (Inl (SpecialErrno e), snd (seek_start fd w))
      | None \<Rightarrow> (case se_fstat se fd of
            Inl e \<Rightarrow> Ret (Inl (SpecialErrno e), snd (seek_start fd w))
          | Inr _ \<Rightarrow> Panic NilDeref))
   \<and> ErofsBeginCompressedFile fuel i fd fpos (w\<lparr>ws_ictx := None\<rparr>) = Panic NilDeref"
  using FlushPackedInode_nothing BuildSpecial_outcome BeginCompressed_no_context by simp

section \<open>Device I/O\<close>

text \<open>C26: On a device that transfers everything, possibly interrupted, what \<open>ErofsDevWrite\<close> stores is what
  \<open>ErofsDevRead\<close> loads from the same place, and a load from anywhere else is not affected.\<close>

theorem device_store_load:
  assumes "dev_ready w" "p + length bs < 2 ^ 63" "q + n < 2 ^ 63" "q + n \<le> p \<or> p + length bs \<le> q"
  shows "\<exists>w1 w2 w3. ErofsDevWrite w bs (length bs) (of_nat p) (int (length bs)) = Ret (0, w1)
     \<and> ErofsDevRead zero_sbinfo w1 0 (replicate (length bs) 0) (of_nat p) (int (length bs)) = Ret ((0, None), bs, w2)
     \<and> ErofsDevRead zero_sbinfo w1 0 (replicate n 0) (of_nat q) (int n) = Ret ((0, None), padded (dev_data w) q n, w3)"
proof -
  obtain w1 w2 where a: "dev_store w bs p = Ret (0, w1)" "dev_load w1 p (length bs) = Ret (bs, w2)"
    using dev.load_after_store [OF assms(1,2)] by blast
  obtain w3 where b: "dev_load w1 q n = Ret (padded (dev_data w) q n, w3)"
    using dev.load_elsewhere [OF assms] a(1) by (auto simp: padded_def)
  show ?thesis using a b by (auto simp: dev_store_def dest!: dev_load_read)
qed

theorem device_store_load_witness:
  "\<exists>w1 w2. ErofsDevWrite (plain_io [1, 2, 3] [Intr]) [9] 1 1 1 = Ret (0, w1)
     \<and> ErofsDevRead zero_sbinfo w1 0 [0] 1 1 = Ret ((0, None), [9], w2)"
  using device_store_load [of "plain_io [1, 2, 3] [Intr]" 1 "[9]" 2 1] plain_io_ready [of "[Intr]" "[1, 2, 3]"]
  by auto

text \<open>A read that the kernel serves in any mixture of short, full and interrupted transfers fills the
  caller's buffer with the bytes of the file, zero beyond its end, relative to the file's offset.\<close>

theorem device_read_complete:
  assumes "\<not> io_DryRun w" "vf_Ops (io_BDev w) = None" "dev \<le> 0"
    and "\<forall>r\<in>set (f_script (vf_file (io_BDev w))). reads_ok r" "f_rest (vf_file (io_BDev w)) = Full"
    and "length (f_script (vf_file (io_BDev w))) + 3 \<le> io_fuel w"
    and "unat (off + vf_Offset (io_BDev w)) + length buf < 2 ^ 63" "n \<le> length buf"
  shows "\<exists>buf' w'. ErofsDevRead sbi w dev buf off (int n) = Ret ((0, None), buf', w')
           \<and> length buf' = length buf
           \<and> take n buf' = padded (dev_data w) (unat (off + vf_Offset (io_BDev w))) n
           \<and> dev_data w' = dev_data w"
  using ErofsDevRead_reads [OF assms, of sbi] by blast

theorem device_read_complete_witness:
  "\<exists>w'. ErofsDevRead zero_sbinfo (plain_io [1, 2, 3] [Part 1, Intr, Part 1]) 0 [7, 7, 7, 7] 1 4
     = Ret ((0, None), [2, 3, 0, 0], w')"
proof -
  have p: "padded [1, 2, 3] (Suc 0) 4 = [2, 3, 0, 0 :: byte]" by code_simp
  show ?thesis
    using device_read_complete [of "plain_io [1, 2, 3] [Part 1, Intr, Part 1]" 0 1 "[7, 7, 7, 7]" 4 zero_sbinfo]
    by (auto simp: reads_ok_def p)
qed

text \<open>C27: A write that the kernel cuts short goes wrong: \<open>ErofsIoPwrite\<close> advances its buffer \<^emph>\<open>and\<close> indexes it by
  the running total, so after \<open>n\<close> bytes it continues with the bytes \<open>2n\<close> to \<open>n + len\<close> of the backing
  array, skipping \<open>n\<close> of the caller's, or panics when the array is not long enough.\<close>

theorem short_write_skips:
  assumes "f_script f = [Part n]" "f_rest f = Full" "0 < n" "n < nat len"
    and "unat pos + n < 2 ^ 63" "nat len \<le> blen" "nat len \<le> length arr"
  shows "ErofsIoPwrite (Suc (Suc (Suc k))) False \<lparr>vf_Ops = None, vf_Offset = 0, vf_file = f\<rparr> arr blen pos len =
     (if nat len + n \<le> length arr
      then Ret ((len, None), \<lparr>vf_Ops = None, vf_Offset = 0, vf_file = f\<lparr>f_script := [], f_data :=
             write_at (write_at (f_data f) (unat pos) (take n arr)) (unat pos + n)
               (cut (2 * n) (nat len - n) arr)\<rparr>\<rparr>)
      else Panic SliceBounds)"
  using ErofsIoPwrite_loop_short [OF assms, of k] by (simp add: ErofsIoPwrite_def del: ErofsIoPwrite_loop.simps)

theorem short_write_skips_witness:
  "ErofsIoPwrite (Suc (Suc (Suc 0))) False \<lparr>vf_Ops = None, vf_Offset = 0, vf_file = plain_file [] [Part 1]\<rparr> [1, 2, 3, 4] 3 0 3
     = Ret ((3, None), \<lparr>vf_Ops = None, vf_Offset = 0, vf_file = plain_file [1, 3, 4] []\<rparr>)
   \<and> ErofsIoPwrite (Suc (Suc (Suc 0))) False \<lparr>vf_Ops = None, vf_Offset = 0, vf_file = plain_file [] [Part 1]\<rparr> [1, 2, 3] 3 0 3
     = Panic SliceBounds"
proof -
  have d: "write_at (write_at [] 0 [1]) 1 [3, 4] = [1, 3, 4 :: byte]" "take 1 [1, 2, 3, 4 :: byte] = [1]"
    "cut 2 2 [1, 2, 3, 4] = [3, 4 :: byte]" by code_simp+
  show ?thesis
    using short_write_skips [of "plain_file [] [Part 1]" 1 3 0 3 "[1, 2, 3, 4]" 0]
      short_write_skips [of "plain_file [] [Part 1]" 1 3 0 3 "[1, 2, 3]" 0] d
    by (simp add: plain_file_def)
qed

text \<open>C28: Zero-filling on a device that works writes zeros over the whole range, whatever its length, leaves every other byte,
  and terminates with one round per 4096 bytes.  On a device that refuses writes, filling more than 4096 bytes never
  ends: the error of a whole-block write is dropped, and the count 0 it comes with leaves offset and length as they
  were.\<close>

theorem fallocate_zeroes_or_hangs:
  assumes "vf_ready fuel vf" "unat off + unat len < 2 ^ 63" "unat len < fuel * 4096"
  shows "(\<exists>vf'. ErofsIoFallocate fuel False vf off len pad = Ret (0, vf') \<and> vf_ready fuel vf'
           \<and> byte_at (f_data (vf_file vf'))
               = byte_at (write_at (f_data (vf_file vf)) (unat off) (replicate (unat len) 0)))
     \<and> (vf_Ops bad = None \<and> f_script (vf_file bad) = [] \<and> f_rest (vf_file bad) = Fail e \<and> e \<noteq> EINTR \<and> len > 4096
         \<longrightarrow> ErofsIoFallocate n False bad off len pad = NoFuel)"
  using ErofsIoFallocate_loop_zero [OF assms] assms(1) ErofsIoFallocate_loop_stuck [of bad e len n n off]
  by (simp add: ErofsIoFallocate_def vf_ready_def)

theorem fallocate_zeroes_or_hangs_witness:
  "(\<exists>vf'. ErofsIoFallocate 3 False \<lparr>vf_Ops = None, vf_Offset = 0, vf_file = plain_file [5, 6] [Intr]\<rparr> 1 5000 True
       = Ret (0, vf'))
   \<and> ErofsIoFallocate 50 False \<lparr>vf_Ops = None, vf_Offset = 0, vf_file = (plain_file [] [])\<lparr>f_rest := Fail 28\<rparr>\<rparr> 1 5000 True
       = NoFuel"
  using fallocate_zeroes_or_hangs [of 3 "\<lparr>vf_Ops = None, vf_Offset = 0, vf_file = plain_file [5, 6] [Intr]\<rparr>" 1 5000 True
      "\<lparr>vf_Ops = None, vf_Offset = 0, vf_file = (plain_file [] [])\<lparr>f_rest := Fail 28\<rparr>\<rparr>" 28 50]
  by (auto simp: vf_ready_def)

section \<open>Intrusive lists\<close>

text \<open>C29: Insertion and removal implement the abstract list a head stands for: \<open>ListAddTail\<close> appends, \<open>ListAdd\<close>
  prepends, \<open>ListDel\<close> removes and clears the node, and nodes outside the ring are not written.\<close>

theorem list_operations:
  assumes "dll h head xs" "e \<notin> insert head (set xs)" "dll h head (ys @ d # zs)"
  shows "(\<exists>h'. ListAddTail h (Some e) (Some head) = Ret h' \<and> dll h' head (xs @ [e])
            \<and> same_outside ({e, head} \<union> set xs) h h')
     \<and> (\<exists>h'. ListAdd h (Some e) (Some head) = Ret h' \<and> dll h' head (e # xs)
            \<and> same_outside ({e, head} \<union> set xs) h h')
     \<and> (\<exists>h'. ListDel h (Some d) = Ret h' \<and> dll h' head (ys @ zs) \<and> lprev h' d = None \<and> lnext h' d = None
            \<and> same_outside ({d, head} \<union> set (ys @ zs)) h h'
            \<and> ListDel h' (Some d) = Panic NilDeref)"
  using ListAddTail_dll [OF assms(1,2)] ListAdd_dll [OF assms(1,2)] ListDel_dll [OF assms(3)] ListDel_cleared
  by metis

theorem list_operations_witness:
  "\<exists>h h'. dll h (0::nat) [1, 2] \<and> ListDel h (Some 1) = Ret h' \<and> dll h' 0 [2] \<and> ListDel h' (Some 1) = Panic NilDeref"
proof -
  let ?h = "\<lparr>lprev = [0 \<mapsto> 2, 1 \<mapsto> 0, 2 \<mapsto> 1], lnext = [0 \<mapsto> 1, 1 \<mapsto> 2, 2 \<mapsto> 0]\<rparr> :: nat links"
  have d: "dll ?h 0 [1, 2]" by (simp add: dll_def)
  then show ?thesis using list_operations [of ?h 0 "[1, 2]" 3 "[]" 1 "[2]"] by auto
qed

text \<open>\<open>ListSpliceTail\<close> appends all elements of one list, an empty one included, to the tail of another and
  writes only the two rings; the emptied head itself is not reset.\<close>

theorem list_splice:
  assumes "dll h l xs" "dll h head ys" "insert l (set xs) \<inter> insert head (set ys) = {}"
  shows "\<exists>h'. ListSpliceTail h (Some l) (Some head) = Ret h' \<and> dll h' head (ys @ xs)
     \<and> same_outside (insert head (set ys) \<union> set xs) h h'
     \<and> lprev h' l = lprev h l \<and> lnext h' l = lnext h l"
proof -
  have "l \<notin> insert head (set ys) \<union> set xs" using assms(3) dll_distinct [OF assms(1)] by auto
  then show ?thesis using ListSpliceTail_dll [OF assms] by (auto simp: same_outside_def)
qed

theorem list_splice_witness:
  "\<exists>h h'. dll h (0::nat) [1] \<and> ListSpliceTail h (Some 0) (Some 2) = Ret h' \<and> dll h' 2 [3, 1]"
proof -
  let ?h = "\<lparr>lprev = [0 \<mapsto> 1, 1 \<mapsto> 0, 2 \<mapsto> 3, 3 \<mapsto> 2], lnext = [0 \<mapsto> 1, 1 \<mapsto> 0, 2 \<mapsto> 3, 3 \<mapsto> 2]\<rparr> :: nat links"
  have d: "dll ?h 0 [1]" "dll ?h 2 [3]" by (simp_all add: dll_def)
  then show ?thesis using list_splice [of ?h 0 "[1]" 2 "[3]"] by auto
qed

text \<open>C30: Iteration visits exactly the elements of the list in order, with one round per element, as long as
  the body leaves the links alone; and the safe iteration may delete every element it visits, after
  which the list is empty and every former element is cleared.\<close>

theorem list_iteration:
  fixes lk :: "'s \<Rightarrow> 'n links"
  assumes "dll (lk s) head xs" "length xs < n"
    and "\<And>x s r s1. f (Some x) s = Ret (r, s1) \<Longrightarrow> lk s1 = lk s"
  shows "ListForEachInList n lk f (Some head) s = visit (\<lambda>x. f (Some x)) xs s
     \<and> (\<exists>h'. ListForEachInListSafe n (\<lambda>h. h) (\<lambda>pos _ h. gbind (ListDel h pos) (\<lambda>h1. Ret (True, h1))) (Some head) (lk s)
              = Ret h' \<and> dll h' head [] \<and> (\<forall>x \<in> set xs. lprev h' x = None \<and> lnext h' x = None))"
proof -
  have "get_next (lk s) (Some head) = Ret (Some (hd (xs @ [head])))"
    using dll_next [OF assms(1)] by (simp add: link_access_defs)
  with ListForEachInListSafe_drain_loop [OF assms(1,2)]
    ListForEachInList_visit [where lk = lk and f = f and s = s, OF assms(1,2)] assms(3) show ?thesis
    by (auto simp: ListForEachInListSafe_def)
qed

theorem list_iteration_witness:
  "\<exists>h h'. dll h (0::nat) [1, 2]
     \<and> ListForEachInListSafe 3 (\<lambda>h. h) (\<lambda>pos _ h. gbind (ListDel h pos) (\<lambda>h1. Ret (True, h1))) (Some 0) h = Ret h'
     \<and> dll h' 0 []"
proof -
  let ?h = "\<lparr>lprev = [0 \<mapsto> 2, 1 \<mapsto> 0, 2 \<mapsto> 1], lnext = [0 \<mapsto> 1, 1 \<mapsto> 2, 2 \<mapsto> 0]\<rparr> :: nat links"
  have d: "dll ?h 0 [1, 2]" by (simp add: dll_def)
  then show ?thesis using list_iteration [of "\<lambda>h. h" ?h 0 "[1, 2]" 3 "\<lambda>x h. Ret (True, h)"] by auto
qed

text \<open>C31: The reflective iterator agrees with the plain one, but only on structs that begin with an exported field of type
  \<open>*ListHead\<close>: there it calls back once per node, in order, with a fresh struct that points to the node.  On
  \<open>ErofsCompressHints\<close>, where the head is a field of the struct as in every struct of the repository, it panics
  before the first call, even on an empty list.\<close>

theorem reflective_iteration:
  assumes "points_first ct member" "dll (lk s) head xs" "0 \<notin> set (head # xs)" "length xs < n"
    and "\<And>x s r s1. g x s = Ret (r, s1) \<Longrightarrow> lk s1 = lk s"
  shows "ListForEachEntry n lk (Some head) ct member (\<lambda>e. g (en_words e 0)) s
       = ListForEachInList n lk (\<lambda>p. g (address p)) (Some head) s
     \<and> ListForEachEntry n lk (Some head) ErofsCompressHints ''List'' f s = Panic TypeAssertion"
proof -
  have "ListForEachEntry n lk (Some head) ct member (\<lambda>e. g (en_words e 0)) s = visit g xs s"
    using ListForEachEntry_visit [where lk = lk and s = s, OF assms(1-4), of "\<lambda>e. g (en_words e 0)"] assms(5) by (simp add: entry_at_def)
  moreover have "ListForEachInList n lk (\<lambda>p. g (address p)) (Some head) s = visit g xs s"
    using ListForEachInList_visit [where lk = lk and s = s, OF assms(2,4), of "\<lambda>p. g (address p)"] assms(5) by (simp add: address_def)
  moreover obtain m where "n = Suc m" using assms(4) by (cases n) auto
  ultimately show ?thesis using embedded_iteration(1) [OF hints_embedded] by simp
qed

theorem reflective_iteration_witness:
  "ListForEachEntry 3 fst (Some 8) [\<lparr>fd_name = ''Head'', fd_type = ListHeadPtr, fd_offset = 0\<rparr>] ''Head''
     (\<lambda>e s. Ret (True, (fst s, snd s @ [en_words e 0]))) (pair_ring, []) = Ret (pair_ring, [16])"
proof -
  let ?ct = "[\<lparr>fd_name = ''Head'', fd_type = ListHeadPtr, fd_offset = 0\<rparr>]"
  let ?g = "\<lambda>(x :: u64) s. Ret (True, (fst s, snd s @ [x])) :: (bool \<times> u64 links \<times> u64 list) go"
  have "points_first ?ct ''Head''" by (simp add: points_first_def exported_def FieldByName_def)
  moreover have d: "dll (fst (pair_ring, [] :: u64 list)) 8 [16]" by (simp add: pair_ring_def dll_def)
  moreover have "0 \<notin> set [8, 16 :: u64]" "length [16 :: u64] < 3" by simp_all
  ultimately have "ListForEachEntry 3 fst (Some 8) ?ct ''Head'' (\<lambda>e. ?g (en_words e 0)) (pair_ring, [])
      = ListForEachInList 3 fst (\<lambda>p. ?g (address p)) (Some 8) (pair_ring, [])"
    using reflective_iteration [of ?ct "''Head''" fst "(pair_ring, [])" 8 "[16]" 3 ?g undefined] by auto
  also have "\<dots> = Ret (pair_ring, [16])"
    by (simp add: ListForEachInList_def get_next_def pair_ring_def numeral_3_eq_3 address_def)
  finally show ?thesis .
qed

section \<open>Superblock checksums, serialisers and flags\<close>

text \<open>C32: The hand-written serialiser \<open>WriteSuperblock\<close> writes, into a blank block of more than 1024 bytes, the bytes
  of the struct that \<open>binary.Write\<close> would produce at offset 1024; with smaller blocks it indexes out of
  its buffer and panics.\<close>

theorem serialiser_writes_struct:
  assumes "unat (si_BlkSzBits sbi) < 63"
  shows "WriteSuperblock sbi =
     (if 10 < unat (si_BlkSzBits sbi)
      then Ret (splice (replicate (2 ^ unat (si_BlkSzBits sbi)) 0) 1024
                  (write_disk (ToDisk (method_superblock sbi))))
      else Panic IndexRange)"
  using WriteSuperblock_struct [of sbi] WriteSuperblock_small [of sbi] assms
  by (simp add: write_superblock_disk)

theorem serialiser_writes_struct_witness:
  "WriteSuperblock zero_sbinfo = Panic IndexRange
   \<and> WriteSuperblock sbi4k = Ret (splice (replicate 4096 0) 1024 (write_disk (ToDisk (method_superblock sbi4k))))"
  using serialiser_writes_struct [of zero_sbinfo] serialiser_writes_struct [of sbi4k] by simp

text \<open>C33: \<open>ErofsGetCrc32c\<close> is \<open>Crc32c\<close> on the first \<open>len\<close> bytes (none for a negative length) and panics when the
  input is shorter; checksums compose over concatenation; and a change confined to four consecutive
  bytes always changes the checksum.\<close>

theorem crc_implementations_agree:
  "ErofsGetCrc32c crc inp len =
     (if len \<le> int (length inp) then Ret (Crc32c crc (take (nat len) inp)) else Panic IndexRange)
   \<and> Crc32c crc (xs @ ys) = Crc32c (Crc32c crc xs) ys
   \<and> (length m = length m' \<and> length m \<le> 4 \<and> m \<noteq> m' \<longrightarrow> Crc32c crc (pre @ m @ post) \<noteq> Crc32c crc (pre @ m' @ post))"
  using ErofsGetCrc32c_eq [of crc inp len] Crc32c_append [of crc xs ys] Crc32c_burst [of m m' crc pre post] by simp

theorem crc_implementations_agree_witness:
  "ErofsGetCrc32c 0 [1, 2, 3] 2 = Ret (Crc32c 0 [1, 2]) \<and> Crc32c 0 ([1] @ [2] @ [3]) \<noteq> Crc32c 0 ([1] @ [4] @ [3])"
  using crc_implementations_agree [of 0 "[1, 2, 3]" 2 "[]" "[]" "[2]" "[4]" "[1]" "[3]"] by simp

text \<open>C34: A superblock whose checksum was set validates, and after a change confined to four consecutive bytes
  of the checksummed form the computed checksum is another one.\<close>

theorem checksum_detects_bursts:
  assumes "checked_bytes sb = pre @ m @ post" "checked_bytes sb' = pre @ m' @ post"
    and "length m = length m'" "length m \<le> 4" "m \<noteq> m'"
  shows "ValidateChecksum (SetChecksum sb) \<and> CalculateChecksum sb \<noteq> CalculateChecksum sb'"
  using ValidateChecksum_SetChecksum [of sb] CalculateChecksum_burst [OF assms] by blast

theorem checksum_detects_bursts_witness:
  "CalculateChecksum (method_superblock zero_sbinfo)
     \<noteq> CalculateChecksum ((method_superblock zero_sbinfo)\<lparr>sb_Blocks := 7\<rparr>)"
proof -
  let ?sb = "method_superblock zero_sbinfo" and ?sb' = "(method_superblock zero_sbinfo)\<lparr>sb_Blocks := 7\<rparr>"
  have "checked_bytes ?sb = take 36 (checked_bytes ?sb) @ [2, 0, 0, 0] @ drop 40 (checked_bytes ?sb)"
    "checked_bytes ?sb' = take 36 (checked_bytes ?sb) @ [7, 0, 0, 0] @ drop 40 (checked_bytes ?sb)"
    by code_simp+
  then show ?thesis
    using checksum_detects_bursts
      [of ?sb "take 36 (checked_bytes ?sb)" "[2, 0, 0, 0]" "drop 40 (checked_bytes ?sb)" ?sb' "[7, 0, 0, 0]"] by simp
qed

text \<open>The byte order of the machine does not show: storing \<open>CpuToLe32 v\<close> as a native word puts the
  little-endian bytes of \<open>v\<close> in memory on either kind of machine, and loading a native word through
  \<open>Le32ToCpu\<close> reads them back.\<close>

theorem byte_order_hidden:
  assumes "length bs = 4"
  shows "native_store32 e (CpuToLe32 e v) = PutUint32 v \<and> Le32ToCpu e (native_load32 e bs) = Uint32 bs
     \<and> Le32ToCpu e (CpuToLe32 e v) = v \<and> PutUint32 (Uint32 bs) = bs"
  using assms by (simp add: native_store_CpuToLe32 Le32ToCpu_native_load Le32ToCpu_CpuToLe32 le32.enc_dec)

theorem byte_order_hidden_witness:
  "native_store32 BigEndian (CpuToLe32 BigEndian 0x01020304) = PutUint32 0x01020304 \<and> PutUint32 (Uint32 [1, 2, 3, 4]) = [1, 2, 3, 4]"
  using byte_order_hidden [of "[1, 2, 3, 4]" BigEndian "0x01020304"] by simp

text \<open>Feature flags by name and by macro are the same: \<open>SetFeature\<close> makes \<open>HasFeature\<close> true and \<open>ClearFeature\<close> makes
  it false, both write only the flag's word and bit, an unknown name changes nothing, and, because
  they share a mask, \<open>big_pcluster\<close> cannot be told from \<open>compr_cfgs\<close> nor \<open>dedupe\<close> from \<open>fragments\<close>.\<close>

theorem feature_names:
  assumes "feature_bits f = Some (fw, fm)"
  shows "SetFeature sbi f = sb_set fw fm sbi \<and> ClearFeature sbi f = sb_clear fw fm sbi
     \<and> HasFeature (SetFeature sbi f) f \<and> \<not> HasFeature (ClearFeature sbi f) f
     \<and> HasFeature sbi ''big_pcluster'' = ErofsSbHasComprCfgs sbi
     \<and> HasFeature sbi ''dedupe'' = ErofsSbHasFragments sbi
     \<and> (feature_bits g = None \<longrightarrow> SetFeature sbi g = sbi \<and> ClearFeature sbi g = sbi \<and> \<not> HasFeature sbi g)"
  by (rule feature_by_name [OF assms])

theorem feature_names_witness:
  "HasFeature (SetFeature zero_sbinfo ''big_pcluster'') ''compr_cfgs'' \<and> \<not> HasFeature zero_sbinfo ''no_such''"
  using feature_names [of "''big_pcluster''" Incompat 2 "zero_sbinfo" "''no_such''"]
    feature_names [of "''big_pcluster''" Incompat 2 "SetFeature zero_sbinfo ''big_pcluster''" "''no_such''"]
  by (simp add: feature_bits_def feature_string_spec)

text \<open>Rounding at the width of the code: as long as nothing wraps, \<open>Round_Up\<close> and \<open>RoundUp\<close> give the least
  multiple of the alignment that is not below the argument and \<open>BlkRoundUp\<close> the number of blocks a
  byte count needs; rounding up a value within one block of \<open>2^32\<close> wraps to 0.\<close>

theorem rounding:
  assumes "k < 32" "unat x + (2 ^ k - 1) < 2 ^ 32" "y \<noteq> 0" "unat z + (unat y - 1) < 2 ^ 64"
    and "unat (si_BlkSzBits sbi) = k" "unat off + (2 ^ k - 1) < 2 ^ 64"
  shows "unat (Round_Up x (push_bit k 1)) = ((unat x + (2 ^ k - 1)) div 2 ^ k) * 2 ^ k
     \<and> unat y dvd unat (RoundUp z y) \<and> unat z \<le> unat (RoundUp z y) \<and> unat (RoundUp z y) < unat z + unat y
     \<and> unat (BlkRoundUp sbi off) = (unat off + (2 ^ k - 1)) div 2 ^ k
     \<and> Round_Up 0xFFFFFFFF (push_bit 12 1) = 0"
  by (intro conjI unat_Round_Up [OF assms(1,2)] RoundUp_props [OF assms(3,4)] unat_BlkRoundUp [OF assms(5,1,6)]
      Round_Up_wraps)

theorem rounding_witness:
  "unat (Round_Up 1152 (push_bit 12 1)) = 4096 \<and> unat (BlkRoundUp sbi4k 4097) = 2"
  using rounding [of 12 1152 1 0 sbi4k 4097] by simp

section \<open>Identifiers\<close>

text \<open>C35: A kernel that is interrupted any number of times and then delivers 16 bytes is enough for \<open>UUIDGenerate\<close>
  to return: the identifier is the kernel's bytes with version 4 and variant 1 stamped in, every other
  byte kept, bytes behind the first 16 of the output untouched.  Whatever the kernel does, a success has
  that form, and on a failure the output is untouched.\<close>

theorem uuid_generation:
  assumes "delivers env (erofsGrndFlag s) n (world s) random w'" "length random = 16" "16 \<le> length out" "n < fuel"
  shows "\<exists>s' uuid. UUIDGenerate fuel env out s = Ret (None, uuid @ drop 16 out, s') \<and> uuid_v4 uuid
     \<and> (\<forall>i < 16. i \<noteq> 6 \<and> i \<noteq> 8 \<longrightarrow> uuid ! i = random ! i)
     \<and> (\<forall>env out err out' s0 s1. UUIDGenerate fuel (env :: 'w entropy) out s0 = Ret (err, out', s1) \<longrightarrow>
          (if err = None then \<exists>u. uuid_v4 u \<and> out' = u @ drop 16 out else out' = out))"
proof -
  have "\<exists>u. uuid_v4 u \<and> out' = u @ drop 16 out"
    if "UUIDGenerate fuel (env :: 'w entropy) out s0 = Ret (None, out', s1)" for env out out' s0 s1
    using UUIDGenerate_success [OF that] stamp_v4 by blast
  moreover have "out' = out" if "UUIDGenerate fuel (env :: 'w entropy) out s0 = Ret (Some e, out', s1)" for env out e out' s0 s1
    by (rule UUIDGenerate_failure [OF that])
  ultimately show ?thesis
    using UUIDGenerate_delivers [OF assms] stamp_v4 [OF assms(2)] stamp_keeps
    by (intro exI [of _ "s\<lparr>world := w'\<rparr>"] exI [of _ "stamp random"]) auto
qed

theorem uuid_generation_witness:
  "\<exists>s' uuid. UUIDGenerate 1 new_kernel (replicate 18 7) \<lparr>erofsGrndFlag = GRND_INSECURE, world = ()\<rparr> = Ret (None, uuid @ replicate 2 7, s')
     \<and> uuid_v4 uuid"
  using uuid_generation [of new_kernel "\<lparr>erofsGrndFlag = GRND_INSECURE, world = ()\<rparr>" 0 "replicate 16 0xAB" "()" "replicate 18 7" 1]
    new_kernel_delivers by auto

text \<open>\<open>UuidParse\<close> inverts printing: a text that is the 32 hexadecimal digits of 16 bytes, in either case and
  with hyphens and spaces anywhere, stores exactly those bytes in the first 16 places; a text with another
  number of digits, or with a character that is no digit, is \<open>-EINVAL\<close> and stores nothing.\<close>

theorem uuid_parse_round_trip:
  assumes "16 \<le> length uu" "length bs = 16" "uuid_digits text = hex_string upper bs"
    and "length (uuid_digits bad) \<noteq> 32 \<or> (\<exists>c\<in>set (uuid_digits bad). fromHexChar c = None)"
  shows "UuidParse text uu = (0, bs @ drop 16 uu) \<and> UuidParse bad uu = (- EINVAL, uu)"
  using UuidParse_digits [OF assms(1)] hex_decode_string [of upper bs] length_hex_string [of upper bs]
    hex_decode_defined [of "uuid_digits bad"] assms(2-4)
  by (auto split: option.splits)

theorem uuid_parse_round_trip_witness:
  "UuidParse ''abababab-abab-abab-abab-abababababab'' (replicate 16 0) = (0, replicate 16 0xAB)
     \<and> UuidParse ''xyz'' (replicate 16 0) = (- EINVAL, replicate 16 0)"
proof -
  have "uuid_digits ''abababab-abab-abab-abab-abababababab'' = hex_string False (replicate 16 0xAB)" by code_simp
  moreover have "length (uuid_digits ''xyz'') \<noteq> 32" by code_simp
  ultimately show ?thesis using uuid_parse_round_trip [of "replicate 16 0" "replicate 16 0xAB"] by fastforce
qed

section \<open>Configuration, compressors and hints\<close>

text \<open>C36: The compressors of a list of options that are empty or plain \<open>lz4\<close>, with the superblock reserved: they
  are enabled, the LZ4 distance becomes 65535, the algorithm is recorded as available, and the result is
  0 as long as the cluster size is at most a block.  A larger cluster size always ends in \<open>-EINVAL\<close>: the
  flag for big clusters has the bit of the flag for compression records, so a record is to be attached
  behind the superblock, and the superblock's ring of heads was damaged by \<open>BhBalloon\<close>.\<close>

theorem compressors_initialised:
  assumes "cf_CompressionOptions cfg \<noteq> []" "length (cf_CompressionOptions cfg) \<le> length ccfgs"
    and "\<forall>opt\<in>set (cf_CompressionOptions cfg). co_Algorithm opt = '''' \<or> usable opt" "named (cf_CompressionOptions cfg)"
    and "\<not> cf_LegacyCompress cfg" "cf_MkfsPclusterSizePacked cfg \<le> cf_MkfsPclusterSizeMax cfg"
    and "sb_reserved sbi s" "\<not> ErofsSbHasComprCfgs sbi"
  shows "\<exists>ret ccfgs' sbi'. ZErofsCompressInit fuel cfg ccfgs sbi (Some 0) s w = Ret (ret, ccfgs', sbi', s, w)
     \<and> ret = (if cf_MkfsPclusterSizeMax cfg \<le> ErofsBlkSiz sbi then 0 else - EINVAL)
     \<and> Lz4_MaxDistance sbi' = 65535 \<and> AvailableComprAlgs sbi' = 1
     \<and> (\<forall>j < length (cf_CompressionOptions cfg). co_Algorithm (cf_CompressionOptions cfg ! j) \<noteq> '''' \<longrightarrow> cc_Enable (ccfgs' ! j))"
proof -
  let ?sbi1 = "sbi\<lparr>Lz4_MaxDistance := 65535, AvailableComprAlgs := 1\<rparr>"
  obtain ccfgs' where c: "ZErofsCompressInit fuel cfg ccfgs sbi (Some 0) s w
      = Ret (if cf_MkfsPclusterSizeMax cfg \<le> ErofsBlkSiz sbi then (0, ccfgs', ?sbi1, s, w)
            else if cf_MkfsPclusterSizeMax cfg > Z_EROFS_PCLUSTER_MAX_SIZE then (- EINVAL, ccfgs', ?sbi1, s, w)
            else (- EINVAL, ccfgs', ErofsSbSetBigPcluster ?sbi1, s, w))"
      and on: "\<forall>j < length (cf_CompressionOptions cfg). co_Algorithm (cf_CompressionOptions cfg ! j) \<noteq> '''' \<longrightarrow> cc_Enable (ccfgs' ! j)"
    using ZErofsCompressInit_default [OF assms, of fuel w] by blast
  define sbi' where "sbi' = (if cf_MkfsPclusterSizeMax cfg \<le> ErofsBlkSiz sbi \<or> cf_MkfsPclusterSizeMax cfg > Z_EROFS_PCLUSTER_MAX_SIZE
      then ?sbi1 else ErofsSbSetBigPcluster ?sbi1)"
  have "Lz4_MaxDistance sbi' = 65535" "AvailableComprAlgs sbi' = 1"
    by (simp_all add: sbi'_def ErofsSbSetBigPcluster_def flag_defs)
  with c on show ?thesis
    by (intro exI [of _ "if cf_MkfsPclusterSizeMax cfg \<le> ErofsBlkSiz sbi then 0 else - EINVAL"] exI [of _ ccfgs']
        exI [of _ sbi']) (simp add: sbi'_def)
qed

theorem compressors_initialised_witness:
  "\<exists>s ccfgs' sbi'. ZErofsCompressInit 3 (run_config (plain_machine new_kernel [] '''') (default_flags [''a'', ''b'']))
       ErofsCCfg sbi4k (Some 0) s (plain_io [] []) = Ret (0, ccfgs', sbi', s, plain_io [] []) \<and> cc_Enable (ccfgs' ! 0)"
proof -
  obtain s where s: "sb_reserved sbi4k s" using reserved_superblock by blast
  let ?cfg = "run_config (plain_machine new_kernel [] '''') (default_flags [''a'', ''b''])"
  have size: "cf_MkfsPclusterSizeMax ?cfg = ErofsBlkSiz sbi4k"
    using MkfsDefaultOptions_block_size(1,5) [of 12 _ _ ?cfg]
    by (simp add: run_config_def MkfsDefaultOptions_def Let_def ErofsBlkSiz_def log2_floor_power [of 12, simplified])
  have "\<not> ErofsSbHasComprCfgs sbi4k"
    by (simp add: sbi4k_def zero_sbinfo_def ErofsSbHasComprCfgs_def sb_has_def read_flags_def)
  then show ?thesis
    using compressors_initialised [of ?cfg ErofsCCfg sbi4k s 3 "plain_io [] []"] s size
    by (auto simp: usable_def named_def ErofsCCfg_def)
qed

text \<open>C37: Loading hints into an initialised list refines the abstract reading of the file: when every line is
  skipped or a hint, the list holds the hints whose pattern is valid, in the file's order, behind those
  it held, and the largest cluster size is the maximum over all of them; a first line that is neither
  ends the load with its error after the hints before it were added.\<close>

theorem hints_loaded_in_order:
  assumes "hints_are hs xs"
    and "\<forall>l\<in>set ls. parse_hint cfg sbi l = Skip \<or> (\<exists>pcs pat k. parse_hint cfg sbi l = Hint pcs pat k)"
    and "parse_hint cfg sbi bad = Reject ret"
  shows "\<exists>hs1 hs2. load_lines regexp_ok cfg sbi ls mx hs = Ret (Inr (largest cfg sbi ls mx), hs1)
     \<and> hints_are hs1 (xs @ wanted regexp_ok cfg sbi ls)
     \<and> load_lines regexp_ok cfg sbi (ls @ bad # rest) mx hs = Ret (Inl ret, hs2)
     \<and> hints_are hs2 (xs @ wanted regexp_ok cfg sbi ls)"
  using load_lines_accepted [OF assms(1,2)] load_lines_reject [OF assms] by blast

theorem hints_loaded_in_order_witness:
  "\<exists>hs hs1. load_lines (\<lambda>p. p \<noteq> ''*'') (InitConfigure False) sbi4k [''# c'', ''8192 a.*'', ''4096 *''] 0 hs = Ret (Inr 8192, hs1)
     \<and> hints_are hs1 [\<lparr>hi_Reg = ''a.*'', hi_PhysicalClusterblks = 2, hi_AlgorithmType = 0\<rparr>]"
proof -
  let ?l = "[''# c'', ''8192 a.*'', ''4096 *'']"
  obtain hs where hs: "hints_are hs []" using hints_are_empty by blast
  have f: "Fields ''8192 a.*'' = [''8192'', ''a.*'']" "Atoi ''8192'' = Some 8192" "Fields ''4096 *'' = [''4096'', ''*'']"
      "Atoi ''4096'' = Some 4096" "Fields ''x'' = [''x'']" by code_simp+
  have b: "ErofsBlkSiz sbi4k = 4096" by (simp add: ErofsBlkSiz_def)
  have p: "parse_hint (InitConfigure False) sbi4k ''# c'' = Skip"
      "parse_hint (InitConfigure False) sbi4k ''8192 a.*'' = Hint 8192 ''a.*'' 0"
      "parse_hint (InitConfigure False) sbi4k ''4096 *'' = Hint 4096 ''*'' 0"
      "parse_hint (InitConfigure False) sbi4k ''x'' = Reject (- EINVAL)"
    using f b by (simp_all add: parse_hint_def hint_cfg_def Let_def)
  then show ?thesis
    using hints_loaded_in_order [OF hs, of ?l "InitConfigure False" sbi4k "''x''" "- EINVAL" "\<lambda>p. p \<noteq> ''*''" 0 "[]"] b
    by (fastforce simp: go_quo_def)
qed

text \<open>C38: The LZ4 adapter loses data.  For any compressor that hands its output to its writer in chunks, \<open>ps\<close> on \<open>Write\<close> and
  \<open>qs\<close> on \<open>Close\<close>, each of which fits the destination, \<open>Lz4CompressDestsize\<close> succeeds with every chunk stored at the
  start of the destination, over those before it, so that the buffer starts with the last chunk; and the size it
  returns is the destination's, not the number of compressed bytes.\<close>

theorem lz4_adapter_overwrites:
  assumes "emits lz (take (nat (sint srcsize)) src) ps qs n"
    and "0 \<le> sint srcsize" "nat (sint srcsize) \<le> length src" "0 < sint dstsize"
    and "\<forall>p\<in>set (ps @ qs). length p \<le> length dst \<and> int (length p) \<le> sint dstsize" "ps @ qs \<noteq> []"
  shows "\<exists>dst'. Lz4CompressDestsize lz src srcsize dst dstsize = Ret (int (length dst), of_int n, dst')
     \<and> dst' = foldl (\<lambda>d p. splice d 0 p) dst (ps @ qs) \<and> take (length (last (ps @ qs))) dst' = last (ps @ qs)"
  using Lz4CompressDestsize_overlay [OF assms(1-5)] overlay_last [OF assms(6), of dst] assms(5) by simp

theorem lz4_adapter_overwrites_witness:
  "\<exists>lz :: unit lz4_lib. emits lz [9, 8, 7, 6, 5] [[1, 2, 3], [4]] [[5, 6]] 5
     \<and> Lz4CompressDestsize lz [9, 8, 7, 6, 5] 5 [0, 0, 0, 0] 4 = Ret (4, 5, [5, 6, 3, 0])"
proof -
  let ?lz = "\<lparr>lz_new = (), lz_Write = (\<lambda>W w c inp. case feed W [[1, 2, 3], [4]] w of
        Some w1 \<Rightarrow> Ret ((int (length inp), None), (), w1) | None \<Rightarrow> Ret ((0, Some EIO), (), w)),
      lz_Close = (\<lambda>W w c. case feed W [[5, 6]] w of Some w1 \<Rightarrow> Ret (None, w1) | None \<Rightarrow> Ret (Some EIO, w))\<rparr>"
  have e: "emits ?lz [9, 8, 7, 6, 5] [[1, 2, 3], [4]] [[5, 6]] 5" by (simp add: emits_def del: feed.simps)
  have "splice (splice (splice [0, 0, 0, 0] 0 [1, 2, 3]) 0 [4]) 0 [5, 6] = [5, 6, 3, 0 :: byte]" by code_simp
  then show ?thesis
    using lz4_adapter_overwrites [of ?lz 5 "[9, 8, 7, 6, 5]" "[[1, 2, 3], [4]]" "[[5, 6]]" 5 4 "[0, 0, 0, 0]"] e
    by (intro exI [of _ ?lz]) simp
qed

section \<open>Opening and writing through paths\<close>

text \<open>C39: Opening a non-empty regular file for truncation.  On ext4 and btrfs the open always fails: the file is removed,
  made again without contents and reported as not empty, so the old image is lost; when the removal fails, which the code does not
  look at, the reopening finds the old file, which keeps its contents; when the reopening fails after a removal
  there is no file left.  On any other file system the file is emptied and the block size recorded, or keeps its
  contents under the error of \<open>ftruncate\<close>.  An open without truncation keeps the file as it is.\<close>

theorem truncating_open_destroys:
  assumes "flags AND 3 \<noteq> 0" "flags AND 512 \<noteq> 0" "flags' AND 3 \<noteq> 0" "flags' AND 512 = 0"
    and "os_open os = None" "os_stat os = None" "os_kind os = Regular" "f_data f \<noteq> []"
    and "f_data fresh = []"
  shows "DevOpen os sbi (Some f) fresh flags
       = Ret (if os_statfs os = Some EXT4_MAGIC \<or> os_statfs os = Some BTRFS_MAGIC
           then \<lparr>do_err = Some (case os_reopen os of Some e \<Rightarrow> OsError e | None \<Rightarrow> NotEmpty), do_sbi = sbi,
             do_file = (if os_remove os \<noteq> None then Some f else if os_reopen os = None then Some (fresh\<lparr>f_data := []\<rparr>) else None),
             do_removed = (os_remove os = None)\<rparr>
           else case os_truncate os of
             Some e \<Rightarrow> \<lparr>do_err = Some (OsError e), do_sbi = sbi, do_file = Some f, do_removed = False\<rparr>
           | None \<Rightarrow> (case os_fstat os of
               Inl e \<Rightarrow> \<lparr>do_err = Some (OsError e), do_sbi = sbi, do_file = Some (f\<lparr>f_data := []\<rparr>), do_removed = False\<rparr>
             | Inr n \<Rightarrow> \<lparr>do_err = None, do_sbi = sbi\<lparr>DevBlkSz := n\<rparr>, do_file = Some (f\<lparr>f_data := []\<rparr>), do_removed = False\<rparr>))
     \<and> DevOpen os sbi (Some f) fresh flags'
       = Ret \<lparr>do_err = None, do_sbi = sbi, do_file = Some f, do_removed = False\<rparr>"
  using DevOpen_truncate [OF assms(1,2,5-7), of sbi "Some f" fresh] DevOpen_read_write [OF assms(3,4), of os sbi "Some f" fresh]
    assms(5,8,9) open_repeat_removing [of os False sbi fresh f] open_repeat_truncating [of os False sbi fresh f]
  by (auto simp: open_regular_def empty_file_def split: option.split sum.split)

theorem truncating_open_destroys_witness:
  "DevOpen plain_os sbi4k (Some (plain_file [1] [])) (plain_file [] []) 514
     = Ret \<lparr>do_err = Some NotEmpty, do_sbi = sbi4k, do_file = Some (plain_file [] []), do_removed = True\<rparr>
   \<and> DevOpen (plain_os\<lparr>os_remove := Some 1\<rparr>) sbi4k (Some (plain_file [1] [])) (plain_file [] []) 514
     = Ret \<lparr>do_err = Some NotEmpty, do_sbi = sbi4k, do_file = Some (plain_file [1] []), do_removed = False\<rparr>
   \<and> DevOpen (plain_os\<lparr>os_statfs := Some 0x1021994\<rparr>) sbi4k (Some (plain_file [1] [])) (plain_file [] []) 514
     = Ret \<lparr>do_err = None, do_sbi = sbi4k\<lparr>DevBlkSz := 4096\<rparr>, do_file = Some (plain_file [] []), do_removed = False\<rparr>"
  using truncating_open_destroys [of 514 2 plain_os "plain_file [1] []" "plain_file [] []" sbi4k]
    truncating_open_destroys [of 514 2 "plain_os\<lparr>os_remove := Some 1\<rparr>" "plain_file [1] []" "plain_file [] []" sbi4k]
    truncating_open_destroys [of 514 2 "plain_os\<lparr>os_statfs := Some 0x1021994\<rparr>" "plain_file [1] []" "plain_file [] []" sbi4k]
  by (simp add: plain_os_def plain_file_def)

text \<open>C40: The two ways of writing blocks: \<open>BlkWrite\<close> of \<open>pkg/util\<close>, which opens the file by its path, and \<open>ErofsBlkWrite\<close> of
  \<open>pkg/types\<close> leave the same bytes in the image, at the block's byte address, on a device that transfers everything.
  On a device whose next transfer is cut off after \<open>n\<close> bytes, with \<open>n\<close> below the size of the blocks, the path-based one still stores
  these bytes; \<open>ErofsBlkWrite\<close> reports success with the bytes from \<open>2 n\<close> on stored behind the first \<open>n\<close>, or panics
  when the buffer ends before them.\<close>

theorem block_writers_agree:
  fixes blkAddr nblocks :: u32 and sbi :: sbinfo
  defines "p \<equiv> unat blkAddr * 2 ^ unat (si_BlkSzBits sbi)" and "l \<equiv> unat nblocks * 2 ^ unat (si_BlkSzBits sbi)"
  assumes "os_open os = None" "unat (si_BlkSzBits sbi) \<le> 12" "l \<le> length buf"
    and "dev_ready w" "f_data f = dev_data w" "\<forall>r\<in>set (f_script f). reads_ok r" "f_rest f = Full"
    and "dev_short ws n" "0 < n" "n < l"
  shows "(\<exists>f' w'. util_BlkWrite os sbi (Some f) buf blkAddr nblocks = Ret (None, Some f')
       \<and> ErofsBlkWrite sbi w buf (length buf) blkAddr nblocks = Ret (0, w') \<and> dev_ready w'
       \<and> byte_at (f_data f') = byte_at (write_at (dev_data w) p (take l buf))
       \<and> byte_at (dev_data w') = byte_at (write_at (dev_data w) p (take l buf)))
     \<and> (\<exists>f'. util_BlkWrite os sbi (Some (vf_file (io_BDev ws))) buf blkAddr nblocks = Ret (None, Some f')
       \<and> byte_at (f_data f') = byte_at (write_at (dev_data ws) p (take l buf)))
     \<and> ErofsBlkWrite sbi ws buf (length buf) blkAddr nblocks =
         (if l + n \<le> length buf
          then Ret (0, store_dev (write_at (write_at (dev_data ws) p (take n buf)) (p + n) (cut (2 * n) (l - n) buf)) ws)
          else Panic SliceBounds)"
proof -
  have "\<forall>r\<in>set (f_script (vf_file (io_BDev ws))). reads_ok r" "f_rest (vf_file (io_BDev ws)) = Full"
    using assms(10,11) by (simp_all add: dev_short_def reads_ok_def)
  then have "\<exists>f'. util_BlkWrite os sbi (Some (vf_file (io_BDev ws))) buf blkAddr nblocks = Ret (None, Some f')
       \<and> byte_at (f_data f') = byte_at (write_at (dev_data ws) p (take l buf))"
    using util_BlkWrite_complete [where f = "vf_file (io_BDev ws)" and blkAddr = blkAddr, OF assms(3,4) _ _ assms(5) [unfolded l_def]]
    by (simp add: p_def l_def dev_data_def)
  then show ?thesis
    using util_BlkWrite_complete [where blkAddr = blkAddr, OF assms(3,4,8,9) assms(5) [unfolded l_def]]
      ErofsBlkWrite_ready [where blkAddr = blkAddr, OF assms(4,6) assms(5) [unfolded l_def]]
      ErofsBlkWrite_short [where blkAddr = blkAddr, OF assms(4,10,11) assms(12,5) [unfolded l_def]] assms(5,7,12)
    by (auto simp: p_def l_def)
qed

theorem block_writers_agree_witness:
  "(\<exists>f' w'. util_BlkWrite plain_os sbi4k (Some (plain_file [] [Part 100, Intr])) (replicate 4096 7) 1 1 = Ret (None, Some f')
     \<and> ErofsBlkWrite sbi4k (plain_io [] []) (replicate 4096 7) 4096 1 1 = Ret (0, w')
     \<and> byte_at (f_data f') = byte_at (dev_data w'))
   \<and> ErofsBlkWrite sbi4k (plain_io [] [Part 100]) (replicate 4096 7) 4096 1 1 = Panic SliceBounds"
proof -
  have "dev_short (plain_io [] [Part 100]) 100" by (simp add: dev_short_def plain_io_def plain_file_def)
  then show ?thesis
    using block_writers_agree [of plain_os sbi4k 1 "replicate 4096 7" "plain_io [] []" "plain_file [] [Part 100, Intr]"
        "plain_io [] [Part 100]" 100 1]
      plain_io_ready [of "[]" "[]"] by (fastforce simp: reads_ok_def)
qed

end
